(* ===== verification/Prelude.thy ===== *)
theory Prelude
  imports Main "HOL-Library.Word"
begin

text \<open>
  Shared vocabulary of the development: Go's fixed-width integers and byte slices, the
  outcome of a Go call (a value, an error, or a panic) with its sequencing operator, and the
  lemma collections the component theories extend.

  A slice is a \<open>bytes option\<close>, with \<open>None\<close> for Go's nil slice, because the program
  tests for nil (an absent credential, an absent payload) and the CBOR codec encodes nil and
  empty differently.  \<open>len\<close> and \<open>content\<close> read both alike, as Go's \<open>len\<close> and
  \<open>range\<close> do.  Go strings are byte sequences; they are Isabelle strings here (a
  \<open>char\<close> is eight bits), converted by \<open>bytes_of_string\<close> and \<open>string_of_bytes\<close>.
\<close>

section \<open>Machine integers, slices and strings\<close>

type_synonym u8 = "8 word"
type_synonym u32 = "32 word"
type_synonym u64 = "64 word"

text \<open>An \<open>int64\<close> is a 64-bit word read in two's complement, by \<open>sint\<close>.\<close>

type_synonym i64 = "64 word"

type_synonym bytes = "u8 list"
type_synonym slice = "bytes option"

definition content :: "slice \<Rightarrow> bytes" where
  "content s = (case s of None \<Rightarrow> [] | Some b \<Rightarrow> b)"

definition len :: "slice \<Rightarrow> nat" where
  "len s = length (content s)"

lemma content_simps [simp]: "content None = []" "content (Some b) = b"
  by (simp_all add: content_def)

lemma len_simps [simp]: "len None = 0" "len (Some b) = length b"
  by (simp_all add: len_def)

lemma len_eq_0: "len s = 0 \<longleftrightarrow> content s = []"
  by (simp add: len_def)

lemma len_content: "length (content s) = len s"
  by (simp add: len_def)

definition bytes_of_string :: "string \<Rightarrow> bytes" where
  "bytes_of_string s = map of_char s"

definition string_of_bytes :: "bytes \<Rightarrow> string" where
  "string_of_bytes b = map (\<lambda>x. char_of (unat x)) b"

lemma unat_of_char [simp]: "unat (of_char c :: u8) = of_char c"
proof -
  have "(of_char c :: nat) < 2 ^ LENGTH(8)"
    by simp
  then have "unat (of_nat (of_char c) :: u8) = of_char c"
    by (simp only: unat_of_nat mod_less)
  then show ?thesis
    by (simp only: of_nat_of_char)
qed

lemma string_of_bytes_of_string [simp]: "string_of_bytes (bytes_of_string s) = s"
  by (induction s) (simp_all add: string_of_bytes_def bytes_of_string_def)

lemma of_char_char_of_unat [simp]: "(of_char (char_of (unat (x :: u8))) :: u8) = x"
proof -
  have "unat x < 256"
    using unsigned_less [of x] by simp
  then have "unat (of_char (char_of (unat x)) :: u8) = unat x"
    by simp
  then show ?thesis
    by (simp only: word_unat_eq_iff)
qed

lemma bytes_of_string_of_bytes [simp]: "bytes_of_string (string_of_bytes b) = b"
  by (induction b) (simp_all add: string_of_bytes_def bytes_of_string_def)

lemma length_bytes_of_string [simp]: "length (bytes_of_string s) = length s"
  by (simp add: bytes_of_string_def)

lemma length_string_of_bytes [simp]: "length (string_of_bytes b) = length b"
  by (simp add: string_of_bytes_def)

lemma bytes_of_string_eq_iff [simp]: "bytes_of_string s = bytes_of_string t \<longleftrightarrow> s = t"
  by (metis string_of_bytes_of_string)

lemma string_of_bytes_eq_Nil [simp]: "string_of_bytes b = [] \<longleftrightarrow> b = []"
  by (simp add: string_of_bytes_def)

section \<open>Outcomes of a Go call\<close>

text \<open>
  A function with results \<open>(T, error)\<close> yields \<open>Ok\<close> (nil error) or \<open>Err\<close>;
  \<open>Panic\<close> is a run-time panic, with the reason.  \<open>obind\<close> is the
  \<open>if err != nil { return err }\<close> idiom.
\<close>

datatype ('e, 'a) outcome = Ok 'a | Err 'e | Panic string

definition obind :: "('e, 'a) outcome \<Rightarrow> ('a \<Rightarrow> ('e, 'b) outcome) \<Rightarrow> ('e, 'b) outcome" where
  "obind m f = (case m of Ok a \<Rightarrow> f a | Err e \<Rightarrow> Err e | Panic p \<Rightarrow> Panic p)"

text \<open>Rewrapping an error: \<open>if err != nil { return fmt.Errorf(..., err) }\<close>.\<close>

definition map_err :: "('e \<Rightarrow> 'f) \<Rightarrow> ('e, 'a) outcome \<Rightarrow> ('f, 'a) outcome" where
  "map_err g m = (case m of Ok a \<Rightarrow> Ok a | Err e \<Rightarrow> Err (g e) | Panic p \<Rightarrow> Panic p)"

named_theorems outcome_simps "evaluation and inversion of outcomes"

lemma obind_simps [simp, outcome_simps]:
  "obind (Ok a) f = f a" "obind (Err e) f = Err e" "obind (Panic p) f = Panic p"
  by (simp_all add: obind_def)

lemma map_err_simps [simp, outcome_simps]:
  "map_err g (Ok a) = Ok a" "map_err g (Err e) = Err (g e)" "map_err g (Panic p) = Panic p"
  by (simp_all add: map_err_def)

lemma obind_assoc: "obind (obind m f) g = obind m (\<lambda>a. obind (f a) g)"
  by (cases m) simp_all

lemma obind_Ok_right [simp]: "obind m Ok = m"
  by (cases m) simp_all

lemma obind_eq_Ok [outcome_simps]:
  "obind m f = Ok b \<longleftrightarrow> (\<exists>a. m = Ok a \<and> f a = Ok b)"
  by (cases m) simp_all

lemma obind_eq_Err [outcome_simps]:
  "obind m f = Err e \<longleftrightarrow> m = Err e \<or> (\<exists>a. m = Ok a \<and> f a = Err e)"
  by (cases m) simp_all

lemma obind_eq_Panic [outcome_simps]:
  "obind m f = Panic p \<longleftrightarrow> m = Panic p \<or> (\<exists>a. m = Ok a \<and> f a = Panic p)"
  by (cases m) simp_all

lemma map_err_eq_Ok [outcome_simps]: "map_err g m = Ok a \<longleftrightarrow> m = Ok a"
  by (cases m) simp_all

lemma map_err_eq_Err [outcome_simps]:
  "map_err g m = Err e \<longleftrightarrow> (\<exists>d. m = Err d \<and> e = g d)"
  by (cases m) auto

lemma map_err_eq_Panic [outcome_simps]: "map_err g m = Panic p \<longleftrightarrow> m = Panic p"
  by (cases m) simp_all

text \<open>
  Panic freedom, the contract of every exported operation, composes along \<open>obind\<close>.
\<close>

definition no_panic :: "('e, 'a) outcome \<Rightarrow> bool" where
  "no_panic m = (case m of Panic _ \<Rightarrow> False | _ \<Rightarrow> True)"

named_theorems no_panic_intros "introduction rules for panic freedom"

lemma no_panic_simps [simp]: "no_panic (Ok a)" "no_panic (Err e)" "\<not> no_panic (Panic p)"
  by (simp_all add: no_panic_def)

lemma no_panic_iff: "no_panic m \<longleftrightarrow> (\<forall>p. m \<noteq> Panic p)"
  by (cases m) simp_all

lemma no_panic_obind [no_panic_intros]:
  "no_panic m \<Longrightarrow> (\<And>a. m = Ok a \<Longrightarrow> no_panic (f a)) \<Longrightarrow> no_panic (obind m f)"
  by (cases m) simp_all

lemma no_panic_map_err [simp]: "no_panic (map_err g m) = no_panic m"
  by (cases m) simp_all

lemma no_panic_if [no_panic_intros]:
  "(c \<Longrightarrow> no_panic a) \<Longrightarrow> (\<not> c \<Longrightarrow> no_panic b) \<Longrightarrow> no_panic (if c then a else b)"
  by simp

text \<open>A result of a library call, \<open>Inl\<close> the error text, as an outcome.\<close>

definition of_sum :: "('d \<Rightarrow> 'e) \<Rightarrow> 'd + 'a \<Rightarrow> ('e, 'a) outcome" where
  "of_sum g r = (case r of Inl d \<Rightarrow> Err (g d) | Inr a \<Rightarrow> Ok a)"

lemma of_sum_simps [simp, outcome_simps]: "of_sum g (Inl d) = Err (g d)" "of_sum g (Inr a) = Ok a"
  by (simp_all add: of_sum_def)

lemma of_sum_eq_Ok [outcome_simps]: "of_sum g r = Ok a \<longleftrightarrow> r = Inr a"
  by (cases r) simp_all

lemma of_sum_eq_Err [outcome_simps]: "of_sum g r = Err e \<longleftrightarrow> (\<exists>d. r = Inl d \<and> e = g d)"
  by (cases r) auto

lemma of_sum_no_panic [simp]: "no_panic (of_sum g r)"
  by (cases r) simp_all

lemma of_sum_not_Panic [simp, outcome_simps]: "of_sum g r \<noteq> Panic p"
  by (cases r) simp_all

text \<open>\<open>errs_in E m\<close>: \<open>m\<close> fails, if at all, with an error of \<open>E\<close>.\<close>

definition errs_in :: "'e set \<Rightarrow> ('e, 'a) outcome \<Rightarrow> bool" where
  "errs_in E m = (case m of Err e \<Rightarrow> e \<in> E | _ \<Rightarrow> True)"

named_theorems errs_intros "introduction rules for the errors of a call"

lemma errs_in_simps [simp]:
  "errs_in E (Ok a)" "errs_in E (Err e) \<longleftrightarrow> e \<in> E" "errs_in E (Panic p)"
  by (simp_all add: errs_in_def)

lemma errs_in_obind [errs_intros]:
  "errs_in E m \<Longrightarrow> (\<And>a. m = Ok a \<Longrightarrow> errs_in E (f a)) \<Longrightarrow> errs_in E (obind m f)"
  by (cases m) simp_all

lemma errs_in_if [errs_intros]:
  "(c \<Longrightarrow> errs_in E a) \<Longrightarrow> (\<not> c \<Longrightarrow> errs_in E b) \<Longrightarrow> errs_in E (if c then a else b)"
  by simp

lemma errs_in_prod [errs_intros]:
  "(\<And>x y. p = (x, y) \<Longrightarrow> errs_in E (f x y)) \<Longrightarrow> errs_in E (case p of (x, y) \<Rightarrow> f x y)"
  by (cases p) simp

lemma errs_in_mono: "errs_in D m \<Longrightarrow> D \<subseteq> E \<Longrightarrow> errs_in E m"
  by (cases m) auto

lemma errs_inD: "errs_in E m \<Longrightarrow> m = Err e \<Longrightarrow> e \<in> E"
  by simp

text \<open>Elimination rules, which invert a chain of calls one call at a time.\<close>

lemma obind_OkE:
  assumes "obind m f = Ok b"
  obtains a where "m = Ok a" "f a = Ok b"
  using assms by (auto simp: obind_eq_Ok)

lemma obind_ErrE:
  assumes "obind m f = Err e"
  obtains (first) "m = Err e" | (later) a where "m = Ok a" "f a = Err e"
  using assms by (auto simp: obind_eq_Err)

lemma of_sum_ErrE:
  assumes "of_sum g r = Err e"
  obtains d where "r = Inl d" "e = g d"
  using assms by (auto simp: of_sum_eq_Err)

lemma errs_in_of_sum: "(\<And>d. g d \<in> E) \<Longrightarrow> errs_in E (of_sum g r)"
  by (cases r) simp_all

text \<open>
  \<open>s[lo:hi]\<close> panics outside the slice.  (Go bounds \<open>hi\<close> by the capacity; the model
  bounds it by the length, so it panics at least as often.)  \<open>index\<close> is \<open>s[i]\<close>.
\<close>

definition subslice :: "slice \<Rightarrow> nat \<Rightarrow> nat \<Rightarrow> ('e, slice) outcome" where
  "subslice s lo hi =
     (if lo \<le> hi \<and> hi \<le> len s then Ok (Some (take (hi - lo) (drop lo (content s))))
      else Panic ''slice bounds out of range'')"

definition index :: "'a list \<Rightarrow> nat \<Rightarrow> ('e, 'a) outcome" where
  "index xs i = (if i < length xs then Ok (xs ! i) else Panic ''index out of range'')"

lemma subslice_ok:
  "lo \<le> hi \<Longrightarrow> hi \<le> len s \<Longrightarrow> subslice s lo hi = Ok (Some (take (hi - lo) (drop lo (content s))))"
  by (simp add: subslice_def)

lemma errs_in_index [simp]: "errs_in E (index xs i)"
  by (simp add: index_def)

lemma index_ok: "i < length xs \<Longrightarrow> index xs i = Ok (xs ! i)"
  by (simp add: index_def)

section \<open>Generic list facts\<close>

lemma take_drop_append3:
  assumes "m \<le> n" "n \<le> length xs"
  shows "take m xs @ take (n - m) (drop m xs) @ drop n xs = xs"
proof -
  have "take (n - m) (drop m xs) @ drop n xs = drop m xs"
    using assms append_take_drop_id [of "n - m" "drop m xs"] by simp
  then show ?thesis
    by simp
qed

lemma length_eq_4_conv: "length xs = 4 \<longleftrightarrow> (\<exists>a b c d. xs = [a, b, c, d])"
proof
  assume "length xs = 4"
  then obtain a b c d where "xs = [a, b, c, d]"
    by (auto simp: numeral_eq_Suc length_Suc_conv)
  then show "\<exists>a b c d. xs = [a, b, c, d]"
    by blast
qed auto

end
