(* ===== verification/Errors.thy ===== *)
theory Errors
  imports Prelude
begin

text \<open>
  The error values of the three packages: the exported sentinels with their texts
  (\<^verbatim>\<open>errors.go\<close>, \<^verbatim>\<open>internal/address/address.go\<close>,
  \<^verbatim>\<open>internal/cose/cose.go\<close>), the wrapping that \<open>fmt.Errorf\<close> builds with its
  \<open>%w\<close> verbs, and \<open>errors.Is\<close>, the search callers classify a failure with.

  An error is a tree: a sentinel, an error of \<open>encoding/hex\<close>, the text of a third-party
  library's error, or an \<open>Errorf\<close> node with its format and arguments, whose \<open>%w\<close>
  arguments are the children.  \<open>in_chain\<close> is the declarative reading of the wrapping
  relation; \<open>errors_Is\<close> is the executable search, proved equivalent.
\<close>

section \<open>Sentinels\<close>

datatype address_err =
    ErrEmpty | ErrInvalidBech32 | ErrTooShort | ErrTrailingBytes
  | ErrUnsupportedType | ErrNetworkMismatch | ErrHRPMismatch

datatype cose_err =
    ErrInvalidSign1 | ErrInvalidProtected | ErrInvalidUnprotected | ErrUnsupportedAlg
  | ErrInvalidPayload | ErrInvalidSignature | ErrInvalidSignatureLen | ErrInvalidKey
  | ErrUnsupportedKeyType | ErrUnsupportedCurve | ErrInvalidPublicKeyLen

datatype cip30_err =
    ErrInvalidSignatureHex | ErrInvalidKeyHex | ErrDecodeSignature | ErrDecodeKey
  | ErrDecodeAddress | ErrConflictingAddress | ErrNoEmbeddedAddress

text \<open>The public sentinels form a finite type, so a statement over all of them is decided by
  evaluation.\<close>

lemma cip30_err_all:
  "(\<forall>x. P x) \<longleftrightarrow>
     P ErrInvalidSignatureHex \<and> P ErrInvalidKeyHex \<and> P ErrDecodeSignature \<and>
     P ErrDecodeKey \<and> P ErrDecodeAddress \<and> P ErrConflictingAddress \<and>
     P ErrNoEmbeddedAddress"
  by (metis cip30_err.exhaust)

lemma cip30_err_ex:
  "(\<exists>x. P x) \<longleftrightarrow>
     P ErrInvalidSignatureHex \<or> P ErrInvalidKeyHex \<or> P ErrDecodeSignature \<or>
     P ErrDecodeKey \<or> P ErrDecodeAddress \<or> P ErrConflictingAddress \<or>
     P ErrNoEmbeddedAddress"
  by (metis cip30_err.exhaust)

instantiation cip30_err :: enum
begin

definition enum_cip30_err :: "cip30_err list" where
  "enum_cip30_err =
     [ErrInvalidSignatureHex, ErrInvalidKeyHex, ErrDecodeSignature, ErrDecodeKey,
      ErrDecodeAddress, ErrConflictingAddress, ErrNoEmbeddedAddress]"

definition enum_all_cip30_err :: "(cip30_err \<Rightarrow> bool) \<Rightarrow> bool" where
  "enum_all_cip30_err P \<longleftrightarrow> list_all P enum_class.enum"

definition enum_ex_cip30_err :: "(cip30_err \<Rightarrow> bool) \<Rightarrow> bool" where
  "enum_ex_cip30_err P \<longleftrightarrow> list_ex P enum_class.enum"

instance
proof
  show "UNIV = set (enum_class.enum :: cip30_err list)"
    unfolding enum_cip30_err_def by (auto intro: cip30_err.exhaust)
  show "distinct (enum_class.enum :: cip30_err list)"
    unfolding enum_cip30_err_def by simp
  show "enum_class.enum_all P \<longleftrightarrow> Ball UNIV P" "enum_class.enum_ex P \<longleftrightarrow> Bex UNIV P"
    for P :: "cip30_err \<Rightarrow> bool"
    unfolding enum_all_cip30_err_def enum_ex_cip30_err_def enum_cip30_err_def
    by (simp_all add: cip30_err_all cip30_err_ex)
qed

end

primrec address_err_text :: "address_err \<Rightarrow> string" where
  "address_err_text ErrEmpty = ''address: empty input''"
| "address_err_text ErrInvalidBech32 = ''address: invalid bech32''"
| "address_err_text ErrTooShort = ''address: raw address too short for its type''"
| "address_err_text ErrTrailingBytes = ''address: trailing bytes beyond canonical length''"
| "address_err_text ErrUnsupportedType = ''address: unsupported address type''"
| "address_err_text ErrNetworkMismatch = ''address: bech32 prefix disagrees with header network''"
| "address_err_text ErrHRPMismatch = ''address: bech32 prefix disagrees with address type''"

primrec cose_err_text :: "cose_err \<Rightarrow> string" where
  "cose_err_text ErrInvalidSign1 = ''cose: COSE_Sign1 is not a 4-element array''"
| "cose_err_text ErrInvalidProtected = ''cose: invalid protected header''"
| "cose_err_text ErrInvalidUnprotected = ''cose: invalid unprotected header''"
| "cose_err_text ErrUnsupportedAlg = ''cose: unsupported algorithm (want EdDSA)''"
| "cose_err_text ErrInvalidPayload = ''cose: payload is not a byte string''"
| "cose_err_text ErrInvalidSignature = ''cose: signature is not a byte string''"
| "cose_err_text ErrInvalidSignatureLen = ''cose: signature is not 64 bytes''"
| "cose_err_text ErrInvalidKey = ''cose: invalid COSE_Key''"
| "cose_err_text ErrUnsupportedKeyType = ''cose: unsupported key type (want OKP)''"
| "cose_err_text ErrUnsupportedCurve = ''cose: unsupported curve (want Ed25519)''"
| "cose_err_text ErrInvalidPublicKeyLen = ''cose: public key is not 32 bytes''"

primrec cip30_err_text :: "cip30_err \<Rightarrow> string" where
  "cip30_err_text ErrInvalidSignatureHex = ''cip30: signature is not valid hex''"
| "cip30_err_text ErrInvalidKeyHex = ''cip30: key is not valid hex''"
| "cip30_err_text ErrDecodeSignature = ''cip30: cannot decode COSE_Sign1''"
| "cip30_err_text ErrDecodeKey = ''cip30: cannot decode COSE_Key''"
| "cip30_err_text ErrDecodeAddress = ''cip30: cannot decode address''"
| "cip30_err_text ErrConflictingAddress =
     ''cip30: WithAddress and WithEmbeddedAddress are mutually exclusive''"
| "cip30_err_text ErrNoEmbeddedAddress = ''cip30: signature has no embedded address''"

datatype sentinel = AddressE address_err | CoseE cose_err | Cip30E cip30_err

primrec sentinel_text :: "sentinel \<Rightarrow> string" where
  "sentinel_text (AddressE e) = address_err_text e"
| "sentinel_text (CoseE e) = cose_err_text e"
| "sentinel_text (Cip30E e) = cip30_err_text e"

section \<open>Wrapped errors\<close>

text \<open>The two error values of \<open>encoding/hex\<close>.\<close>

datatype hex_error = InvalidByteError u8 | ErrLength

datatype goerror =
    Sentinel sentinel
  | HexError hex_error
  | LibError string
  | Errorf string "fmt_arg list"
and fmt_arg =
    ArgErr goerror   \<comment> \<open>the argument of a \<open>%w\<close>\<close>
  | ArgInt int       \<comment> \<open>of a \<open>%d\<close>\<close>
  | ArgStr string    \<comment> \<open>of a \<open>%q\<close>\<close>

type_synonym 'a go = "(goerror, 'a) outcome"

abbreviation address_error :: "address_err \<Rightarrow> goerror" where
  "address_error e \<equiv> Sentinel (AddressE e)"

abbreviation cose_error :: "cose_err \<Rightarrow> goerror" where
  "cose_error e \<equiv> Sentinel (CoseE e)"

abbreviation cip30_error :: "cip30_err \<Rightarrow> goerror" where
  "cip30_error e \<equiv> Sentinel (Cip30E e)"

text \<open>\<open>fmt.Errorf("%w: %w", sentinel, cause)\<close>, the usual shape.\<close>

definition wrap :: "goerror \<Rightarrow> goerror \<Rightarrow> goerror" where
  "wrap s cause = Errorf ''%w: %w'' [ArgErr s, ArgErr cause]"

fun errors_Is :: "goerror \<Rightarrow> sentinel \<Rightarrow> bool" and arg_Is :: "fmt_arg \<Rightarrow> sentinel \<Rightarrow> bool" where
  "errors_Is (Sentinel s) t = (s = t)"
| "errors_Is (HexError h) t = False"
| "errors_Is (LibError m) t = False"
| "errors_Is (Errorf f args) t = list_ex (\<lambda>a. arg_Is a t) args"
| "arg_Is (ArgErr e) t = errors_Is e t"
| "arg_Is (ArgInt i) t = False"
| "arg_Is (ArgStr s) t = False"

named_theorems error_simps "evaluation of errors.Is on the program's errors"

lemma errors_Is_wrap [simp, error_simps]:
  "errors_Is (wrap s c) t \<longleftrightarrow> errors_Is s t \<or> errors_Is c t"
  by (simp add: wrap_def)

text \<open>\<open>in_chain e d\<close>: \<open>d\<close> is \<open>e\<close> or is reached from it by unwrapping.\<close>

inductive in_chain :: "goerror \<Rightarrow> goerror \<Rightarrow> bool" where
  here: "in_chain e e"
| unwrap: "ArgErr d \<in> set args \<Longrightarrow> in_chain d c \<Longrightarrow> in_chain (Errorf f args) c"

inductive_simps in_chain_Sentinel [simp]: "in_chain (Sentinel s) c"
inductive_simps in_chain_HexError [simp]: "in_chain (HexError h) c"
inductive_simps in_chain_LibError [simp]: "in_chain (LibError m) c"
inductive_simps in_chain_Errorf: "in_chain (Errorf f args) c"

lemma in_chain_trans: "in_chain a b \<Longrightarrow> in_chain b c \<Longrightarrow> in_chain a c"
  by (induction rule: in_chain.induct) (auto intro: in_chain.unwrap)

lemma in_chain_imp_Is: "in_chain e c \<Longrightarrow> c = Sentinel t \<Longrightarrow> errors_Is e t"
  by (induction rule: in_chain.induct) (auto simp: list_ex_iff intro!: bexI)

lemma Is_imp_in_chain:
  "errors_Is e t \<Longrightarrow> in_chain e (Sentinel t)"
  "arg_Is a t \<Longrightarrow> \<exists>d. a = ArgErr d \<and> in_chain d (Sentinel t)"
proof (induction e t and a t rule: errors_Is_arg_Is.induct)
  case (4 f args t)
  then obtain a where a: "a \<in> set args" "arg_Is a t"
    by (auto simp: list_ex_iff)
  from "4.IH" [OF a] obtain d where "a = ArgErr d" "in_chain d (Sentinel t)"
    by blast
  with a(1) show ?case
    by (auto intro: in_chain.unwrap)
qed (auto intro: in_chain.here)

text \<open>\<open>errors.Is\<close>, as every caller uses it, decides exactly whether the sentinel is
  somewhere in the tree of wrapped errors, however it was wrapped.\<close>

lemma errors_Is_iff_in_chain: "errors_Is e s \<longleftrightarrow> in_chain e (Sentinel s)"
  using in_chain_imp_Is Is_imp_in_chain(1) by blast

text \<open>
  All sentinels of an error tree, left to right: the class of a failure.  \<open>fails_with m S\<close>
  says that \<open>m\<close> fails and that \<open>errors.Is\<close> recognises exactly the sentinels of \<open>S\<close>.
\<close>

fun sentinels :: "goerror \<Rightarrow> sentinel list" and arg_sentinels :: "fmt_arg \<Rightarrow> sentinel list" where
  "sentinels (Sentinel s) = [s]"
| "sentinels (HexError h) = []"
| "sentinels (LibError m) = []"
| "sentinels (Errorf f args) = concat (map arg_sentinels args)"
| "arg_sentinels (ArgErr e) = sentinels e"
| "arg_sentinels (ArgInt i) = []"
| "arg_sentinels (ArgStr s) = []"

lemma errors_Is_sentinels:
  "errors_Is e t \<longleftrightarrow> t \<in> set (sentinels e)"
  "arg_Is a t \<longleftrightarrow> t \<in> set (arg_sentinels a)"
  by (induction e t and a t rule: errors_Is_arg_Is.induct) (auto simp: list_ex_iff)

definition fails_with :: "'a go \<Rightarrow> sentinel set \<Rightarrow> bool" where
  "fails_with m S = (case m of Err e \<Rightarrow> set (sentinels e) = S | _ \<Rightarrow> False)"

lemma sentinels_wrap [simp]: "sentinels (wrap s c) = sentinels s @ sentinels c"
  by (simp add: wrap_def)

lemma fails_with_simps [simp, error_simps]:
  "fails_with (Err e) S \<longleftrightarrow> set (sentinels e) = S"
  "\<not> fails_with (Ok a) S" "\<not> fails_with (Panic p) S"
  by (simp_all add: fails_with_def)

lemma fails_with_iff: "fails_with m S \<longleftrightarrow> (\<exists>e. m = Err e \<and> set (sentinels e) = S)"
  by (cases m) simp_all

lemma fails_with_Is: "fails_with (Err e) S \<Longrightarrow> errors_Is e s \<longleftrightarrow> s \<in> S"
  by (auto simp: errors_Is_sentinels)

lemma fails_with_wrap:
  "fails_with m S \<Longrightarrow> fails_with (map_err (wrap e) m) (set (sentinels e) \<union> S)"
  by (auto simp: fails_with_iff)

lemma fails_with_obind: "fails_with m S \<Longrightarrow> fails_with (obind m f) S"
  by (auto simp: fails_with_iff)

lemma sentinel_text_inj: "sentinel_text s = sentinel_text t \<longleftrightarrow> s = t"
proof -
  have "sentinel_text s = sentinel_text t \<Longrightarrow> s = t"
    by (cases s; cases t; rename_tac a b; case_tac a; case_tac b; simp)
  then show ?thesis
    by blast
qed

end
