(* ===== verification/Go_Std.thy ===== *)
theory Go_Std
  imports Errors
begin

unbundle bit_operations_syntax

text \<open>
  The parts of Go's standard library the program calls, as the standard library documents
  them: \<open>encoding/hex\<close> (a table-driven decoder that reports the first bad byte, or an odd
  length), \<open>crypto/subtle\<close>'s constant-time comparison with its word arithmetic, and the
  argument checks of \<open>crypto/ed25519\<close>.

  Two interfaces are stated as locales, because several components rest on them: \<open>byte_eq\<close>
  (an equality test on byte sequences returning 0 or 1) and \<open>hex_codec\<close> (an encoder and a
  strict decoder).  Both are interpreted here on the definitions of this theory.
\<close>

section \<open>encoding/hex\<close>

definition reverseHexTable :: "u8 \<Rightarrow> u8" where
  "reverseHexTable c =
     (if 48 \<le> c \<and> c \<le> 57 then c - 48
      else if 97 \<le> c \<and> c \<le> 102 then c - 87
      else if 65 \<le> c \<and> c \<le> 70 then c - 55
      else 255)"

definition is_hex :: "u8 \<Rightarrow> bool" where
  "is_hex c \<longleftrightarrow> reverseHexTable c \<le> 15"

text \<open>
  \<open>hex.Decode\<close> reads two digits at a time, checks the first before the second, and only
  then complains about a lone last digit, which it checks for validity first.
\<close>

fun hex_Decode :: "bytes \<Rightarrow> (hex_error, bytes) outcome" where
  "hex_Decode [] = Ok []"
| "hex_Decode [p] =
     (if reverseHexTable p > 15 then Err (InvalidByteError p) else Err ErrLength)"
| "hex_Decode (p # q # src) =
     (let a = reverseHexTable p; b = reverseHexTable q in
      if a > 15 then Err (InvalidByteError p)
      else if b > 15 then Err (InvalidByteError q)
      else obind (hex_Decode src) (\<lambda>dst. Ok ((push_bit 4 a OR b) # dst)))"

definition hex_DecodeString :: "string \<Rightarrow> (hex_error, slice) outcome" where
  "hex_DecodeString s = obind (hex_Decode (bytes_of_string s)) (\<lambda>dst. Ok (Some dst))"

text \<open>\<open>hex.EncodeToString\<close>, which emits lower-case digits.\<close>

definition hextable :: "u8 \<Rightarrow> u8" where
  "hextable v = (if v < 10 then v + 48 else v + 87)"

definition hex_Encode :: "bytes \<Rightarrow> bytes" where
  "hex_Encode b = concat (map (\<lambda>v. [hextable (drop_bit 4 v), hextable (v AND 15)]) b)"

definition hex_EncodeToString :: "bytes \<Rightarrow> string" where
  "hex_EncodeToString b = string_of_bytes (hex_Encode b)"

lemma hex_Encode_simps [simp]:
  "hex_Encode [] = []"
  "hex_Encode (v # b) = hextable (drop_bit 4 v) # hextable (v AND 15) # hex_Encode b"
  by (simp_all add: hex_Encode_def)

lemma length_hex_Encode [simp]: "length (hex_Encode b) = 2 * length b"
  by (induction b) simp_all

text \<open>Facts about single bytes and nibbles.\<close>

lemma nibble_all:
  assumes all: "list_all (\<lambda>n. P (of_nat n :: u8)) [0..<16]" and v: "v \<le> 15"
  shows "P v"
proof -
  have "\<forall>n \<in> {0..<16}. P (of_nat n)"
    using all by (simp only: list_all_iff set_upt)
  moreover have "unat v \<in> {0..<16}"
    using v by (simp add: word_le_nat_alt)
  ultimately have "P (of_nat (unat v))"
    by blast
  then show ?thesis
    by simp
qed

lemma hextable_reverse: "v \<le> 15 \<Longrightarrow> reverseHexTable (hextable v) = v"
  by (rule nibble_all [of "\<lambda>v. reverseHexTable (hextable v) = v"]) code_simp

lemma nibbles_join: "push_bit 4 (drop_bit 4 v) OR (v AND 15) = (v :: u8)"
proof -
  have mask: "(15 :: u8) = mask 4"
    by (simp add: mask_eq_exp_minus_1)
  show ?thesis
    unfolding mask by (rule bit_eqI) (auto simp: bit_simps)
qed

lemma drop_nibble_le: "drop_bit 4 (v :: u8) \<le> 15"
proof -
  have "unat v < 256"
    using unsigned_less [of v] by simp
  then show ?thesis
    by (simp add: word_le_nat_alt drop_bit_eq_div unat_div)
qed

lemma and_nibble_le: "(v :: u8) AND 15 \<le> 15"
  by (rule word_and_le1)

lemma is_hex_ranges:
  "is_hex c \<longleftrightarrow> 48 \<le> c \<and> c \<le> 57 \<or> 97 \<le> c \<and> c \<le> 102 \<or> 65 \<le> c \<and> c \<le> 70"
  unfolding is_hex_def reverseHexTable_def
  by (simp split: if_splits; unat_arith)

section \<open>crypto/subtle\<close>

text \<open>
  \<open>ConstantTimeByteEq\<close> is \<open>int((uint32(x^y) - 1) >> 31)\<close>; \<open>ConstantTimeCompare\<close> ors
  the differences of all bytes together, without an early exit, and tests the result.
\<close>

definition ConstantTimeByteEq :: "u8 \<Rightarrow> u8 \<Rightarrow> int" where
  "ConstantTimeByteEq x y = uint (drop_bit 31 ((ucast (x XOR y) :: u32) - 1))"

fun ct_diff :: "bytes \<Rightarrow> bytes \<Rightarrow> u8 \<Rightarrow> u8" where
  "ct_diff (x # xs) (y # ys) v = ct_diff xs ys (v OR (x XOR y))"
| "ct_diff _ _ v = v"

definition ConstantTimeCompare :: "bytes \<Rightarrow> bytes \<Rightarrow> int" where
  "ConstantTimeCompare x y =
     (if length x \<noteq> length y then 0 else ConstantTimeByteEq (ct_diff x y 0) 0)"

lemma ConstantTimeByteEq_0: "ConstantTimeByteEq v 0 = (if v = 0 then 1 else 0)"
proof (cases "v = 0")
  case True
  then show ?thesis by (simp add: ConstantTimeByteEq_def)
next
  case False
  have lt: "uint v < 256" using unsigned_less [of v] by simp
  have pos: "0 < uint v" using False uint_0_iff [of v] uint_ge_0 [of v] by (simp add: less_le) 
  have "uint ((ucast v :: u32) - 1) = uint v - 1"
    using lt pos by (simp add: uint_word_ariths uint_up_ucast is_up)
  then have "uint (drop_bit 31 ((ucast v :: u32) - 1)) = 0"
    using lt pos by (simp only: unsigned_drop_bit_eq) (simp add: take_bit_eq_mod drop_bit_eq_div)
  then show ?thesis using False by (simp add: ConstantTimeByteEq_def)
qed

lemma or_eq_0_word: "(a OR b = (0 :: u8)) \<longleftrightarrow> a = 0 \<and> b = 0"
  by (auto simp: bit_eq_iff bit_or_iff)

lemma xor_eq_0_word: "(a XOR b = (0 :: u8)) \<longleftrightarrow> a = b"
  by (auto simp: bit_eq_iff bit_xor_iff)

lemma ct_diff_0_iff:
  "length xs = length ys \<Longrightarrow> ct_diff xs ys v = 0 \<longleftrightarrow> v = 0 \<and> xs = ys"
  by (induction xs ys v rule: ct_diff.induct) (auto simp: or_eq_0_word xor_eq_0_word)

lemma ConstantTimeCompare_iff: "ConstantTimeCompare x y = (if x = y then 1 else 0)"
  by (auto simp: ConstantTimeCompare_def ConstantTimeByteEq_0 ct_diff_0_iff)

text \<open>The interface the comparison provides to the credential and payload checks.\<close>

locale byte_eq =
  fixes cmp :: "bytes \<Rightarrow> bytes \<Rightarrow> int"
  assumes cmp_one: "cmp x y = 1 \<longleftrightarrow> x = y"
    and cmp_bool: "cmp x y = 0 \<or> cmp x y = 1"
begin

lemma cmp_refl [simp]: "cmp x x = 1"
  by (simp add: cmp_one)

lemma cmp_sym: "cmp x y = cmp y x"
  by (metis cmp_bool cmp_one)

lemma cmp_length: "length x \<noteq> length y \<Longrightarrow> cmp x y = 0"
  by (metis cmp_bool cmp_one)

lemma cmp_trans: "cmp x y = 1 \<Longrightarrow> cmp y z = 1 \<Longrightarrow> cmp x z = 1"
  by (simp add: cmp_one)

end

interpretation subtle: byte_eq ConstantTimeCompare
  by unfold_locales (simp_all add: ConstantTimeCompare_iff)

section \<open>The hex codec\<close>

locale hex_codec =
  fixes dec :: "bytes \<Rightarrow> (hex_error, bytes) outcome"
    and enc :: "bytes \<Rightarrow> bytes"
    and digit :: "u8 \<Rightarrow> bool"
  assumes dec_enc: "dec (enc b) = Ok b"
    and dec_Ok_iff: "(\<exists>b. dec s = Ok b) \<longleftrightarrow> even (length s) \<and> list_all digit s"
    and dec_no_panic: "no_panic (dec s)"
    and dec_length: "dec s = Ok b \<Longrightarrow> length s = 2 * length b"
begin

lemma enc_inj: "enc a = enc b \<Longrightarrow> a = b"
  by (metis dec_enc outcome.inject(1))

lemma enc_digits: "list_all digit (enc b)"
  using dec_enc dec_Ok_iff by blast

lemma enc_length: "length (enc b) = 2 * length b"
  using dec_enc dec_length by blast

lemma dec_odd: "odd (length s) \<Longrightarrow> \<exists>e. dec s = Err e"
  using dec_Ok_iff dec_no_panic by (metis no_panic_simps(3) outcome.exhaust)

lemma dec_bad_digit: "\<not> list_all digit s \<Longrightarrow> \<exists>e. dec s = Err e"
  using dec_Ok_iff dec_no_panic by (metis no_panic_simps(3) outcome.exhaust)

lemma dec_nonempty: "dec s = Ok b \<Longrightarrow> s \<noteq> [] \<Longrightarrow> b \<noteq> []"
  using dec_length by fastforce

end

lemma hex_Decode_hex_Encode: "hex_Decode (hex_Encode b) = Ok b"
  by (induction b)
    (simp_all add: Let_def hextable_reverse drop_nibble_le and_nibble_le nibbles_join leD)

lemma hex_Decode_Ok_iff: "(\<exists>b. hex_Decode s = Ok b) \<longleftrightarrow> even (length s) \<and> list_all is_hex s"
  by (induction s rule: hex_Decode.induct)
    (auto simp: Let_def is_hex_def outcome_simps not_less not_le)

lemma hex_Decode_no_panic: "no_panic (hex_Decode s)"
  by (induction s rule: hex_Decode.induct) (auto simp: Let_def intro!: no_panic_obind)

lemma hex_Decode_length: "hex_Decode s = Ok b \<Longrightarrow> length s = 2 * length b"
  by (induction s arbitrary: b rule: hex_Decode.induct)
    (auto simp: Let_def outcome_simps split: if_splits)

interpretation hex: hex_codec hex_Decode hex_Encode is_hex
  by unfold_locales
    (simp_all add: hex_Decode_hex_Encode hex_Decode_Ok_iff hex_Decode_no_panic hex_Decode_length)

lemma hex_DecodeString_no_panic [simp]: "no_panic (hex_DecodeString s)"
  by (auto simp: hex_DecodeString_def intro!: no_panic_obind hex.dec_no_panic)

lemma hex_DecodeString_EncodeToString [simp]:
  "hex_DecodeString (hex_EncodeToString b) = Ok (Some b)"
  by (simp add: hex_DecodeString_def hex_EncodeToString_def hex.dec_enc)

text \<open>The decoder is insensitive to case: raising a lower-case digit changes nothing.\<close>

definition upper_hex :: "u8 \<Rightarrow> u8" where
  "upper_hex c = (if 97 \<le> c \<and> c \<le> 102 then c - 32 else c)"

lemma reverseHexTable_upper [simp]: "reverseHexTable (upper_hex c) = reverseHexTable c"
  unfolding upper_hex_def reverseHexTable_def
  by (simp split: if_splits; unat_arith)

lemma hex_Decode_upper_Ok: "hex_Decode (map upper_hex s) = Ok b \<longleftrightarrow> hex_Decode s = Ok b"
  by (induction s arbitrary: b rule: hex_Decode.induct) (auto simp: Let_def outcome_simps)

text \<open>Decoding is the inverse of encoding up to letter case.\<close>

lemma byte_all:
  assumes "list_all (\<lambda>n. P (of_nat n :: u8)) [0..<256]"
  shows "P v"
proof -
  have "unat v \<in> {0..<256}"
    using unsigned_less [of v] by simp
  moreover have "\<forall>n \<in> {0..<256}. P (of_nat n)"
    using assms by (simp only: list_all_iff set_upt)
  ultimately have "P (of_nat (unat v))"
    by blast
  then show ?thesis
    by simp
qed

lemma upper_hextable:
  "reverseHexTable p \<le> 15 \<Longrightarrow> upper_hex (hextable (reverseHexTable p)) = upper_hex p"
proof -
  have "\<not> reverseHexTable p \<le> 15 \<or> upper_hex (hextable (reverseHexTable p)) = upper_hex p"
    by (rule byte_all [of "\<lambda>p. \<not> reverseHexTable p \<le> 15 \<or> upper_hex (hextable (reverseHexTable p)) = upper_hex p"])
      code_simp
  moreover assume "reverseHexTable p \<le> 15"
  ultimately show ?thesis
    by blast
qed

lemma join_nibbles:
  assumes "a \<le> 15" "b \<le> 15"
  shows "drop_bit 4 (push_bit 4 a OR b) = (a :: u8) \<and> (push_bit 4 a OR b) AND 15 = b"
proof -
  let ?P = "\<lambda>a b. drop_bit 4 (push_bit 4 a OR b) = (a :: u8) \<and> (push_bit 4 a OR b) AND 15 = b"
  have "list_all (\<lambda>n. list_all (\<lambda>m. ?P (of_nat n) (of_nat m)) [0..<16]) [0..<16]"
    by code_simp
  then have "\<forall>n \<in> set [0..<16]. list_all (\<lambda>m. ?P (of_nat n) (of_nat m)) [0..<16]"
    by (simp only: list_all_iff)
  then have "\<forall>n \<in> set [0..<16]. ?P (of_nat n) b"
    using nibble_all [of "?P _", OF _ assms(2)] by blast
  then show ?thesis
    by (intro nibble_all [of "\<lambda>a. ?P a b", OF _ assms(1)]) (simp only: list_all_iff)
qed

lemma hex_Encode_Cons: "hex_Encode (v # b) = hextable (drop_bit 4 v) # hextable (v AND 15) # hex_Encode b"
  by (simp add: hex_Encode_def)

lemma hex_Decode_upper_Encode:
  "hex_Decode s = Ok b \<Longrightarrow> map upper_hex s = map upper_hex (hex_Encode b)"
proof (induction s arbitrary: b rule: hex_Decode.induct)
  case 1
  then show ?case
    by (simp add: hex_Encode_def)
next
  case (2 p)
  then show ?case
    by (simp split: if_splits)
next
  case (3 p q src)
  then obtain d where "hex_Decode src = Ok d" "\<not> reverseHexTable p > 15" "\<not> reverseHexTable q > 15"
     "b = (push_bit 4 (reverseHexTable p) OR reverseHexTable q) # d"
    by (auto simp: Let_def outcome_simps split: if_splits)
  then show ?case
    using 3 join_nibbles [of "reverseHexTable p" "reverseHexTable q"]
    by (simp add: hex_Encode_Cons upper_hextable not_less)
qed

lemma hex_Decode_iff_Encode:
  "hex_Decode s = Ok b \<longleftrightarrow> map upper_hex s = map upper_hex (hex_Encode b)"
  by (metis hex_Decode_upper_Encode hex_Decode_upper_Ok hex_Decode_hex_Encode)

section \<open>Decimal formatting\<close>

text \<open>The rendering of an unsigned number by \<open>%d\<close>.\<close>

definition digit_char :: "nat \<Rightarrow> char" where
  "digit_char d = char_of (48 + d)"

fun decimal :: "nat \<Rightarrow> string" where
  "decimal n = (if n < 10 then [digit_char n] else decimal (n div 10) @ [digit_char (n mod 10)])"

declare decimal.simps [simp del]

definition read_decimal :: "string \<Rightarrow> nat" where
  "read_decimal s = foldl (\<lambda>a c. 10 * a + (of_char c - 48)) 0 s"

lemma read_digit: "d < 10 \<Longrightarrow> of_char (digit_char d) - 48 = d"
  by (simp add: digit_char_def)

lemma read_decimal_decimal: "read_decimal (decimal n) = n"
proof (induction n rule: decimal.induct)
  case (1 n)
  show ?case
  proof (cases "n < 10")
    case True
    then show ?thesis
      by (simp add: decimal.simps [of n] read_decimal_def read_digit)
  next
    case False
    then have "read_decimal (decimal n) = 10 * read_decimal (decimal (n div 10)) + n mod 10"
      by (simp add: decimal.simps [of n] read_decimal_def read_digit)
    with 1 False show ?thesis
      by simp
  qed
qed

lemma decimal_inj: "decimal m = decimal n \<longleftrightarrow> m = n"
  by (metis read_decimal_decimal)

section \<open>crypto/ed25519\<close>

text \<open>
  \<open>ed25519.Verify\<close> panics on a key that is not 32 bytes and refuses a signature that is not
  64 bytes; what is left is the verification equation of RFC 8032, a parameter here.
\<close>

definition ed25519_PublicKeySize :: nat where "ed25519_PublicKeySize = 32"
definition ed25519_SignatureSize :: nat where "ed25519_SignatureSize = 64"

definition ed25519_Verify ::
  "(bytes \<Rightarrow> bytes \<Rightarrow> bytes \<Rightarrow> bool) \<Rightarrow> slice \<Rightarrow> bytes \<Rightarrow> slice \<Rightarrow> bool go" where
  "ed25519_Verify equation publicKey message sig =
     (if len publicKey \<noteq> ed25519_PublicKeySize then Panic ''ed25519: bad public key length''
      else if len sig \<noteq> ed25519_SignatureSize then Ok False
      else Ok (equation (content publicKey) message (content sig)))"

lemma ed25519_Verify_simps [simp]:
  "len pk = 32 \<Longrightarrow> len sig = 64 \<Longrightarrow>
     ed25519_Verify eqn pk msg sig = Ok (eqn (content pk) msg (content sig))"
  by (simp add: ed25519_Verify_def ed25519_PublicKeySize_def ed25519_SignatureSize_def)

end
