(* ===== verification/Cip19.thy ===== *)
theory Cip19
  imports Go_Std
begin

unbundle bit_operations_syntax

text \<open>
  The abstract specification of a Cardano address (CIP-19), independent of the decoder: an
  address is a base, enterprise or reward address over key-hash or script-hash credentials, and
  \<open>cip19_encode\<close> is its one canonical byte form: a header byte, with the type in the high
  nibble and the network in the low one, followed by the 28-byte hashes.  The theory proves the
  arithmetic of the header nibbles and that encoding is injective.
\<close>

section \<open>Header nibbles\<close>

definition make_header :: "u8 \<Rightarrow> u8 \<Rightarrow> u8" where
  "make_header t n = push_bit 4 t OR n"

lemma nibble_take_bit: "t \<le> (15 :: u8) \<Longrightarrow> take_bit 4 t = t"
  by (simp add: word_unat_eq_iff unsigned_take_bit_eq take_bit_nat_eq_self_iff word_le_nat_alt)

lemma nibble_bit: "t \<le> (15 :: u8) \<Longrightarrow> bit t i \<Longrightarrow> i < 4"
  by (metis bit_take_bit_iff nibble_take_bit)

lemma nibble_mask: "(15 :: u8) = mask 4"
  by (simp add: mask_eq_exp_minus_1)

lemma header_type [simp]: "t \<le> 15 \<Longrightarrow> n \<le> 15 \<Longrightarrow> drop_bit 4 (make_header t n) = t"
  unfolding make_header_def
  by (rule bit_eqI) (auto simp: bit_simps dest: nibble_bit)

lemma header_network [simp]:
  assumes "t \<le> 15" "n \<le> 15"
  shows "make_header t n AND 15 = n"
proof -
  have "make_header t n AND mask 4 = n"
    unfolding make_header_def using assms
    by (intro bit_eqI) (auto simp: bit_simps dest: nibble_bit)
  then show ?thesis
    by (simp only: nibble_mask)
qed

lemma header_join [simp]: "make_header (drop_bit 4 h) (h AND 15) = h"
  by (simp add: make_header_def nibbles_join)

section \<open>Addresses\<close>

datatype credential = KeyHash bytes | ScriptHash bytes

datatype cip19 =
    Base u8 credential credential   \<comment> \<open>network, payment, delegation\<close>
  | Enterprise u8 credential        \<comment> \<open>network, payment\<close>
  | Reward u8 credential            \<comment> \<open>network, stake\<close>

primrec cred_hash :: "credential \<Rightarrow> bytes" where
  "cred_hash (KeyHash h) = h"
| "cred_hash (ScriptHash h) = h"

primrec is_script :: "credential \<Rightarrow> bool" where
  "is_script (KeyHash h) = False"
| "is_script (ScriptHash h) = True"

definition make_cred :: "bool \<Rightarrow> bytes \<Rightarrow> credential" where
  "make_cred script h = (if script then ScriptHash h else KeyHash h)"

lemma make_cred_simps [simp]:
  "cred_hash (make_cred s h) = h" "is_script (make_cred s h) = s"
  "make_cred (is_script c) (cred_hash c) = c"
  by (cases c; simp add: make_cred_def)+

lemma cred_eq_KeyHash: "c = KeyHash h \<longleftrightarrow> \<not> is_script c \<and> cred_hash c = h"
  by (cases c) auto

text \<open>The CIP-19 type number: bit 0 marks a script payment, bit 1 a script delegation.\<close>

primrec cip19_type :: "cip19 \<Rightarrow> u8" where
  "cip19_type (Base n p s) = (if is_script p then 1 else 0) + (if is_script s then 2 else 0)"
| "cip19_type (Enterprise n p) = (if is_script p then 7 else 6)"
| "cip19_type (Reward n s) = (if is_script s then 15 else 14)"

primrec cip19_network :: "cip19 \<Rightarrow> u8" where
  "cip19_network (Base n p s) = n"
| "cip19_network (Enterprise n p) = n"
| "cip19_network (Reward n s) = n"

primrec cip19_payload :: "cip19 \<Rightarrow> bytes" where
  "cip19_payload (Base n p s) = cred_hash p @ cred_hash s"
| "cip19_payload (Enterprise n p) = cred_hash p"
| "cip19_payload (Reward n s) = cred_hash s"

definition cip19_header :: "cip19 \<Rightarrow> u8" where
  "cip19_header a = make_header (cip19_type a) (cip19_network a)"

definition cip19_encode :: "cip19 \<Rightarrow> bytes" where
  "cip19_encode a = cip19_header a # cip19_payload a"

definition wf_cred :: "credential \<Rightarrow> bool" where
  "wf_cred c \<longleftrightarrow> length (cred_hash c) = 28"

primrec wf_cip19 :: "cip19 \<Rightarrow> bool" where
  "wf_cip19 (Base n p s) = (n \<le> 15 \<and> wf_cred p \<and> wf_cred s)"
| "wf_cip19 (Enterprise n p) = (n \<le> 15 \<and> wf_cred p)"
| "wf_cip19 (Reward n s) = (n \<le> 15 \<and> wf_cred s)"

lemma cip19_type_nibble [simp]: "cip19_type a \<le> 15"
  by (cases a) simp_all

lemma wf_network: "wf_cip19 a \<Longrightarrow> cip19_network a \<le> 15"
  by (cases a) simp_all

lemma cip19_header_type [simp]: "wf_cip19 a \<Longrightarrow> drop_bit 4 (cip19_header a) = cip19_type a"
  by (simp add: cip19_header_def wf_network)

lemma cip19_header_network [simp]: "wf_cip19 a \<Longrightarrow> cip19_header a AND 15 = cip19_network a"
  by (simp add: cip19_header_def wf_network)

lemma length_cip19_encode:
  "wf_cip19 a \<Longrightarrow> length (cip19_encode a) = (case a of Base _ _ _ \<Rightarrow> 57 | _ \<Rightarrow> 29)"
  by (cases a) (simp_all add: cip19_encode_def wf_cred_def)

lemma cred_eqI: "cred_hash c = cred_hash d \<Longrightarrow> is_script c = is_script d \<Longrightarrow> c = d"
  by (cases c; cases d) simp_all

text \<open>A CIP-19 address has exactly one byte form: two well-formed addresses with equal
  encodings are equal, so a decoder that inverts the encoding is unambiguous.\<close>

lemma cip19_encode_inj:
  assumes "wf_cip19 a" "wf_cip19 b" "cip19_encode a = cip19_encode b"
  shows "a = b"
proof -
  have header: "cip19_header a = cip19_header b" and payload: "cip19_payload a = cip19_payload b"
    using assms(3) by (simp_all add: cip19_encode_def)
  have ty: "cip19_type a = cip19_type b" and net: "cip19_network a = cip19_network b"
    using header assms(1,2) by (metis cip19_header_type, metis cip19_header_network)
  show ?thesis
    using ty net payload assms(1,2)
    by (cases a; cases b) (auto simp: wf_cred_def intro: cred_eqI split: if_splits)
qed

end
