(* ===== verification/Address.thy ===== *)
theory Address
  imports Cip19
begin

unbundle bit_operations_syntax

text \<open>
  Package \<^verbatim>\<open>internal/address\<close>: decoding of CIP-19 addresses from raw bytes
  (\<open>address_Parse\<close>) and from bech32 or hex text (\<open>Decode\<close>).

  The definitions follow \<^verbatim>\<open>address.go\<close> operation by operation; the three
  \<open>fill\<close> methods, which mutate the receiver, return the updated record.  The bech32 codec
  (\<^verbatim>\<open>github.com/btcsuite/btcd/btcutil/bech32\<close>) is not part of the repository: it
  is the record \<open>bech32_lib\<close> of its two functions.  The main results: the raw parser is the
  exact inverse of the canonical encoding of \<open>Cip19\<close>, it never panics, and the checks on
  the textual form are those the prefix promises.
\<close>

section \<open>Types and constants\<close>

definition address_Testnet :: u8 where "address_Testnet = 0"
definition address_Mainnet :: u8 where "address_Mainnet = 1"

definition TypeBasePaymentKeyStakeKey :: u8 where "TypeBasePaymentKeyStakeKey = 0"
definition TypeBaseScriptStakeKey :: u8 where "TypeBaseScriptStakeKey = 1"
definition TypeBasePaymentKeyScript :: u8 where "TypeBasePaymentKeyScript = 2"
definition TypeBaseScriptScript :: u8 where "TypeBaseScriptScript = 3"
definition TypePointerKey :: u8 where "TypePointerKey = 4"
definition TypePointerScript :: u8 where "TypePointerScript = 5"
definition TypeEnterpriseKey :: u8 where "TypeEnterpriseKey = 6"
definition TypeEnterpriseScript :: u8 where "TypeEnterpriseScript = 7"
definition TypeByron :: u8 where "TypeByron = 8"
definition TypeRewardKey :: u8 where "TypeRewardKey = 14"
definition TypeRewardScript :: u8 where "TypeRewardScript = 15"

definition hashSize :: nat where "hashSize = 28"
definition headerSize :: nat where "headerSize = 1"
definition paymentLen :: nat where "paymentLen = headerSize + hashSize"
definition baseLen :: nat where "baseLen = headerSize + 2 * hashSize"

definition typeShift :: nat where "typeShift = 4"
definition networkMask :: u8 where "networkMask = 15"

definition bech32BitsFrom :: u8 where "bech32BitsFrom = 5"
definition bech32BitsTo :: u8 where "bech32BitsTo = 8"

definition hrpMainnetPayment :: string where "hrpMainnetPayment = ''addr''"
definition hrpTestnetPayment :: string where "hrpTestnetPayment = ''addr_test''"
definition hrpMainnetStake :: string where "hrpMainnetStake = ''stake''"
definition hrpTestnetStake :: string where "hrpTestnetStake = ''stake_test''"

named_theorems address_consts "the constants of package address"

lemmas address_type_consts [address_consts] =
  TypeBasePaymentKeyStakeKey_def TypeBaseScriptStakeKey_def TypeBasePaymentKeyScript_def
  TypeBaseScriptScript_def TypePointerKey_def TypePointerScript_def TypeEnterpriseKey_def
  TypeEnterpriseScript_def TypeByron_def TypeRewardKey_def TypeRewardScript_def

lemmas address_size_consts [address_consts] =
  hashSize_def headerSize_def paymentLen_def baseLen_def typeShift_def networkMask_def

lemmas address_text_consts [address_consts] =
  bech32BitsFrom_def bech32BitsTo_def hrpMainnetPayment_def hrpTestnetPayment_def
  hrpMainnetStake_def hrpTestnetStake_def address_Testnet_def address_Mainnet_def

record address_Credential =
  Hash :: slice
  IsScript :: bool

record Address =
  Raw :: slice
  Header :: u8
  Network :: u8
  Type :: u8
  Payment :: address_Credential
  Stake :: address_Credential

section \<open>Parsing raw bytes\<close>

definition checkLen :: "slice \<Rightarrow> nat \<Rightarrow> unit go" where
  "checkLen raw want =
     (if len raw < want then
        Err (Errorf ''%w: address has %d bytes, want %d''
          [ArgErr (address_error ErrTooShort), ArgInt (int (len raw)), ArgInt (int want)])
      else if len raw > want then
        Err (Errorf ''%w: address has %d bytes, want %d''
          [ArgErr (address_error ErrTrailingBytes), ArgInt (int (len raw)), ArgInt (int want)])
      else Ok ())"

definition paymentIsScript :: "u8 \<Rightarrow> bool" where
  "paymentIsScript t = (t mod 2 = 1)"

definition baseStakeIsScript :: "u8 \<Rightarrow> bool" where
  "baseStakeIsScript t = (t = TypeBasePaymentKeyScript \<or> t = TypeBaseScriptScript)"

definition fillBase :: "Address \<Rightarrow> Address go" where
  "fillBase a =
     obind (checkLen (Raw a) baseLen) (\<lambda>_.
     obind (subslice (Raw a) headerSize paymentLen) (\<lambda>payment.
     obind (subslice (Raw a) paymentLen baseLen) (\<lambda>stake.
     Ok (a\<lparr>Payment := \<lparr>Hash = payment, IsScript = paymentIsScript (Type a)\<rparr>,
           Stake := \<lparr>Hash = stake, IsScript = baseStakeIsScript (Type a)\<rparr>\<rparr>))))"

definition fillEnterprise :: "Address \<Rightarrow> Address go" where
  "fillEnterprise a =
     obind (checkLen (Raw a) paymentLen) (\<lambda>_.
     obind (subslice (Raw a) headerSize paymentLen) (\<lambda>payment.
     Ok (a\<lparr>Payment := \<lparr>Hash = payment, IsScript = paymentIsScript (Type a)\<rparr>\<rparr>)))"

definition fillReward :: "Address \<Rightarrow> Address go" where
  "fillReward a =
     obind (checkLen (Raw a) paymentLen) (\<lambda>_.
     obind (subslice (Raw a) headerSize paymentLen) (\<lambda>stake.
     Ok (a\<lparr>Stake := \<lparr>Hash = stake, IsScript = (Type a = TypeRewardScript)\<rparr>\<rparr>)))"

definition address_Parse :: "slice \<Rightarrow> Address go" where
  "address_Parse raw =
     (if len raw < headerSize then
        Err (Errorf ''%w: empty raw address'' [ArgErr (address_error ErrTooShort)])
      else obind (index (content raw) 0) (\<lambda>header.
        let addrType = drop_bit typeShift header;
            network = header AND networkMask;
            addr = \<lparr>Raw = raw, Header = header, Network = network, Type = addrType,
                    Payment = \<lparr>Hash = None, IsScript = False\<rparr>,
                    Stake = \<lparr>Hash = None, IsScript = False\<rparr>\<rparr>
        in
        if addrType = TypeBasePaymentKeyStakeKey \<or> addrType = TypeBaseScriptStakeKey \<or>
           addrType = TypeBasePaymentKeyScript \<or> addrType = TypeBaseScriptScript
        then fillBase addr
        else if addrType = TypeEnterpriseKey \<or> addrType = TypeEnterpriseScript
        then fillEnterprise addr
        else if addrType = TypeRewardKey \<or> addrType = TypeRewardScript
        then fillReward addr
        else if addrType = TypePointerKey \<or> addrType = TypePointerScript
        then Err (Errorf ''%w: pointer (type %d)''
               [ArgErr (address_error ErrUnsupportedType), ArgInt (uint addrType)])
        else if addrType = TypeByron
        then Err (Errorf ''%w: Byron (type 8)'' [ArgErr (address_error ErrUnsupportedType)])
        else Err (Errorf ''%w: type %d''
               [ArgErr (address_error ErrUnsupportedType), ArgInt (uint addrType)])))"

section \<open>Decoding text\<close>

text \<open>
  The bech32 library: \<open>DecodeNoLimit\<close> splits a string into its prefix and 5-bit groups, and
  \<open>ConvertBits\<close> regroups bits; an error carries its text.
\<close>

record bech32_lib =
  bech32_DecodeNoLimit :: "string \<Rightarrow> string + (string \<times> bytes)"
  bech32_ConvertBits :: "bytes \<Rightarrow> u8 \<Rightarrow> u8 \<Rightarrow> bool \<Rightarrow> string + slice"

definition decodeBech32 :: "bech32_lib \<Rightarrow> string \<Rightarrow> (string \<times> slice) go" where
  "decodeBech32 B addr =
     obind (of_sum (\<lambda>e. wrap (address_error ErrInvalidBech32) (LibError e))
              (bech32_DecodeNoLimit B addr)) (\<lambda>(hrp, data).
     obind (of_sum (\<lambda>e. wrap (address_error ErrInvalidBech32) (LibError e))
              (bech32_ConvertBits B data bech32BitsFrom bech32BitsTo False)) (\<lambda>raw.
     Ok (hrp, raw)))"

definition address_isReward :: "u8 \<Rightarrow> bool" where
  "address_isReward t = (t = TypeRewardKey \<or> t = TypeRewardScript)"

definition checkHRP :: "string \<Rightarrow> Address \<Rightarrow> unit go" where
  "checkHRP hrp addr =
     (let expect = \<lambda>want wantReward.
        if want \<noteq> Network addr then
          Err (Errorf ''%w: prefix %q implies network %d, header says %d''
            [ArgErr (address_error ErrNetworkMismatch), ArgStr hrp,
             ArgInt (uint want), ArgInt (uint (Network addr))])
        else if wantReward \<noteq> address_isReward (Type addr) then
          Err (Errorf ''%w: prefix %q incompatible with address type %d''
            [ArgErr (address_error ErrHRPMismatch), ArgStr hrp, ArgInt (uint (Type addr))])
        else Ok ()
      in
      if hrp = hrpMainnetPayment then expect address_Mainnet False
      else if hrp = hrpTestnetPayment then expect address_Testnet False
      else if hrp = hrpMainnetStake then expect address_Mainnet True
      else if hrp = hrpTestnetStake then expect address_Testnet True
      else Err (Errorf ''%w: unsupported bech32 prefix %q''
             [ArgErr (address_error ErrInvalidBech32), ArgStr hrp]))"

definition Decode :: "bech32_lib \<Rightarrow> string \<Rightarrow> Address go" where
  "Decode B addr =
     (if addr = '''' then Err (address_error ErrEmpty)
      else case decodeBech32 B addr of
        Ok (hrp, raw) \<Rightarrow>
          obind (address_Parse raw) (\<lambda>parsed.
          obind (checkHRP hrp parsed) (\<lambda>_. Ok parsed))
      | Err bech32Err \<Rightarrow>
          (case hex_DecodeString addr of
             Ok raw \<Rightarrow> address_Parse raw
           | Err hexErr \<Rightarrow> Err (wrap (address_error ErrInvalidBech32) bech32Err)
           | Panic p \<Rightarrow> Panic p)
      | Panic p \<Rightarrow> Panic p)"

section \<open>The parser inverts the canonical encoding\<close>

definition no_cred :: address_Credential where
  "no_cred = \<lparr>Hash = None, IsScript = False\<rparr>"

definition of_cred :: "credential \<Rightarrow> address_Credential" where
  "of_cred c = \<lparr>Hash = Some (cred_hash c), IsScript = is_script c\<rparr>"

primrec payment_of :: "cip19 \<Rightarrow> address_Credential" where
  "payment_of (Base n p s) = of_cred p"
| "payment_of (Enterprise n p) = of_cred p"
| "payment_of (Reward n s) = no_cred"

primrec stake_of :: "cip19 \<Rightarrow> address_Credential" where
  "stake_of (Base n p s) = of_cred s"
| "stake_of (Enterprise n p) = no_cred"
| "stake_of (Reward n s) = of_cred s"

text \<open>The record the decoder builds for an abstract address.\<close>

definition of_cip19 :: "cip19 \<Rightarrow> Address" where
  "of_cip19 a = \<lparr>Raw = Some (cip19_encode a), Header = cip19_header a,
     Network = cip19_network a, Type = cip19_type a,
     Payment = payment_of a, Stake = stake_of a\<rparr>"

lemma of_cip19_simps [simp]:
  "Raw (of_cip19 a) = Some (cip19_encode a)" "Header (of_cip19 a) = cip19_header a"
  "Network (of_cip19 a) = cip19_network a" "Type (of_cip19 a) = cip19_type a"
  "Payment (of_cip19 a) = payment_of a" "Stake (of_cip19 a) = stake_of a"
  by (simp_all add: of_cip19_def)

lemma checkLen_Ok [simp]: "checkLen raw n = Ok u \<longleftrightarrow> len raw = n"
  by (auto simp: checkLen_def)

lemma checkLen_eq [simp]: "len raw = n \<Longrightarrow> checkLen raw n = Ok ()"
  by simp

lemma checkLen_no_panic [simp]: "no_panic (checkLen raw n)"
  by (simp add: checkLen_def)

lemmas fill_defs = fillBase_def fillEnterprise_def fillReward_def

text \<open>
  The parser on a non-empty input, with the constants and the slicing evaluated: one equation
  per group of types.
\<close>

definition raw_address ::
  "u8 \<Rightarrow> bytes \<Rightarrow> address_Credential \<Rightarrow> address_Credential \<Rightarrow> Address" where
  "raw_address h p payment stake = \<lparr>Raw = Some (h # p), Header = h, Network = h AND 15,
     Type = drop_bit 4 h, Payment = payment, Stake = stake\<rparr>"

lemma le_3_cases: "(t :: u8) \<le> 3 \<longleftrightarrow> t = 0 \<or> t = 1 \<or> t = 2 \<or> t = 3"
  by unat_arith

lemma address_Parse_base:
  assumes "drop_bit 4 h \<le> (3 :: u8)"
  shows "address_Parse (Some (h # p)) = obind (checkLen (Some (h # p)) 57) (\<lambda>_.
    Ok (raw_address h p (of_cred (make_cred (drop_bit 4 h mod 2 = 1) (take 28 p)))
      (of_cred (make_cred (drop_bit 4 h = 2 \<or> drop_bit 4 h = 3) (drop 28 p)))))"
  using assms unfolding le_3_cases
  by (auto simp: address_Parse_def index_def Let_def address_consts fillBase_def raw_address_def
      subslice_def of_cred_def paymentIsScript_def baseStakeIsScript_def checkLen_def)

lemma address_Parse_enterprise:
  assumes "drop_bit 4 h = 6 \<or> drop_bit 4 h = (7 :: u8)"
  shows "address_Parse (Some (h # p)) = obind (checkLen (Some (h # p)) 29) (\<lambda>_.
    Ok (raw_address h p (of_cred (make_cred (drop_bit 4 h = 7) p)) no_cred))"
  using assms
  by (auto simp: address_Parse_def index_def Let_def address_consts fillEnterprise_def raw_address_def
      subslice_def of_cred_def no_cred_def paymentIsScript_def checkLen_def)

lemma address_Parse_reward:
  assumes "drop_bit 4 h = 14 \<or> drop_bit 4 h = (15 :: u8)"
  shows "address_Parse (Some (h # p)) = obind (checkLen (Some (h # p)) 29) (\<lambda>_.
    Ok (raw_address h p no_cred (of_cred (make_cred (drop_bit 4 h = 15) p))))"
  using assms
  by (auto simp: address_Parse_def index_def Let_def address_consts fillReward_def raw_address_def
      subslice_def of_cred_def no_cred_def checkLen_def)

text \<open>The canonical length of a type, and \<open>None\<close> for the types the decoder refuses.\<close>

definition canonical_len :: "u8 \<Rightarrow> nat option" where
  "canonical_len t =
     (if t \<le> 3 then Some 57
      else if t = 6 \<or> t = 7 \<or> t = 14 \<or> t = 15 then Some 29 else None)"

lemma address_Parse_unsupported:
  assumes "canonical_len (drop_bit 4 h) = None"
  shows "fails_with (address_Parse (Some (h # p))) {AddressE ErrUnsupportedType}"
  using assms
  by (auto simp: address_Parse_def index_def Let_def address_consts canonical_len_def le_3_cases
      split: if_splits)

lemma address_Parse_empty:
  "len raw = 0 \<Longrightarrow> fails_with (address_Parse raw) {AddressE ErrTooShort}"
  by (simp add: address_Parse_def address_consts)

lemma canonical_len_cases:
  assumes "canonical_len t = Some n"
  obtains "t \<le> 3" "n = 57" | "t = 6 \<or> t = 7" "n = 29" | "t = 14 \<or> t = 15" "n = 29"
  using assms by (auto simp: canonical_len_def split: if_splits)

lemmas address_Parse_cases =
  address_Parse_base address_Parse_enterprise address_Parse_reward

lemma slice_cases:
  obtains (empty) "len raw = 0" | (cons) h p where "raw = Some (h # p)"
  by (cases raw; cases "content raw") auto

lemma address_Parse_encode:
  assumes "wf_cip19 a"
  shows "address_Parse (Some (cip19_encode a)) = Ok (of_cip19 a)"
  using assms
  by (cases a) (auto simp: cip19_encode_def address_Parse_cases raw_address_def of_cip19_def
      wf_cred_def of_cred_def le_3_cases)

lemma encode_of_header:
  assumes "cip19_type a = drop_bit 4 h" "cip19_network a = h AND 15" "cip19_payload a = p"
  shows "cip19_encode a = h # p" "of_cip19 a = raw_address h p (payment_of a) (stake_of a)"
  using assms by (simp_all add: cip19_encode_def cip19_header_def of_cip19_def raw_address_def)

lemma address_Parse_complete:
  assumes "address_Parse raw = Ok x"
  shows "\<exists>a. wf_cip19 a \<and> raw = Some (cip19_encode a) \<and> x = of_cip19 a"
proof (cases raw rule: slice_cases)
  case empty
  with assms show ?thesis
    using address_Parse_empty [of raw] by simp
next
  case (cons h p)
  with assms obtain n where n: "canonical_len (drop_bit 4 h) = Some n"
    using address_Parse_unsupported [of h p] by (cases "canonical_len (drop_bit 4 h)") auto
  then show ?thesis
  proof (cases rule: canonical_len_cases)
    case 1
    let ?a = "Base (h AND 15) (make_cred (drop_bit 4 h mod 2 = 1) (take 28 p))
      (make_cred (drop_bit 4 h = 2 \<or> drop_bit 4 h = 3) (drop 28 p))"
    have "length p = 56"
      using assms cons 1 by (simp add: address_Parse_base outcome_simps)
    moreover have "cip19_type ?a = drop_bit 4 h"
      using 1(1) by (auto simp: le_3_cases)
    moreover have "x = raw_address h p (payment_of ?a) (stake_of ?a)"
      using assms cons 1 by (simp add: address_Parse_base outcome_simps)
    ultimately show ?thesis
      using cons encode_of_header [of ?a h p]
      by (intro exI [of _ ?a]) (simp add: wf_cred_def and_nibble_le)
  next
    case 2
    let ?a = "Enterprise (h AND 15) (make_cred (drop_bit 4 h = 7) p)"
    have "length p = 28" "x = raw_address h p (payment_of ?a) (stake_of ?a)"
      using assms cons 2 by (auto simp: address_Parse_enterprise outcome_simps)
    moreover have "cip19_type ?a = drop_bit 4 h"
      using 2(1) by auto
    ultimately show ?thesis
      using cons encode_of_header [of ?a h p]
      by (intro exI [of _ ?a]) (simp add: wf_cred_def and_nibble_le)
  next
    case 3
    let ?a = "Reward (h AND 15) (make_cred (drop_bit 4 h = 15) p)"
    have "length p = 28" "x = raw_address h p (payment_of ?a) (stake_of ?a)"
      using assms cons 3 by (auto simp: address_Parse_reward outcome_simps)
    moreover have "cip19_type ?a = drop_bit 4 h"
      using 3(1) by auto
    ultimately show ?thesis
      using cons encode_of_header [of ?a h p]
      by (intro exI [of _ ?a]) (simp add: wf_cred_def and_nibble_le)
  qed
qed

lemma address_Parse_eq_Ok:
  "address_Parse raw = Ok x \<longleftrightarrow>
     (\<exists>a. wf_cip19 a \<and> raw = Some (cip19_encode a) \<and> x = of_cip19 a)"
  using address_Parse_complete address_Parse_encode by blast

text \<open>C8. Round trip: the raw parser succeeds exactly on the canonical encodings of CIP-19 base,
  enterprise and reward addresses, and returns their header fields and credentials.\<close>

theorem address_Parse_Ok_iff:
  "address_Parse raw = Ok x \<longleftrightarrow>
     (\<exists>a. wf_cip19 a \<and> raw = Some (cip19_encode a) \<and> x = of_cip19 a)"
  by (rule address_Parse_eq_Ok)

lemma address_Parse_of_cip19:
  assumes "wf_cip19 a"
  shows "address_Parse raw = Ok (of_cip19 a) \<longleftrightarrow> raw = Some (cip19_encode a)"
proof
  assume "address_Parse raw = Ok (of_cip19 a)"
  then obtain b where b: "raw = Some (cip19_encode b)" "of_cip19 a = of_cip19 b"
    using address_Parse_complete by blast
  from b(2) have "Raw (of_cip19 a) = Raw (of_cip19 b)"
    by (rule arg_cong)
  with b(1) show "raw = Some (cip19_encode a)"
    by simp
qed (simp add: address_Parse_encode [OF assms])

text \<open>C22. Addresses are not malleable: two byte strings that decode to the same network, payment and
  stake credentials are the same byte string, so no padding or second form of an address passes
  for it.\<close>

theorem address_Parse_not_malleable:
  assumes "address_Parse raw = Ok x" "address_Parse raw' = Ok y"
    and "Network x = Network y" "Payment x = Payment y" "Stake x = Stake y"
  shows "raw = raw' \<and> x = y"
proof -
  obtain a b where ab: "wf_cip19 a" "raw = Some (cip19_encode a)" "x = of_cip19 a"
      "wf_cip19 b" "raw' = Some (cip19_encode b)" "y = of_cip19 b"
    using address_Parse_complete [OF assms(1)] address_Parse_complete [OF assms(2)] by blast
  have cred: "of_cred c = of_cred d \<Longrightarrow> c = d" "of_cred c \<noteq> no_cred" "no_cred \<noteq> of_cred c" for c d
    by (auto simp: of_cred_def no_cred_def intro: cred_eqI)
  have "a = b"
    using assms(3-5) cred unfolding ab by (cases a; cases b) simp_all
  then show ?thesis
    using ab by simp
qed

theorem address_Parse_not_malleable_witness:
  "Some (cip19_encode (Enterprise 1 (KeyHash (replicate 28 7)))) =
     Some (make_header 6 1 # replicate 28 7)"
proof -
  let ?a = "Enterprise 1 (KeyHash (replicate 28 7))"
  have "wf_cip19 ?a"
    by (simp add: wf_cred_def)
  then have "address_Parse (Some (cip19_encode ?a)) = Ok (of_cip19 ?a)"
    by (rule address_Parse_encode)
  moreover from this have "address_Parse (Some (make_header 6 1 # replicate 28 7)) = Ok (of_cip19 ?a)"
    by (simp add: cip19_encode_def cip19_header_def)
  ultimately show ?thesis
    by (rule address_Parse_not_malleable [THEN conjunct1]) (rule refl)+
qed

section \<open>Rejected input\<close>

text \<open>A reference classification of raw input: \<open>None\<close> for the canonical shapes.\<close>

fun parse_class :: "bytes \<Rightarrow> address_err option" where
  "parse_class [] = Some ErrTooShort"
| "parse_class (h # p) =
     (case canonical_len (drop_bit 4 h) of
        None \<Rightarrow> Some ErrUnsupportedType
      | Some n \<Rightarrow> if Suc (length p) < n then Some ErrTooShort
                  else if Suc (length p) > n then Some ErrTrailingBytes else None)"

lemma checkLen_class:
  "len raw < n \<Longrightarrow> fails_with (checkLen raw n) {AddressE ErrTooShort}"
  "len raw > n \<Longrightarrow> fails_with (checkLen raw n) {AddressE ErrTrailingBytes}"
  by (simp_all add: checkLen_def)

lemma address_Parse_checkLen:
  assumes "canonical_len (drop_bit 4 h) = Some n"
  obtains a where "address_Parse (Some (h # p)) = obind (checkLen (Some (h # p)) n) (\<lambda>_. Ok a)"
  using assms by (cases rule: canonical_len_cases) (auto simp: address_Parse_cases)

lemma address_Parse_classified:
  "case parse_class (content raw) of
     None \<Rightarrow> \<exists>a. address_Parse raw = Ok a
   | Some e \<Rightarrow> fails_with (address_Parse raw) {AddressE e}"
proof (cases raw rule: slice_cases)
  case empty
  then show ?thesis
    using address_Parse_empty [of raw] by (simp add: len_eq_0)
next
  case (cons h p)
  show ?thesis
  proof (cases "canonical_len (drop_bit 4 h)")
    case None
    then show ?thesis
      using cons address_Parse_unsupported [of h p] by simp
  next
    case (Some n)
    obtain a where "address_Parse raw = obind (checkLen raw n) (\<lambda>_. Ok a)"
      unfolding cons using Some by (rule address_Parse_checkLen)
    then show ?thesis
      using cons Some by (auto simp: checkLen_class fails_with_obind)
  qed
qed

text \<open>C21. Raw input is never a panic and is classified exactly: an empty or truncated address is
  too short, a padded one has trailing bytes, pointer, Byron and undefined types are unsupported,
  and everything else decodes.\<close>

theorem address_Parse_class:
  "case parse_class (content raw) of
     None \<Rightarrow> \<exists>a. address_Parse raw = Ok a
   | Some e \<Rightarrow> fails_with (address_Parse raw) {AddressE e}"
  by (rule address_Parse_classified)

lemma address_Parse_fails:
  assumes "\<And>a. address_Parse raw \<noteq> Ok a"
  shows "\<exists>e. fails_with (address_Parse raw) {AddressE e}"
  using assms address_Parse_classified [of raw] by (auto split: option.splits)

lemma address_Parse_no_panic: "no_panic (address_Parse raw)"
  using address_Parse_fails [of raw] by (cases "address_Parse raw") auto

section \<open>The decoder interface\<close>

lemma canonical_len_encode:
  "wf_cip19 a \<Longrightarrow> canonical_len (cip19_type a) = Some (length (cip19_encode a))"
  by (cases a) (auto simp: length_cip19_encode canonical_len_def split: if_splits)

lemma wf_cip19_cases:
  assumes "wf_cip19 a"
  obtains (base) n p s where "a = Base n p s" "n \<le> 15" "wf_cred p" "wf_cred s"
    | (enterprise) n p where "a = Enterprise n p" "n \<le> 15" "wf_cred p"
    | (reward) n s where "a = Reward n s" "n \<le> 15" "wf_cred s"
  using assms by (cases a) auto

text \<open>
  What the matching policy needs of whatever produced an address: it is canonical, and a failure
  is an error of this package.  Both entry points satisfy it.
\<close>

locale address_source =
  fixes parse :: "'r \<Rightarrow> Address go"
  assumes canonical: "parse r = Ok x \<Longrightarrow> \<exists>a. wf_cip19 a \<and> x = of_cip19 a"
    and parse_no_panic: "no_panic (parse r)"
    and typed_error: "parse r = Err e \<Longrightarrow> \<exists>s. set (sentinels e) = {AddressE s}"
begin

lemma hash_lengths:
  assumes "parse r = Ok x"
  shows "Hash (Payment x) = None \<or> len (Hash (Payment x)) = 28"
    and "Hash (Stake x) = None \<or> len (Hash (Stake x)) = 28"
  using canonical [OF assms]
  by (auto simp: wf_cred_def of_cred_def no_cred_def elim!: wf_cip19_cases)

lemma some_hash:
  assumes "parse r = Ok x"
  shows "Hash (Payment x) \<noteq> None \<or> Hash (Stake x) \<noteq> None"
  using canonical [OF assms] by (auto simp: of_cred_def no_cred_def elim!: wf_cip19_cases)

lemma supported_type:
  assumes "parse r = Ok x"
  shows "canonical_len (Type x) = Some (len (Raw x))"
  using canonical [OF assms] by (auto simp: canonical_len_encode)

lemma network_nibble: "parse r = Ok x \<Longrightarrow> Network x \<le> 15"
  using canonical wf_network by fastforce

lemma rejects: "(\<And>x. parse r \<noteq> Ok x) \<Longrightarrow> \<exists>s. fails_with (parse r) {AddressE s}"
  using parse_no_panic [of r] typed_error [of r] by (cases "parse r") auto

end

interpretation raw: address_source address_Parse
proof
  show "\<exists>a. wf_cip19 a \<and> x = of_cip19 a" if "address_Parse r = Ok x" for r x
    using address_Parse_complete [OF that] by blast
  show "no_panic (address_Parse r)" for r
    by (rule address_Parse_no_panic)
  show "\<exists>s. set (sentinels e) = {AddressE s}" if "address_Parse r = Err e" for r e
    using address_Parse_fails [of r] that by simp
qed

section \<open>Textual addresses\<close>

lemma decodeBech32_no_panic: "no_panic (decodeBech32 B s)"
  by (auto simp: decodeBech32_def intro!: no_panic_intros split: prod.splits)

lemma decodeBech32_fails:
  "decodeBech32 B s = Err e \<Longrightarrow> set (sentinels e) = {AddressE ErrInvalidBech32}"
  by (auto simp: decodeBech32_def outcome_simps split: prod.splits)

text \<open>The prefix CIP-5 prescribes for an address; none for a reserved network.\<close>

definition cip5_prefix :: "cip19 \<Rightarrow> string option" where
  "cip5_prefix a =
     (let reward = (case a of Reward _ _ \<Rightarrow> True | _ \<Rightarrow> False) in
      if cip19_network a = 1 then Some (if reward then ''stake'' else ''addr'')
      else if cip19_network a = 0 then Some (if reward then ''stake_test'' else ''addr_test'')
      else None)"

lemma isReward_of_cip19:
  "address_isReward (cip19_type a) \<longleftrightarrow> (case a of Reward _ _ \<Rightarrow> True | _ \<Rightarrow> False)"
  by (cases a) (auto simp: address_isReward_def address_consts)

lemma checkHRP_Ok: "checkHRP hrp (of_cip19 a) = Ok u \<longleftrightarrow> cip5_prefix a = Some hrp"
  by (auto simp: checkHRP_def cip5_prefix_def Let_def address_consts isReward_of_cip19)

lemma checkHRP_no_panic: "no_panic (checkHRP hrp x)"
  by (simp add: checkHRP_def Let_def)

lemma checkHRP_fails:
  "checkHRP hrp x = Err e \<Longrightarrow>
     \<exists>s \<in> {ErrInvalidBech32, ErrNetworkMismatch, ErrHRPMismatch}. set (sentinels e) = {AddressE s}"
  by (auto simp: checkHRP_def Let_def split: if_splits)

lemma Decode_bech32:
  assumes "s \<noteq> ''''" "decodeBech32 B s = Ok (hrp, raw)"
  shows "Decode B s = obind (address_Parse raw) (\<lambda>x. obind (checkHRP hrp x) (\<lambda>_. Ok x))"
  using assms by (simp add: Decode_def)

lemma Decode_hex:
  assumes "s \<noteq> ''''" "decodeBech32 B s = Err e" "hex_DecodeString s = Ok raw"
  shows "Decode B s = address_Parse raw"
  using assms by (simp add: Decode_def)

lemma Decode_neither:
  assumes "s \<noteq> ''''" "decodeBech32 B s = Err e" "hex_DecodeString s = Err d"
  shows "fails_with (Decode B s) {AddressE ErrInvalidBech32}"
  using assms by (simp add: Decode_def decodeBech32_fails)

lemma Decode_cases:
  obtains (empty) "s = ''''"
  | (bech32) hrp raw where "s \<noteq> ''''" "decodeBech32 B s = Ok (hrp, raw)"
  | (hex) e raw where "s \<noteq> ''''" "decodeBech32 B s = Err e" "hex_DecodeString s = Ok raw"
  | (neither) e d where "s \<noteq> ''''" "decodeBech32 B s = Err e" "hex_DecodeString s = Err d"
proof (cases "s = ''''")
  case False
  then show ?thesis
    using that decodeBech32_no_panic [of B s] hex_DecodeString_no_panic [of s]
    by (cases "decodeBech32 B s"; cases "hex_DecodeString s") auto
qed (rule that(1))

lemma Decode_eq_Ok:
  "Decode B s = Ok x \<longleftrightarrow> s \<noteq> '''' \<and> (\<exists>a. wf_cip19 a \<and> x = of_cip19 a \<and>
     ((\<exists>hrp. decodeBech32 B s = Ok (hrp, Some (cip19_encode a)) \<and> cip5_prefix a = Some hrp) \<or>
      ((\<exists>e. decodeBech32 B s = Err e) \<and> hex_DecodeString s = Ok (Some (cip19_encode a)))))"
proof (cases rule: Decode_cases [where s = s and B = B])
  case empty
  then show ?thesis
    by (simp add: Decode_def)
next
  case (bech32 hrp raw)
  then show ?thesis
    using address_Parse_complete [of raw] address_Parse_encode
    by (fastforce simp: Decode_bech32 outcome_simps checkHRP_Ok)
next
  case (hex e raw)
  then show ?thesis
    using address_Parse_complete [of raw x] address_Parse_encode
    by (auto simp: Decode_hex)
next
  case (neither e d)
  then show ?thesis
    using Decode_neither [of s B e d] by auto
qed

text \<open>C7. A textual address is accepted exactly in two ways: it is bech32, its bytes are a
  canonical address, and its prefix is the one CIP-5 prescribes for that address's network and
  class; or it is not bech32 and is the hex of a canonical address.\<close>

theorem Decode_Ok_iff:
  "Decode B s = Ok x \<longleftrightarrow> s \<noteq> '''' \<and> (\<exists>a. wf_cip19 a \<and> x = of_cip19 a \<and>
     ((\<exists>hrp. decodeBech32 B s = Ok (hrp, Some (cip19_encode a)) \<and> cip5_prefix a = Some hrp) \<or>
      ((\<exists>e. decodeBech32 B s = Err e) \<and> hex_DecodeString s = Ok (Some (cip19_encode a)))))"
  by (rule Decode_eq_Ok)

lemma Decode_result:
  "(\<exists>x. Decode B s = Ok x) \<or> (\<exists>e. fails_with (Decode B s) {AddressE e})"
proof (cases rule: Decode_cases [where s = s and B = B])
  case empty
  then show ?thesis
    by (auto simp: Decode_def)
next
  case (bech32 hrp raw)
  show ?thesis
  proof (cases "address_Parse raw")
    case (Ok x)
    then show ?thesis
      using bech32 checkHRP_no_panic [of hrp x] checkHRP_fails [of hrp x]
      by (cases "checkHRP hrp x") (auto simp: Decode_bech32)
  next
    case (Err e)
    then show ?thesis
      using bech32 raw.typed_error [of raw e] by (auto simp: Decode_bech32)
  qed (use raw.parse_no_panic [of raw] in auto)
next
  case (hex e raw)
  then show ?thesis
    using raw.rejects [of raw] by (auto simp: Decode_hex)
next
  case (neither e d)
  then show ?thesis
    using Decode_neither [of s B e d] by blast
qed

text \<open>C35. Decoding text never panics, and every failure is recognised by \<open>errors.Is\<close> as
  exactly one sentinel of the package.\<close>

theorem Decode_total:
  "(\<exists>x. Decode B s = Ok x) \<or> (\<exists>e. fails_with (Decode B s) {AddressE e})"
  by (rule Decode_result)

lemma Decode_fails: "(\<And>x. Decode B s \<noteq> Ok x) \<Longrightarrow> \<exists>e. fails_with (Decode B s) {AddressE e}"
  using Decode_result [of B s] by blast

interpretation textual: address_source "Decode B" for B
proof
  show "\<exists>a. wf_cip19 a \<and> x = of_cip19 a" if "Decode B r = Ok x" for r x
    using that unfolding Decode_eq_Ok by blast
  show "no_panic (Decode B r)" for r
    using Decode_result [of B r] by (cases "Decode B r") (simp_all add: fails_with_iff)
  show "\<exists>s. set (sentinels e) = {AddressE s}" if "Decode B r = Err e" for r e
    using Decode_result [of B r] unfolding that by (simp add: fails_with_iff)
qed

end
