(* ===== verification/Samples.thy ===== *)
theory Samples
  imports Address
begin

text \<open>
  Concrete inputs for the closed instances of the properties: a bech32 codec that accepts
  nothing, so that text is read as hex, and addresses in raw and hex form.
\<close>

definition no_bech32 :: bech32_lib where
  "no_bech32 = \<lparr>bech32_DecodeNoLimit = (\<lambda>s. Inl ''invalid separator index''),
     bech32_ConvertBits = (\<lambda>d from to pad. Inl ''invalid bit groups'')\<rparr>"

definition key_a :: bytes where "key_a = replicate 28 7"
definition key_b :: bytes where "key_b = replicate 28 9"

text \<open>A mainnet base address that pays \<open>key_b\<close> and delegates to \<open>key_a\<close>.\<close>

definition base_ba :: cip19 where "base_ba = Base 1 (KeyHash key_b) (KeyHash key_a)"

definition enterprise_a :: cip19 where "enterprise_a = Enterprise 1 (KeyHash key_a)"

lemma wf_samples [simp]: "wf_cip19 base_ba" "wf_cip19 enterprise_a"
  by (simp_all add: base_ba_def enterprise_a_def wf_cred_def key_a_def key_b_def)

lemma keys_distinct [simp]: "key_a \<noteq> key_b" "key_b \<noteq> key_a"
  by (simp_all add: key_a_def key_b_def)

definition hex_of :: "cip19 \<Rightarrow> string" where
  "hex_of a = hex_EncodeToString (cip19_encode a)"

lemma decode_no_bech32: "\<exists>e. decodeBech32 no_bech32 s = Err e"
  by (simp add: decodeBech32_def no_bech32_def)

lemma hex_of_nonempty: "hex_of a \<noteq> ''''"
  by (simp add: hex_of_def hex_EncodeToString_def cip19_encode_def)

lemma Decode_hex_of: "wf_cip19 a \<Longrightarrow> Decode no_bech32 (hex_of a) = Ok (of_cip19 a)"
  using decode_no_bech32 hex_of_nonempty [of a]
  by (auto simp: Decode_eq_Ok hex_of_def)

end
