(* ===== verification/Match.thy ===== *)
theory Match
  imports Samples
begin

text \<open>
  The matching policy of \<^verbatim>\<open>address.go\<close>: which credential of a decoded address a
  key hash satisfies, and whether that counts under the default or the strict policy.

  The four \<open>uint8\<close> enumerations keep their width, so that the default branches of their
  \<open>String\<close> methods are part of the model.  \<open>controls\<close> and \<open>accepts\<close> are the policy
  over the abstract addresses of \<open>Cip19\<close>; \<open>matchAddress_of_cip19\<close> says the code computes
  them, and the security statements follow, for every decoder, inside the \<open>address_source\<close>
  interface.
\<close>

section \<open>The exported enumerations\<close>

type_synonym Credential = u8
type_synonym AddressSource = u8
type_synonym AddressType = u8
type_synonym Network = u8

definition CredentialNone :: Credential where "CredentialNone = 0"
definition CredentialPayment :: Credential where "CredentialPayment = 1"
definition CredentialStake :: Credential where "CredentialStake = 2"

definition AddressSupplied :: AddressSource where "AddressSupplied = 0"
definition AddressEmbedded :: AddressSource where "AddressEmbedded = 1"

definition AddressBase :: AddressType where "AddressBase = 0"
definition AddressPointer :: AddressType where "AddressPointer = 1"
definition AddressEnterprise :: AddressType where "AddressEnterprise = 2"
definition AddressReward :: AddressType where "AddressReward = 3"

definition Testnet :: Network where "Testnet = 0"
definition Mainnet :: Network where "Mainnet = 1"
definition NetworkUnknown :: Network where "NetworkUnknown = 2"

named_theorems match_consts "the exported enumerations"

lemmas enum_consts [match_consts] =
  CredentialNone_def CredentialPayment_def CredentialStake_def AddressSupplied_def
  AddressEmbedded_def AddressBase_def AddressPointer_def AddressEnterprise_def AddressReward_def
  Testnet_def Mainnet_def NetworkUnknown_def

definition Credential_String :: "Credential \<Rightarrow> string" where
  "Credential_String c =
     (if c = CredentialNone then ''None''
      else if c = CredentialPayment then ''Payment''
      else if c = CredentialStake then ''Stake''
      else ''Credential('' @ decimal (unat c) @ '')'')"

definition AddressSource_String :: "AddressSource \<Rightarrow> string" where
  "AddressSource_String s =
     (if s = AddressSupplied then ''Supplied''
      else if s = AddressEmbedded then ''Embedded''
      else ''AddressSource('' @ decimal (unat s) @ '')'')"

definition AddressType_String :: "AddressType \<Rightarrow> string" where
  "AddressType_String t =
     (if t = AddressBase then ''Base''
      else if t = AddressPointer then ''Pointer''
      else if t = AddressEnterprise then ''Enterprise''
      else if t = AddressReward then ''Reward''
      else ''AddressType('' @ decimal (unat t) @ '')'')"

definition Network_String :: "Network \<Rightarrow> string" where
  "Network_String n =
     (if n = Mainnet then ''Mainnet''
      else if n = Testnet then ''Testnet''
      else if n = NetworkUnknown then ''Unknown''
      else ''Network('' @ decimal (unat n) @ '')'')"

section \<open>Check results\<close>

record MessageCheck =
  mc_Matched :: bool
  mc_Hashed :: bool

record AddressCheck =
  ac_Matched :: bool
  ac_MatchedVia :: Credential
  ac_Strict :: bool
  ac_Source :: AddressSource
  ac_Type :: AddressType
  ac_Network :: Network

section \<open>Matching\<close>

definition credentialMatches :: "address_Credential \<Rightarrow> slice \<Rightarrow> bool" where
  "credentialMatches cred keyHash =
     (if Hash cred = None \<or> IsScript cred then False
      else ConstantTimeCompare (content (Hash cred)) (content keyHash) = 1)"

definition isBase :: "u8 \<Rightarrow> bool" where
  "isBase t = (t = TypeBasePaymentKeyStakeKey \<or> t = TypeBaseScriptStakeKey)"

definition isReward :: "u8 \<Rightarrow> bool" where
  "isReward t = (t = TypeRewardKey \<or> t = TypeRewardScript)"

definition addressType :: "u8 \<Rightarrow> AddressType" where
  "addressType t =
     (if t = TypeBasePaymentKeyStakeKey \<or> t = TypeBaseScriptStakeKey \<or>
         t = TypeBasePaymentKeyScript \<or> t = TypeBaseScriptScript then AddressBase
      else if t = TypePointerKey \<or> t = TypePointerScript then AddressPointer
      else if t = TypeEnterpriseKey \<or> t = TypeEnterpriseScript then AddressEnterprise
      else if t = TypeRewardKey \<or> t = TypeRewardScript then AddressReward
      else if t = TypeByron then AddressBase
      else AddressBase)"

definition network :: "u8 \<Rightarrow> Network" where
  "network n =
     (if n = address_Mainnet then Mainnet
      else if n = address_Testnet then Testnet
      else NetworkUnknown)"

definition matchAddress :: "Address \<Rightarrow> slice \<Rightarrow> bool \<Rightarrow> AddressCheck" where
  "matchAddress addr keyHash strict =
     (let check = \<lparr>ac_Matched = False, ac_MatchedVia = CredentialNone, ac_Strict = strict,
        ac_Source = AddressSupplied, ac_Type = addressType (Type addr),
        ac_Network = network (Network addr)\<rparr> in
      if credentialMatches (Payment addr) keyHash
      then check\<lparr>ac_MatchedVia := CredentialPayment, ac_Matched := True\<rparr>
      else if isReward (Type addr) \<and> credentialMatches (Stake addr) keyHash
      then check\<lparr>ac_MatchedVia := CredentialStake, ac_Matched := True\<rparr>
      else if isBase (Type addr) \<and> credentialMatches (Stake addr) keyHash
      then check\<lparr>ac_MatchedVia := CredentialStake, ac_Matched := \<not> strict\<rparr>
      else check)"

section \<open>The policy over abstract addresses\<close>

primrec controls :: "cip19 \<Rightarrow> bytes \<Rightarrow> Credential" where
  "controls (Base n p s) k =
     (if p = KeyHash k then CredentialPayment
      else if s = KeyHash k then CredentialStake else CredentialNone)"
| "controls (Enterprise n p) k = (if p = KeyHash k then CredentialPayment else CredentialNone)"
| "controls (Reward n s) k = (if s = KeyHash k then CredentialStake else CredentialNone)"

primrec accepts :: "cip19 \<Rightarrow> bytes \<Rightarrow> bool \<Rightarrow> bool" where
  "accepts (Base n p s) k strict = (p = KeyHash k \<or> s = KeyHash k \<and> \<not> strict)"
| "accepts (Enterprise n p) k strict = (p = KeyHash k)"
| "accepts (Reward n s) k strict = (s = KeyHash k)"

primrec category :: "cip19 \<Rightarrow> AddressType" where
  "category (Base n p s) = AddressBase"
| "category (Enterprise n p) = AddressEnterprise"
| "category (Reward n s) = AddressReward"

lemma credentialMatches_of_cred [simp]:
  "credentialMatches (of_cred c) kh \<longleftrightarrow> c = KeyHash (content kh)"
  by (auto simp: credentialMatches_def of_cred_def subtle.cmp_one cred_eq_KeyHash)

lemma credentialMatches_no_cred [simp]: "\<not> credentialMatches no_cred kh"
  by (simp add: credentialMatches_def no_cred_def)

lemma matchAddress_of_cip19:
  "matchAddress (of_cip19 a) kh strict =
     \<lparr>ac_Matched = accepts a (content kh) strict, ac_MatchedVia = controls a (content kh),
      ac_Strict = strict, ac_Source = AddressSupplied, ac_Type = category a,
      ac_Network = network (cip19_network a)\<rparr>"
  by (cases a)
    (auto simp: matchAddress_def Let_def addressType_def isReward_def isBase_def address_consts match_consts)

text \<open>C5. Refinement: on every decoded address, the match the code reports is the abstract policy:
  the credential the key hash controls, and acceptance by payment, by reward stake, or by the
  delegation of a base address when not strict.\<close>

theorem matchAddress_refines:
  "matchAddress (of_cip19 a) kh strict =
     \<lparr>ac_Matched = accepts a (content kh) strict, ac_MatchedVia = controls a (content kh),
      ac_Strict = strict, ac_Source = AddressSupplied, ac_Type = category a,
      ac_Network = network (cip19_network a)\<rparr>"
  by (rule matchAddress_of_cip19)

section \<open>The policy for any decoder\<close>

lemma accepts_strict_imp: "accepts a k True \<Longrightarrow> accepts a k strict"
  by (cases a) auto

lemma accepts_strict_iff:
  "accepts a k strict \<longleftrightarrow>
     accepts a k False \<and> \<not> (strict \<and> category a = AddressBase \<and> controls a k = CredentialStake)"
  by (cases a) (auto simp: match_consts)

lemma accepts_controls: "accepts a k strict \<Longrightarrow> controls a k \<noteq> CredentialNone"
  by (cases a) (auto simp: match_consts)

lemma category_not_pointer: "category a \<noteq> AddressPointer"
  by (cases a) (simp_all add: match_consts)

primrec with_network :: "u8 \<Rightarrow> cip19 \<Rightarrow> cip19" where
  "with_network m (Base n p s) = Base m p s"
| "with_network m (Enterprise n p) = Enterprise m p"
| "with_network m (Reward n s) = Reward m s"

lemma wf_with_network: "wf_cip19 a \<Longrightarrow> m \<le> 15 \<Longrightarrow> wf_cip19 (with_network m a)"
  by (cases a) auto

lemma encode_with_network:
  "cip19_encode (with_network m a) = make_header (cip19_type a) m # cip19_payload a"
  by (cases a) (simp_all add: cip19_encode_def cip19_header_def)

lemma policy_with_network:
  "accepts (with_network m a) k strict = accepts a k strict"
  "controls (with_network m a) k = controls a k"
  "category (with_network m a) = category a"
  "cip19_network (with_network m a) = m"
  by (cases a; simp)+

context address_source
begin

lemma match_Ok:
  assumes "parse r = Ok x"
  obtains a where "wf_cip19 a" "x = of_cip19 a"
    "\<And>kh strict. matchAddress x kh strict =
       \<lparr>ac_Matched = accepts a (content kh) strict, ac_MatchedVia = controls a (content kh),
        ac_Strict = strict, ac_Source = AddressSupplied, ac_Type = category a,
        ac_Network = network (cip19_network a)\<rparr>"
  using canonical [OF assms] matchAddress_of_cip19 by blast

lemma strict_sound:
  assumes "parse r = Ok x" "ac_Matched (matchAddress x kh True)"
  shows "Payment x = \<lparr>Hash = Some (content kh), IsScript = False\<rparr> \<or>
    Type x = TypeRewardKey \<and> Stake x = \<lparr>Hash = Some (content kh), IsScript = False\<rparr>"
  using assms(1)
proof (rule match_Ok)
  fix a
  assume a: "x = of_cip19 a" and m: "\<And>kh strict. matchAddress x kh strict =
       \<lparr>ac_Matched = accepts a (content kh) strict, ac_MatchedVia = controls a (content kh),
        ac_Strict = strict, ac_Source = AddressSupplied, ac_Type = category a,
        ac_Network = network (cip19_network a)\<rparr>"
  from assms(2) have "accepts a (content kh) True"
    by (simp add: m)
  with a show ?thesis
    by (cases a) (auto simp: of_cred_def address_consts)
qed

lemma strict_drops_base_stake:
  assumes "parse r = Ok x"
  shows "matchAddress x kh True = (matchAddress x kh False)\<lparr>ac_Strict := True,
    ac_Matched := ac_Matched (matchAddress x kh False) \<and>
      \<not> (ac_Type (matchAddress x kh False) = AddressBase \<and>
         ac_MatchedVia (matchAddress x kh False) = CredentialStake)\<rparr>"
  using assms by (rule match_Ok) (simp add: accepts_strict_iff [of _ _ True])

lemma never_pointer:
  assumes "parse r = Ok x"
  shows "ac_Type (matchAddress x kh strict) \<noteq> AddressPointer"
  using assms by (rule match_Ok) (simp add: category_not_pointer)

lemma matched_has_credential:
  assumes "parse r = Ok x" "ac_Matched (matchAddress x kh strict)"
  shows "ac_MatchedVia (matchAddress x kh strict) \<noteq> CredentialNone" "len kh = 28"
proof -
  obtain a where a: "wf_cip19 a" "accepts a (content kh) strict"
      "matchAddress x kh strict = \<lparr>ac_Matched = accepts a (content kh) strict,
         ac_MatchedVia = controls a (content kh), ac_Strict = strict,
         ac_Source = AddressSupplied, ac_Type = category a,
         ac_Network = network (cip19_network a)\<rparr>"
    using assms by (metis AddressCheck.select_convs(1) match_Ok)
  then show "ac_MatchedVia (matchAddress x kh strict) \<noteq> CredentialNone"
    using accepts_controls by simp
  show "len kh = 28"
    using a(1,2) by (cases a) (auto simp: wf_cred_def len_def)
qed

end

text \<open>C6. Strict mode means control of the address: a strict match of any textual address comes
  from its payment key hash, or from the stake key hash of a reward address, and never from a
  script hash.\<close>

theorem strict_match_is_control:
  assumes "Decode B s = Ok x" "ac_Matched (matchAddress x kh True)"
  shows "Payment x = \<lparr>Hash = Some (content kh), IsScript = False\<rparr> \<or>
    Type x = TypeRewardKey \<and> Stake x = \<lparr>Hash = Some (content kh), IsScript = False\<rparr>"
  using assms by (rule textual.strict_sound)

theorem strict_match_is_control_witness:
  "Payment (of_cip19 enterprise_a) = \<lparr>Hash = Some key_a, IsScript = False\<rparr> \<or>
   Type (of_cip19 enterprise_a) = TypeRewardKey \<and>
     Stake (of_cip19 enterprise_a) = \<lparr>Hash = Some key_a, IsScript = False\<rparr>"
proof -
  have "Decode no_bech32 (hex_of enterprise_a) = Ok (of_cip19 enterprise_a)"
    by (simp add: Decode_hex_of)
  moreover have "ac_Matched (matchAddress (of_cip19 enterprise_a) (Some key_a) True)"
    by (simp add: matchAddress_of_cip19 enterprise_a_def)
  ultimately show ?thesis
    using strict_match_is_control [of no_bech32 "hex_of enterprise_a" _ "Some key_a"] by simp
qed

text \<open>C17. The mangled-address attack: an address that pays a victim and delegates to the
  attacker's key is accepted under the default policy, through the stake credential, and refused
  under the strict one, which still reports how it would have matched.\<close>

theorem mangled_address:
  assumes "victim \<noteq> attacker"
  shows "let mangled = of_cip19 (Base n (KeyHash victim) (KeyHash attacker)) in
    ac_Matched (matchAddress mangled (Some attacker) False) \<and>
    \<not> ac_Matched (matchAddress mangled (Some attacker) True) \<and>
    ac_MatchedVia (matchAddress mangled (Some attacker) strict) = CredentialStake"
  using assms by (simp add: matchAddress_of_cip19)

theorem mangled_address_witness:
  "ac_Matched (matchAddress (of_cip19 base_ba) (Some key_a) False) \<and>
   \<not> ac_Matched (matchAddress (of_cip19 base_ba) (Some key_a) True) \<and>
   ac_MatchedVia (matchAddress (of_cip19 base_ba) (Some key_a) True) = CredentialStake"
  using mangled_address [of key_b key_a 1 True] by (simp add: base_ba_def Let_def)

text \<open>C18. Strict mode changes nothing but the verdict on a base address matched through its
  delegation: every other field, and the verdict on every other address, is the default one.\<close>

theorem strict_only_drops_base_stake:
  assumes "Decode B s = Ok x"
  shows "matchAddress x kh True = (matchAddress x kh False)\<lparr>ac_Strict := True,
    ac_Matched := ac_Matched (matchAddress x kh False) \<and>
      \<not> (ac_Type (matchAddress x kh False) = AddressBase \<and>
         ac_MatchedVia (matchAddress x kh False) = CredentialStake)\<rparr>"
  using assms by (rule textual.strict_drops_base_stake)

theorem strict_only_drops_base_stake_witness:
  "matchAddress (of_cip19 base_ba) (Some key_a) True =
    (matchAddress (of_cip19 base_ba) (Some key_a) False)\<lparr>ac_Strict := True, ac_Matched := False\<rparr>"
proof -
  have "Decode no_bech32 (hex_of base_ba) = Ok (of_cip19 base_ba)"
    by (simp add: Decode_hex_of)
  from strict_only_drops_base_stake [OF this, of "Some key_a"] show ?thesis
    by (simp add: matchAddress_of_cip19 base_ba_def match_consts)
qed

text \<open>C34. The network nibble of a raw or embedded address is informational: replacing it keeps the
  address decodable and changes only the reported network, which is unknown exactly for the
  reserved nibbles.\<close>

theorem network_nibble_informational:
  assumes "address_Parse (Some (h # p)) = Ok x" "n \<le> 15"
  shows "(\<exists>y. address_Parse (Some (make_header (drop_bit 4 h) n # p)) = Ok y \<and>
      matchAddress y kh strict = (matchAddress x kh strict)\<lparr>ac_Network := network n\<rparr>) \<and>
    (network n = NetworkUnknown \<longleftrightarrow> n \<noteq> 0 \<and> n \<noteq> 1)"
proof -
  obtain a where a: "wf_cip19 a" "h # p = cip19_encode a" "x = of_cip19 a"
    using address_Parse_complete [OF assms(1)] by auto
  then have h: "h = cip19_header a" "p = cip19_payload a"
    by (simp_all add: cip19_encode_def)
  define b where "b = with_network n a"
  have b: "wf_cip19 b" "cip19_encode b = make_header (drop_bit 4 h) n # p"
    using a(1) assms(2) h by (simp_all add: b_def wf_with_network encode_with_network)
  have "matchAddress (of_cip19 b) kh strict =
      (matchAddress (of_cip19 a) kh strict)\<lparr>ac_Network := network n\<rparr>"
    by (simp add: b_def matchAddress_of_cip19 policy_with_network)
  moreover have "address_Parse (Some (make_header (drop_bit 4 h) n # p)) = Ok (of_cip19 b)"
    using b address_Parse_encode by metis
  ultimately show ?thesis
    using a(3) by (auto simp: network_def match_consts address_consts)
qed

theorem network_nibble_informational_witness:
  "\<exists>y. address_Parse (Some (make_header (drop_bit 4 (cip19_header enterprise_a)) 2 # key_a)) = Ok y \<and>
     matchAddress y (Some key_a) False =
       (matchAddress (of_cip19 enterprise_a) (Some key_a) False)\<lparr>ac_Network := NetworkUnknown\<rparr>"
proof -
  have "address_Parse (Some (cip19_header enterprise_a # key_a)) = Ok (of_cip19 enterprise_a)"
    using address_Parse_encode [OF wf_samples(2)] unfolding cip19_encode_def
    by (simp add: enterprise_a_def)
  from network_nibble_informational [OF this, of 2 "Some key_a" False] show ?thesis
    by (auto simp: network_def address_consts)
qed

text \<open>C40. The \<open>String\<close> methods report the documented name of every named number of their
  \<open>uint8\<close> types, in the order of the constants, and no two numbers, named or not, share a text,
  so a logged check can be read back without doubt.\<close>

theorem String_names:
  "map Credential_String [0, 1, 2] = [''None'', ''Payment'', ''Stake''] \<and>
   map AddressSource_String [0, 1] = [''Supplied'', ''Embedded''] \<and>
   map AddressType_String [0, 1, 2, 3] = [''Base'', ''Pointer'', ''Enterprise'', ''Reward''] \<and>
   map Network_String [0, 1, 2] = [''Testnet'', ''Mainnet'', ''Unknown''] \<and>
   inj Credential_String \<and> inj AddressSource_String \<and> inj AddressType_String \<and> inj Network_String"
proof -
  have "inj Credential_String" "inj AddressSource_String" "inj AddressType_String" "inj Network_String"
    by (auto intro!: injI simp: Credential_String_def AddressSource_String_def AddressType_String_def
        Network_String_def decimal_inj word_unat_eq_iff split: if_splits)
  then show ?thesis
    by (simp add: Credential_String_def AddressSource_String_def AddressType_String_def
        Network_String_def enum_consts)
qed

end
