(* ===== verification/Message.thy ===== *)
theory Message
  imports Samples
begin

unbundle bit_operations_syntax

text \<open>
  The message convention of \<^verbatim>\<open>message.go\<close> and the key hash of
  \<^verbatim>\<open>cip30.go\<close> it shares: the bytes a payload is expected to be for a message,
  under the \<open>hashed\<close> flag and its is-hex guard.

  BLAKE2b (\<^verbatim>\<open>golang.org/x/crypto/blake2b\<close>) and the Ed25519 verification
  equation are the fields of \<open>crypto_lib\<close>.  \<open>blake2b_documented\<close> is what the package's
  documentation says of \<open>New\<close>: sizes 1 to 64 and keys up to 64 bytes are accepted, and a
  digest has the requested size.
\<close>

section \<open>Cryptographic library\<close>

record crypto_lib =
  blake2b_New :: "nat \<Rightarrow> slice \<Rightarrow> string + (bytes \<Rightarrow> bytes)"
  ed25519_equation :: "bytes \<Rightarrow> bytes \<Rightarrow> bytes \<Rightarrow> bool"

definition blake2b_documented :: "crypto_lib \<Rightarrow> bool" where
  "blake2b_documented C \<longleftrightarrow>
     (\<forall>size key. 1 \<le> size \<and> size \<le> 64 \<and> len key \<le> 64 \<longrightarrow>
        (\<exists>h. blake2b_New C size key = Inr h \<and> (\<forall>d. length (h d) = size)))"

definition keyHashSize :: nat where "keyHashSize = 28"

definition keyHash224 :: "crypto_lib \<Rightarrow> slice \<Rightarrow> slice go" where
  "keyHash224 C data =
     (case blake2b_New C keyHashSize None of
        Inl err \<Rightarrow> Panic (''cip30: blake2b.New('' @ decimal keyHashSize @ ''): '' @ err)
      | Inr h \<Rightarrow> Ok (Some (h (content data))))"

lemma keyHash224_Ok:
  assumes "blake2b_documented C"
  obtains h where "\<forall>d. keyHash224 C d = Ok (Some (h (content d)))" "\<forall>d. length (h d) = 28"
proof -
  have "\<exists>h. blake2b_New C 28 None = Inr h \<and> (\<forall>d. length (h d) = 28)"
    using assms unfolding blake2b_documented_def by (elim allE [of _ 28] allE [of _ None]) simp
  then obtain h where "blake2b_New C 28 None = Inr h" "\<forall>d. length (h d) = 28"
    by blast
  then show ?thesis
    by (intro that [of h]) (simp_all add: keyHash224_def keyHashSize_def)
qed

lemma keyHash224_no_panic: "blake2b_documented C \<Longrightarrow> no_panic (keyHash224 C d)"
  by (erule keyHash224_Ok) simp

lemma keyHash224_not_Err: "keyHash224 C d \<noteq> Err e"
  by (simp add: keyHash224_def split: sum.splits)

lemma keyHash224_len: "blake2b_documented C \<Longrightarrow> keyHash224 C d = Ok k \<Longrightarrow> len k = 28"
  by (erule keyHash224_Ok) auto

lemma keyHash224_non_nil: "keyHash224 C d = Ok k \<Longrightarrow> \<exists>b. k = Some b"
  by (auto simp: keyHash224_def split: sum.splits)

section \<open>The message convention\<close>

definition hex_digit_byte :: "u8 \<Rightarrow> bool" where
  "hex_digit_byte b =
     (let isDigit = 48 \<le> b \<and> b \<le> 57; isLower = 97 \<le> b \<and> b \<le> 102; isUpper = 65 \<le> b \<and> b \<le> 70
      in isDigit \<or> isLower \<or> isUpper)"

definition decodeHexDigest :: "slice \<Rightarrow> slice \<times> bool" where
  "decodeHexDigest message =
     (if len message = 0 \<or> len message mod 2 \<noteq> 0 then (None, False)
      else if list_ex (\<lambda>b. \<not> hex_digit_byte b) (content message) then (None, False)
      else case hex_DecodeString (string_of_bytes (content message)) of
             Ok decoded \<Rightarrow> (decoded, True)
           | _ \<Rightarrow> (None, False))"

definition digest :: "crypto_lib \<Rightarrow> slice \<Rightarrow> bool \<Rightarrow> slice go" where
  "digest C message hashed =
     (if \<not> hashed then Ok message
      else case decodeHexDigest message of
             (decoded, True) \<Rightarrow> Ok decoded
           | (_, False) \<Rightarrow> keyHash224 C message)"

definition bytesEqual :: "slice \<Rightarrow> slice \<Rightarrow> bool" where
  "bytesEqual a b =
     (if len a \<noteq> len b then False else ConstantTimeCompare (content a) (content b) = 1)"

lemma bytesEqual_iff [simp]: "bytesEqual a b \<longleftrightarrow> content a = content b"
  by (auto simp: bytesEqual_def subtle.cmp_one len_def)

lemma hex_digit_byte_is_hex: "hex_digit_byte = is_hex"
  by (auto simp: fun_eq_iff hex_digit_byte_def is_hex_ranges Let_def)

lemma decodeHexDigest_eq:
  "decodeHexDigest m =
     (case hex_Decode (content m) of
        Ok d \<Rightarrow> if content m = [] then (None, False) else (Some d, True)
      | _ \<Rightarrow> (None, False))"
proof (cases "hex_Decode (content m)")
  case (Ok d)
  then have "even (length (content m))" "list_all is_hex (content m)"
    using hex.dec_Ok_iff by blast+
  then show ?thesis
    using Ok by (simp add: decodeHexDigest_def hex_digit_byte_is_hex hex_DecodeString_def len_def
        list_all_iff list_ex_iff even_iff_mod_2_eq_zero)
next
  case (Err e)
  then show ?thesis
    by (simp add: decodeHexDigest_def hex_DecodeString_def)
next
  case (Panic p)
  then show ?thesis
    using hex.dec_no_panic [of "content m"] by simp
qed

text \<open>C27. The guard is exactly decodability: the messages of positive even length whose bytes all
  pass the three range tests are the non-empty ones \<open>encoding/hex\<close> decodes, so the error branch
  after the guard is dead.  A message is taken as a pre-computed digest if and only if it is one
  of them, and then the digest is the bytes whose hex, letter case aside, the message is.\<close>

theorem decodeHexDigest_iff_hex:
  "(len m \<noteq> 0 \<and> even (len m) \<and> list_all hex_digit_byte (content m) \<longleftrightarrow>
     content m \<noteq> [] \<and> (\<exists>d. hex_Decode (content m) = Ok d)) \<and>
   (decodeHexDigest m = (d, True) \<longleftrightarrow>
     (\<exists>b. d = Some b \<and> b \<noteq> [] \<and> map upper_hex (content m) = map upper_hex (hex_Encode b))) \<and>
   (decodeHexDigest m = (d, False) \<longleftrightarrow>
     d = None \<and> \<not> (\<exists>b. b \<noteq> [] \<and> map upper_hex (content m) = map upper_hex (hex_Encode b)))"
proof -
  have nil: "b \<noteq> [] \<longleftrightarrow> content m \<noteq> []" if "hex_Decode (content m) = Ok b" for b
    using hex_Decode_length [OF that] by auto
  show ?thesis
    unfolding hex_Decode_iff_Encode [symmetric]
    using nil by (auto simp: hex_Decode_Ok_iff hex_digit_byte_is_hex decodeHexDigest_eq len_def
     split: outcome.split)
qed

lemma digest_unhashed [simp]: "digest C m False = Ok m"
  by (simp add: digest_def)

lemma digest_hex:
  "content m \<noteq> [] \<Longrightarrow> hex_Decode (content m) = Ok d \<Longrightarrow> digest C m True = Ok (Some d)"
  by (simp add: digest_def decodeHexDigest_eq)

lemma digest_not_hex:
  "content m = [] \<or> (\<forall>d. hex_Decode (content m) \<noteq> Ok d) \<Longrightarrow> digest C m True = keyHash224 C m"
  by (auto simp: digest_def decodeHexDigest_eq split: outcome.splits)

lemma digest_no_panic: "blake2b_documented C \<Longrightarrow> no_panic (digest C m hashed)"
  by (auto simp: digest_def keyHash224_no_panic split: prod.splits bool.splits)

lemma digest_not_Err: "digest C m hashed \<noteq> Err e"
  by (auto simp: digest_def keyHash224_not_Err split: prod.splits bool.splits)

lemma digest_Ok: "blake2b_documented C \<Longrightarrow> \<exists>d. digest C m hashed = Ok d"
  using digest_no_panic [of C m hashed] digest_not_Err [of C m hashed]
  by (cases "digest C m hashed") auto

section \<open>Properties\<close>

text \<open>A BLAKE2b stand-in of the right shape, for closed instances.\<close>

definition sample_crypto :: crypto_lib where
  "sample_crypto = \<lparr>
     blake2b_New = (\<lambda>size key. if 1 \<le> size \<and> size \<le> 64 \<and> len key \<le> 64
       then Inr (\<lambda>d. take size (d @ replicate size 0)) else Inl ''blake2b: invalid parameter''),
     ed25519_equation = (\<lambda>pk msg sig. take 32 sig = pk)\<rparr>"

lemma sample_crypto_documented [simp]: "blake2b_documented sample_crypto"
  by (auto simp: blake2b_documented_def sample_crypto_def)

text \<open>C28. A message and the hex text of its hash name the same payload: under the \<open>hashed\<close>
  flag both expect the message's hash, in either letter case.\<close>

theorem digest_prehashed:
  assumes "blake2b_documented C" "hex_Decode (content m) = Err e"
  shows "\<exists>k. digest C m True = Ok (Some k) \<and> length k = 28 \<and>
    digest C (Some (hex_Encode k)) True = Ok (Some k) \<and>
    digest C (Some (map upper_hex (hex_Encode k))) True = Ok (Some k)"
proof -
  obtain h where h: "\<forall>d. keyHash224 C d = Ok (Some (h (content d)))" "\<forall>d. length (h d) = 28"
    using assms(1) by (rule keyHash224_Ok)
  let ?k = "h (content m)"
  have "digest C m True = Ok (Some ?k)"
    using assms(2) h(1) by (simp add: digest_not_hex)
  moreover have "hex_Encode ?k \<noteq> []"
    using h(2) hex.enc_length [of ?k] by (metis length_0_conv mult_is_0 zero_neq_numeral)
  ultimately show ?thesis
    using h(2) by (auto simp: digest_hex hex_Decode_upper_Ok hex.dec_enc)
qed

theorem digest_prehashed_witness:
  "\<exists>k. digest sample_crypto (Some (bytes_of_string ''Hello world'')) True = Ok (Some k) \<and>
     length k = 28 \<and> digest sample_crypto (Some (hex_Encode k)) True = Ok (Some k) \<and>
     digest sample_crypto (Some (map upper_hex (hex_Encode k))) True = Ok (Some k)"
proof -
  have "hex_Decode (content (Some (bytes_of_string ''Hello world''))) = Err (InvalidByteError 72)"
    by code_simp
  then show ?thesis
    by (rule digest_prehashed [OF sample_crypto_documented])
qed

text \<open>C29. An odd-length all-hex message is not a digest: it is hashed like any text, so the hash
  of it is the payload accepted, although no payload has that text as its hex form.\<close>

theorem digest_odd_hex:
  assumes "blake2b_documented C" "odd (len m)"
  shows "(\<exists>k. digest C m True = Ok (Some k) \<and> keyHash224 C m = Ok (Some k)) \<and>
    (\<nexists>p. hex_Encode p = content m)"
proof -
  obtain h where h: "\<forall>d. keyHash224 C d = Ok (Some (h (content d)))"
    using assms(1) by (rule keyHash224_Ok)
  have "\<And>d. hex_Decode (content m) \<noteq> Ok d"
    using assms(2) hex.dec_Ok_iff [of "content m"] by (auto simp: len_def)
  then have "digest C m True = keyHash224 C m"
    by (simp add: digest_not_hex)
  moreover have "hex_Encode p \<noteq> content m" for p
  proof
    assume "hex_Encode p = content m"
    then have "len m = 2 * length p"
      by (metis len_def length_hex_Encode)
    with assms(2) show False
      by simp
  qed
  ultimately show ?thesis
    using h by auto
qed

theorem digest_odd_hex_witness:
  "(\<exists>k. digest sample_crypto (Some (bytes_of_string ''abc'')) True = Ok (Some k) \<and>
      keyHash224 sample_crypto (Some (bytes_of_string ''abc'')) = Ok (Some k)) \<and>
   (\<nexists>p. hex_Encode p = content (Some (bytes_of_string ''abc'')))"
  by (rule digest_odd_hex [OF sample_crypto_documented]) simp

end
