(* ===== verification/Cbor.thy ===== *)
theory Cbor
  imports Go_Std
begin

unbundle bit_operations_syntax

text \<open>
  CBOR (RFC 8949), the notation in which the behaviour of the third-party codec is stated: a
  data model, its shortest-form definite-length encoding \<open>enc\<close>, and a decoder \<open>dec\<close>
  proved to invert it.  The decoder is fuelled; \<open>cost\<close> bounds what an item needs, and twice
  the input length is always enough (\<open>cost_bound\<close>), so \<open>cbor_decode\<close> has no fuel
  parameter.
\<close>

section \<open>Big-endian numbers and item heads\<close>

fun be :: "nat \<Rightarrow> nat \<Rightarrow> bytes" where
  "be 0 n = []"
| "be (Suc k) n = be k (n div 256) @ [of_nat (n mod 256)]"

definition unbe :: "bytes \<Rightarrow> nat" where
  "unbe b = foldl (\<lambda>a x. 256 * a + unat x) 0 b"

lemma length_be [simp]: "length (be k n) = k"
  by (induction k arbitrary: n) simp_all

lemma unat_byte [simp]: "n < 256 \<Longrightarrow> unat (of_nat n :: u8) = n"
  by (simp add: unat_of_nat)

lemma unbe_snoc: "unbe (b @ [x]) = 256 * unbe b + unat x"
  by (simp add: unbe_def)

lemma unbe_be: "n < 256 ^ k \<Longrightarrow> unbe (be k n) = n"
proof (induction k arbitrary: n)
  case 0
  then show ?case
    by (simp add: unbe_def)
next
  case (Suc k)
  then have "n div 256 < 256 ^ k"
    by (simp add: less_mult_imp_div_less mult.commute)
  then show ?case
    using Suc.IH by (simp add: unbe_snoc unat_of_nat)
qed

text \<open>The initial byte holds the major type and the argument, or its width.\<close>

definition head :: "nat \<Rightarrow> nat \<Rightarrow> bytes" where
  "head mt n =
     (if n < 24 then [of_nat (32 * mt + n)]
      else if n < 256 then of_nat (32 * mt + 24) # be 1 n
      else if n < 65536 then of_nat (32 * mt + 25) # be 2 n
      else if n < 4294967296 then of_nat (32 * mt + 26) # be 4 n
      else of_nat (32 * mt + 27) # be 8 n)"

definition take_be :: "nat \<Rightarrow> bytes \<Rightarrow> (nat \<times> bytes) option" where
  "take_be k bs = (if k \<le> length bs then Some (unbe (take k bs), drop k bs) else None)"

definition dec_head :: "bytes \<Rightarrow> (nat \<times> nat \<times> bytes) option" where
  "dec_head bs =
     (case bs of
        [] \<Rightarrow> None
      | b # rest \<Rightarrow>
          let mt = unat b div 32; ai = unat b mod 32; arg = map_option (\<lambda>(n, r). (mt, n, r)) in
          if ai < 24 then Some (mt, ai, rest)
          else if ai = 24 then arg (take_be 1 rest)
          else if ai = 25 then arg (take_be 2 rest)
          else if ai = 26 then arg (take_be 4 rest)
          else if ai = 27 then arg (take_be 8 rest)
          else None)"

lemma head_nonempty [simp]: "head mt n \<noteq> []"
  by (simp add: head_def)

lemma take_be_be: "n < 256 ^ k \<Longrightarrow> take_be k (be k n @ r) = Some (n, r)"
  by (simp add: take_be_def unbe_be)

lemma dec_head_head:
  assumes "mt < 8" "n < 2 ^ 64"
  shows "dec_head (head mt n @ r) = Some (mt, n, r)"
proof -
  have initial: "unat (of_nat (32 * mt + ai) :: u8) div 32 = mt"
      "unat (of_nat (32 * mt + ai) :: u8) mod 32 = ai" if "ai < 32" for ai
    using that assms(1) unat_byte [of "32 * mt + ai"] by simp_all
  have wide: "n < 256 ^ 8"
    using assms(2) by simp
  show ?thesis
    using wide by (simp add: head_def dec_head_def Let_def initial take_be_be del: be.simps of_nat_add of_nat_mult)
qed

section \<open>Items\<close>

datatype cbor =
    CUint nat
  | CNint nat                    \<comment> \<open>the integer \<open>-1 - n\<close>\<close>
  | CBytes bytes
  | CText string
  | CArr "cbor list"
  | CMap "(cbor \<times> cbor) list"
  | CBool bool
  | CNull

fun enc :: "cbor \<Rightarrow> bytes" where
  "enc (CUint n) = head 0 n"
| "enc (CNint n) = head 1 n"
| "enc (CBytes b) = head 2 (length b) @ b"
| "enc (CText s) = head 3 (length s) @ bytes_of_string s"
| "enc (CArr vs) = head 4 (length vs) @ concat (map enc vs)"
| "enc (CMap kvs) = head 5 (length kvs) @ concat (map (\<lambda>(k, v). enc k @ enc v) kvs)"
| "enc (CBool b) = head 7 (if b then 21 else 20)"
| "enc CNull = head 7 22"

text \<open>Arguments fit 64 bits; text is ASCII, which keeps it valid UTF-8.\<close>

fun wf_cbor :: "cbor \<Rightarrow> bool" where
  "wf_cbor (CUint n) = (n < 2 ^ 64)"
| "wf_cbor (CNint n) = (n < 2 ^ 64)"
| "wf_cbor (CBytes b) = (length b < 2 ^ 64)"
| "wf_cbor (CText s) = (length s < 2 ^ 64 \<and> list_all (\<lambda>c. (of_char c :: nat) < 128) s)"
| "wf_cbor (CArr vs) = (length vs < 2 ^ 64 \<and> list_all wf_cbor vs)"
| "wf_cbor (CMap kvs) = (length kvs < 2 ^ 64 \<and> list_all (\<lambda>(k, v). wf_cbor k \<and> wf_cbor v) kvs)"
| "wf_cbor (CBool b) = True"
| "wf_cbor CNull = True"

fun pair_up :: "'a list \<Rightarrow> ('a \<times> 'a) list" where
  "pair_up (k # v # r) = (k, v) # pair_up r"
| "pair_up _ = []"

fun dec :: "nat \<Rightarrow> bytes \<Rightarrow> (cbor \<times> bytes) option"
  and decs :: "nat \<Rightarrow> nat \<Rightarrow> bytes \<Rightarrow> (cbor list \<times> bytes) option" where
  "dec 0 bs = None"
| "dec (Suc f) bs =
     (case dec_head bs of
        None \<Rightarrow> None
      | Some (mt, n, rest) \<Rightarrow>
          if mt = 0 then Some (CUint n, rest)
          else if mt = 1 then Some (CNint n, rest)
          else if mt = 2 then
            (if n \<le> length rest then Some (CBytes (take n rest), drop n rest) else None)
          else if mt = 3 then
            (if n \<le> length rest then Some (CText (string_of_bytes (take n rest)), drop n rest) else None)
          else if mt = 4 then map_option (\<lambda>(vs, r). (CArr vs, r)) (decs f n rest)
          else if mt = 5 then map_option (\<lambda>(vs, r). (CMap (pair_up vs), r)) (decs f (2 * n) rest)
          else if mt = 7 \<and> length bs = Suc (length rest) then
            (if n = 20 then Some (CBool False, rest)
             else if n = 21 then Some (CBool True, rest)
             else if n = 22 then Some (CNull, rest)
             else None)
          else None)"
| "decs f 0 bs = Some ([], bs)"
| "decs 0 (Suc n) bs = None"
| "decs (Suc f) (Suc n) bs =
     (case dec f bs of
        None \<Rightarrow> None
      | Some (v, r) \<Rightarrow> map_option (\<lambda>(vs, r'). (v # vs, r')) (decs f n r))"

fun cost :: "cbor \<Rightarrow> nat" where
  "cost (CArr vs) = Suc (sum_list (map (\<lambda>v. Suc (cost v)) vs))"
| "cost (CMap kvs) = Suc (sum_list (map (\<lambda>(k, v). Suc (cost k) + Suc (cost v)) kvs))"
| "cost _ = 1"

definition cbor_decode :: "bytes \<Rightarrow> cbor option" where
  "cbor_decode bs = (case dec (2 * length bs) bs of Some (v, []) \<Rightarrow> Some v | _ \<Rightarrow> None)"

section \<open>Decoding inverts encoding\<close>

definition encodes :: "bytes \<Rightarrow> cbor \<Rightarrow> bool" where
  "encodes p v \<longleftrightarrow> Suc (cost v) \<le> 2 * length p \<and> (\<forall>f r. cost v \<le> f \<longrightarrow> dec f (p @ r) = Some (v, r))"

lemma decs_encodes:
  assumes "list_all2 encodes ps vs" "sum_list (map (\<lambda>v. Suc (cost v)) vs) \<le> f"
  shows "decs f (length vs) (concat ps @ r) = Some (vs, r)"
  using assms
proof (induction ps vs arbitrary: f rule: list_all2_induct)
  case (Cons p ps v vs)
  then obtain g where g: "f = Suc g"
    by (cases f) auto
  then have "dec g (p @ concat ps @ r) = Some (v, concat ps @ r)"
    using Cons.hyps(1) Cons.prems by (simp add: encodes_def)
  then show ?case
    using Cons.IH [of g] Cons.prems g by simp
qed simp

lemma sum_cost_encodes:
  "list_all2 encodes ps vs \<Longrightarrow> sum_list (map (\<lambda>v. Suc (cost v)) vs) \<le> 2 * length (concat ps)"
  by (induction rule: list_all2_induct) (auto simp: encodes_def)

definition flat :: "('a \<times> 'a) list \<Rightarrow> 'a list" where
  "flat kvs = concat (map (\<lambda>(k, v). [k, v]) kvs)"

lemma flat_simps [simp]: "flat [] = []" "flat ((k, v) # r) = k # v # flat r"
  by (simp_all add: flat_def)

lemma flat_facts:
  "pair_up (flat kvs) = kvs"
  "length (flat kvs) = 2 * length kvs"
  "concat (map enc (flat kvs)) = concat (map (\<lambda>(k, v). enc k @ enc v) kvs)"
  "sum_list (map (\<lambda>v. Suc (cost v)) (flat kvs)) =
     sum_list (map (\<lambda>(k, v). Suc (cost k) + Suc (cost v)) kvs)"
  by (induction kvs) auto

lemma set_flat: "v \<in> set (flat kvs) \<longleftrightarrow> (\<exists>k w. (k, w) \<in> set kvs \<and> (v = k \<or> v = w))"
  by (auto simp: flat_def)

lemma pair_up_flat: "length vs = 2 * n \<Longrightarrow> length (pair_up vs) = n \<and> flat (pair_up vs) = vs"
proof (induction vs arbitrary: n rule: pair_up.induct)
  case (1 k v r)
  then show ?case
    using "1.IH" [of "n - 1"] by (cases n) auto
qed auto

lemma dec_head_local:
  assumes "dec_head bs = Some (mt, n, rest)"
  shows "\<exists>h. bs = h @ rest \<and> h \<noteq> [] \<and> (\<forall>r. dec_head (h @ r) = Some (mt, n, r))"
proof -
  obtain b t where bs: "bs = b # t"
    using assms by (cases bs) (simp_all add: dec_head_def)
  have arg: "\<exists>p. t = p @ rest \<and> (\<forall>r. take_be k (p @ r) = Some (n, r))"
    if "take_be k t = Some (n, rest)" for k
    using that by (intro exI [of _ "take k t"]) (auto simp: take_be_def split: if_splits)
  have cases: "t = rest \<and> (\<forall>r. dec_head (b # r) = Some (mt, n, r)) \<or>
      (\<exists>k. take_be k t = Some (n, rest) \<and>
        (\<forall>p r. take_be k (p @ r) = Some (n, r) \<longrightarrow> dec_head (b # p @ r) = Some (mt, n, r)))"
    using assms unfolding bs by (auto simp: dec_head_def Let_def split: if_splits)
  from cases show ?thesis
  proof (elim disjE exE conjE)
    assume "t = rest" "\<forall>r. dec_head (b # r) = Some (mt, n, r)"
    then show ?thesis
      using bs by (intro exI [of _ "[b]"]) simp
  next
    fix k
    assume k: "take_be k t = Some (n, rest)"
      "\<forall>p r. take_be k (p @ r) = Some (n, r) \<longrightarrow> dec_head (b # p @ r) = Some (mt, n, r)"
    from arg [OF k(1)] obtain p where "t = p @ rest" "\<forall>r. take_be k (p @ r) = Some (n, r)"
      by blast
    then show ?thesis
      using bs k(2) by (intro exI [of _ "b # p"]) simp
  qed
qed

text \<open>Each kind of item, from its head and its parts.\<close>

lemma encodes_leaf:
  assumes "\<And>r. dec_head (h @ r) = Some (mt, n, r)" "h \<noteq> []" "cost v = 1"
    and "\<And>f r. dec (Suc f) (h @ t @ r) = Some (v, r)"
  shows "encodes (h @ t) v"
  unfolding encodes_def
proof (intro conjI allI impI)
  show "Suc (cost v) \<le> 2 * length (h @ t)"
    using assms(2,3) by (cases h) simp_all
  show "dec f ((h @ t) @ r) = Some (v, r)" if "cost v \<le> f" for f r
    using that assms(3,4) by (cases f) simp_all
qed

lemma encodes_array:
  assumes "\<And>r. dec_head (h @ r) = Some (4, length vs, r)" "h \<noteq> []" "list_all2 encodes ps vs"
  shows "encodes (h @ concat ps) (CArr vs)"
  unfolding encodes_def
proof (intro conjI allI impI)
  show "Suc (cost (CArr vs)) \<le> 2 * length (h @ concat ps)"
    using assms(2) sum_cost_encodes [OF assms(3)] by (cases h) simp_all
  show "dec f ((h @ concat ps) @ r) = Some (CArr vs, r)" if f: "cost (CArr vs) \<le> f" for f r
  proof -
    obtain g where "f = Suc g" "sum_list (map (\<lambda>v. Suc (cost v)) vs) \<le> g"
      using f by (cases f) simp_all
    then show ?thesis
      using assms(1) decs_encodes [OF assms(3), of g r] by simp
  qed
qed

lemma encodes_map:
  assumes "\<And>r. dec_head (h @ r) = Some (5, length kvs, r)" "h \<noteq> []" "list_all2 encodes ps (flat kvs)"
  shows "encodes (h @ concat ps) (CMap kvs)"
  unfolding encodes_def
proof (intro conjI allI impI)
  show "Suc (cost (CMap kvs)) \<le> 2 * length (h @ concat ps)"
    using assms(2) sum_cost_encodes [OF assms(3)] by (cases h) (simp_all add: flat_facts)
  show "dec f ((h @ concat ps) @ r) = Some (CMap kvs, r)" if f: "cost (CMap kvs) \<le> f" for f r
  proof -
    obtain g where "f = Suc g" "sum_list (map (\<lambda>v. Suc (cost v)) (flat kvs)) \<le> g"
      using f by (cases f) (simp_all add: flat_facts)
    then show ?thesis
      using assms(1) decs_encodes [OF assms(3), of g r] by (simp add: flat_facts)
  qed
qed

text \<open>Encoded items are items.\<close>

lemma list_all2_enc: "list_all wf_cbor vs \<Longrightarrow> (\<And>v. v \<in> set vs \<Longrightarrow> wf_cbor v \<Longrightarrow> encodes (enc v) v) \<Longrightarrow>
    list_all2 encodes (map enc vs) vs"
  by (simp add: list_all2_map1 list_all2_same list_all_iff)

lemma encodes_enc: "wf_cbor v \<Longrightarrow> encodes (enc v) v"
proof (induction v)
  case (CArr vs)
  then show ?case
    by (simp add: encodes_array dec_head_head list_all2_enc)
next
  case (CMap kvs)
  have "encodes (enc v) v" if "v \<in> set (flat kvs)" for v
    using that CMap by (fastforce simp: set_flat list_all_iff)
  then have "list_all2 encodes (map enc (flat kvs)) (flat kvs)"
    by (simp add: list_all2_map1 list_all2_same)
  from encodes_map [OF _ _ this] show ?case
    using CMap.prems by (simp add: dec_head_head flat_facts)
next
  case (CBytes b)
  then show ?case
    by (simp, intro encodes_leaf [where mt = 2 and n = "length b"]) (simp_all add: dec_head_head)
next
  case (CText s)
  then show ?case
    by (simp, intro encodes_leaf [where mt = 3 and n = "length s"]) (simp_all add: dec_head_head)
next
  case (CUint n)
  then show ?case
    using encodes_leaf [of "head 0 n" 0 n "CUint n" "[]"] by (simp add: dec_head_head)
next
  case (CNint n)
  then show ?case
    using encodes_leaf [of "head 1 n" 1 n "CNint n" "[]"] by (simp add: dec_head_head)
next
  case (CBool b)
  then show ?case
    using encodes_leaf [of "head 7 (if b then 21 else 20)" 7 "if b then 21 else 20" "CBool b" "[]"]
    by (cases b) (simp_all add: dec_head_head, simp_all add: head_def)
next
  case CNull
  then show ?case
    using encodes_leaf [of "head 7 22" 7 22 CNull "[]"]
    by (simp add: dec_head_head) (simp add: head_def)
qed

text \<open>The decoder is local: what it reads is an item on its own, whatever follows.\<close>

lemma dec_local:
  "dec f bs = Some (v, r) \<Longrightarrow> \<exists>p. bs = p @ r \<and> encodes p v"
  "decs f n bs = Some (vs, r) \<Longrightarrow> \<exists>ps. bs = concat ps @ r \<and> list_all2 encodes ps vs \<and> length vs = n"
proof (induction f bs and f n bs arbitrary: v r and vs r rule: dec_decs.induct)
  case (2 f bs)
  then obtain mt n rest where hd: "dec_head bs = Some (mt, n, rest)"
    by (auto split: option.splits)
  obtain h where h: "bs = h @ rest" "h \<noteq> []" "\<And>r. dec_head (h @ r) = Some (mt, n, r)"
    using dec_head_local [OF hd] by blast
  consider "mt = 0" | "mt = 1" | "mt = 2" | "mt = 3" | "mt = 4" | "mt = 5" | "mt = 7"
    using "2.prems" hd by (auto split: if_splits)
  then show ?case
  proof cases
    case 1
    then have "v = CUint n" "r = rest"
      using "2.prems" hd by simp_all
    then show ?thesis
      using h encodes_leaf [of h mt n v "[]"] 1 by (intro exI [of _ h]) simp
  next
    case 2
    then have "v = CNint n" "r = rest"
      using "2.prems" hd by simp_all
    then show ?thesis
      using h encodes_leaf [of h mt n v "[]"] 2 by (intro exI [of _ h]) simp
  next
    case 3
    then have *: "n \<le> length rest" "v = CBytes (take n rest)" "r = drop n rest"
      using "2.prems" hd by (auto split: if_splits)
    then show ?thesis
      using h encodes_leaf [of h mt n v "take n rest"] 3
      by (intro exI [of _ "h @ take n rest"]) simp
  next
    case 4
    then have *: "n \<le> length rest" "v = CText (string_of_bytes (take n rest))" "r = drop n rest"
      using "2.prems" hd by (auto split: if_splits)
    then show ?thesis
      using h encodes_leaf [of h mt n v "take n rest"] 4
      by (intro exI [of _ "h @ take n rest"]) simp
  next
    case 5
    then obtain vs where vs: "decs f n rest = Some (vs, r)" "v = CArr vs"
      using "2.prems" hd by auto
    then obtain ps where "rest = concat ps @ r" "list_all2 encodes ps vs" "length vs = n"
      using "2.IH"(1) [OF hd] 5 by fastforce
    then show ?thesis
      using h vs(2) 5 encodes_array [of h vs ps] by (intro exI [of _ "h @ concat ps"]) simp
  next
    case 6
    then obtain vs where vs: "decs f (2 * n) rest = Some (vs, r)" "v = CMap (pair_up vs)"
      using "2.prems" hd by auto
    then obtain ps where "rest = concat ps @ r" "list_all2 encodes ps vs" "length vs = 2 * n"
      using "2.IH"(2) [OF hd] 6 by fastforce
    then show ?thesis
      using h vs(2) 6 encodes_map [of h "pair_up vs" ps] pair_up_flat [of vs n]
      by (intro exI [of _ "h @ concat ps"]) simp
  next
    case 7
    then have *: "r = rest" "length bs = Suc (length rest)"
      "n = 20 \<and> v = CBool False \<or> n = 21 \<and> v = CBool True \<or> n = 22 \<and> v = CNull"
      using "2.prems" hd by (auto split: if_splits)
    then have "length h = 1"
      using h(1) by simp
    then have "encodes (h @ []) v"
      using * 7 h(3) by (intro encodes_leaf [OF h(3) h(2)]) auto
    then show ?thesis
      using h(1) *(1) by auto
  qed
next
  case (5 f n bs)
  then obtain w t ws where w: "dec f bs = Some (w, t)" "decs f n t = Some (ws, r)" "vs = w # ws"
    by (auto split: option.splits)
  from "5.IH"(1) [OF w(1)] obtain p where p: "bs = p @ t" "encodes p w"
    by blast
  from "5.IH"(2) [OF w(1) refl w(2)] obtain ps where
    "t = concat ps @ r" "list_all2 encodes ps ws" "length ws = n"
    by blast
  with p w(3) show ?case
    by (intro exI [of _ "p # ps"]) simp
qed auto

lemma encodes_iff: "cbor_decode p = Some v \<longleftrightarrow> encodes p v"
proof
  assume "cbor_decode p = Some v"
  then have "dec (2 * length p) p = Some (v, [])"
    by (auto simp: cbor_decode_def split: option.splits list.splits)
  with dec_local(1) show "encodes p v"
    by fastforce
next
  assume p: "encodes p v"
  then have "dec (2 * length p) (p @ []) = Some (v, [])"
    unfolding encodes_def by (metis Suc_leD)
  then show "cbor_decode p = Some v"
    by (simp add: cbor_decode_def)
qed

lemma encodes_prefix_free:
  assumes "encodes p v" "encodes (p @ q) w"
  shows "q = []" "v = w"
proof -
  have "dec (cost v + cost w) (p @ q) = Some (v, q)"
    using assms(1) by (simp add: encodes_def)
  moreover have "dec (cost v + cost w) ((p @ q) @ []) = Some (w, [])"
    using assms(2) unfolding encodes_def by (metis le_add2)
  ultimately show "q = []" "v = w"
    by simp_all
qed

lemma cost_bound: "encodes p v \<Longrightarrow> cost v \<le> 2 * length p"
  by (simp add: encodes_def)

lemma cbor_decode_enc: "wf_cbor v \<Longrightarrow> cbor_decode (enc v) = Some v"
  by (simp add: encodes_iff encodes_enc)

lemma cbor_enc_inj: "wf_cbor v \<Longrightarrow> wf_cbor w \<Longrightarrow> enc v = enc w \<Longrightarrow> v = w"
  by (metis cbor_decode_enc option.inject)

text \<open>Bytes that are no item of any kind: cut short, or followed by something.\<close>

definition malformed :: "bytes \<Rightarrow> bool" where
  "malformed b \<longleftrightarrow>
     (\<exists>q v. q \<noteq> [] \<and> cbor_decode (b @ q) = Some v) \<or>
     (\<exists>p q v. b = p @ q \<and> q \<noteq> [] \<and> cbor_decode p = Some v)"

lemma malformed_decode: "malformed b \<Longrightarrow> cbor_decode b = None"
  unfolding malformed_def encodes_iff
  by (cases "cbor_decode b") (auto simp: encodes_iff dest: encodes_prefix_free)

lemma malformed_Nil: "malformed []"
  unfolding malformed_def
  using cbor_decode_enc [of CNull] by (intro disjI1 exI [of _ "enc CNull"]) (auto simp: head_def)

lemma cbor_decode_array:
  assumes "cbor_decode b = Some (CArr vs)"
  obtains h ps where "b = h @ concat ps" "list_all2 encodes ps vs"
    "\<And>r. dec_head (h @ r) = Some (4, length vs, r)"
proof -
  have "dec (2 * length b) b = Some (CArr vs, [])"
    using assms by (auto simp: cbor_decode_def split: option.splits list.splits)
  then obtain f where d: "dec (Suc f) b = Some (CArr vs, [])"
    by (cases "2 * length b") auto
  then obtain n rest where hd: "dec_head b = Some (4, n, rest)" "decs f n rest = Some (vs, [])"
    by (auto split: option.splits if_splits)
  then show ?thesis
    using dec_head_local [OF hd(1)] dec_local(2) [OF hd(2)] that by auto
qed

end
