(* ===== verification/Cbor_Lib.thy ===== *)
theory Cbor_Lib
  imports Cbor
begin

text \<open>
  The interface of the CBOR codec \<^verbatim>\<open>github.com/fxamacker/cbor/v2\<close>, which is not part
  of the repository: one function per Go target type the program unmarshals into, the decode
  mode, and \<open>Marshal\<close> of a heterogeneous array.  The \<open>_law\<close> definitions state what its
  documentation promises of malformed bytes, and of items within its default limits however wide
  their heads are written; \<open>ref_cbor\<close> is a codec built on the decoder of \<open>Cbor\<close> that satisfies
  all of them (\<open>ref_cbor_documented\<close>).
\<close>

section \<open>Dynamic values and decode options\<close>

text \<open>
  What a CBOR item becomes in an \<open>interface{}\<close>: \<open>uint64\<close>, \<open>int64\<close>, \<open>[]byte\<close>, \<open>string\<close>,
  \<open>bool\<close>, nil, or a value of some other type, which the program never inspects.
\<close>

datatype any =
    ANil | AUint64 u64 | AInt64 i64 | ABytes slice | AString string | ABool bool | AOther bytes

datatype DupMapKeyMode = DupMapKeyQuiet | DupMapKeyEnforcedAPF

record DecOptions =
  DupMapKey :: DupMapKeyMode

text \<open>The typed fields of a \<open>keyasint\<close> struct: the label and the Go type of each.\<close>

datatype field_kind = KInt64 | KBytes
datatype field_val = FInt64 i64 | FBytes slice

record cbor_lib =
  cbor_DecMode :: "DecOptions \<Rightarrow> string + DecOptions"
  Unmarshal_raws :: "DecOptions \<Rightarrow> slice \<Rightarrow> string + bytes list"
  Unmarshal_bytes :: "DecOptions \<Rightarrow> slice \<Rightarrow> string + slice"
  Unmarshal_map :: "DecOptions \<Rightarrow> slice \<Rightarrow> string + (any \<rightharpoonup> any)"
  Unmarshal_struct ::
    "DecOptions \<Rightarrow> (int \<times> field_kind) list \<Rightarrow> slice \<Rightarrow> string + (int \<rightharpoonup> field_val)"
  Marshal_array :: "any list \<Rightarrow> string + bytes"

section \<open>Documented behaviour\<close>

text \<open>The default limits: 32 nested levels, 131072 elements or pairs.\<close>

fun within :: "nat \<Rightarrow> cbor \<Rightarrow> bool" where
  "within d (CArr vs) = (0 < d \<and> length vs \<le> 131072 \<and> list_all (within (d - 1)) vs)"
| "within d (CMap kvs) =
     (0 < d \<and> length kvs \<le> 131072 \<and> list_all (\<lambda>(k, v). within (d - 1) k \<and> within (d - 1) v) kvs)"
| "within d _ = True"

definition item_ok :: "cbor \<Rightarrow> bool" where
  "item_ok v \<longleftrightarrow> wf_cbor v \<and> within 32 v"

fun any_of :: "cbor \<Rightarrow> any" where
  "any_of (CUint n) = AUint64 (of_nat n)"
| "any_of (CNint n) = (if n < 2 ^ 63 then AInt64 (of_int (- 1 - int n)) else AOther (enc (CNint n)))"
| "any_of (CBytes b) = ABytes (Some b)"
| "any_of (CText s) = AString s"
| "any_of (CBool b) = ABool b"
| "any_of CNull = ANil"
| "any_of v = AOther (enc v)"

text \<open>Map keys the program's formats use, and maps whose nested keys are such and unique.\<close>

fun scalar_key :: "cbor \<Rightarrow> bool" where
  "scalar_key (CUint n) = True"
| "scalar_key (CNint n) = (n < 2 ^ 63)"
| "scalar_key (CText s) = True"
| "scalar_key (CBool b) = True"
| "scalar_key _ = False"

definition scalar_keys :: "(cbor \<times> cbor) list \<Rightarrow> bool" where
  "scalar_keys kvs \<longleftrightarrow> list_all (\<lambda>(k, v). scalar_key k) kvs"

definition unique_keys :: "(cbor \<times> cbor) list \<Rightarrow> bool" where
  "unique_keys kvs \<longleftrightarrow> distinct (map fst kvs)"

fun nested_ok :: "cbor \<Rightarrow> bool" where
  "nested_ok (CArr vs) = list_all nested_ok vs"
| "nested_ok (CMap kvs) =
     (scalar_keys kvs \<and> unique_keys kvs \<and> list_all (\<lambda>(k, v). nested_ok v) kvs)"
| "nested_ok _ = True"

definition map_view :: "(cbor \<times> cbor) list \<Rightarrow> (any \<rightharpoonup> any)" where
  "map_view kvs = map_of (map (\<lambda>(k, v). (any_of k, any_of v)) kvs)"

text \<open>
  What an item becomes in a \<open>[]byte\<close>: a byte string is copied, null is nil, and an array is read
  element by element, each a number that fits a byte (null leaves the zero).
\<close>

fun byte_elem :: "cbor \<Rightarrow> u8 option" where
  "byte_elem (CUint n) = (if n < 256 then Some (of_nat n) else None)"
| "byte_elem CNull = Some 0"
| "byte_elem _ = None"

fun bytes_item :: "cbor \<Rightarrow> slice option" where
  "bytes_item (CBytes b) = Some (Some b)"
| "bytes_item CNull = Some None"
| "bytes_item (CArr vs) = map_option Some (those (map byte_elem vs))"
| "bytes_item _ = None"

text \<open>
  A \<open>keyasint\<close> struct: the keys that can name a field are text and the integers of \<open>int64\<close>.  The
  documentation does not say which label an unsigned key from \<open>2 ^ 63\<close> on stands for, so
  nothing is said of maps with such a key (\<open>wide_label\<close>).
\<close>

definition int_key :: "int \<Rightarrow> cbor" where
  "int_key l = (if 0 \<le> l then CUint (nat l) else CNint (nat (- 1 - l)))"

fun struct_key :: "cbor \<Rightarrow> bool" where
  "struct_key (CUint n) = (n < 2 ^ 63)"
| "struct_key (CNint n) = (n < 2 ^ 63)"
| "struct_key (CText s) = True"
| "struct_key _ = False"

definition struct_keys :: "(cbor \<times> cbor) list \<Rightarrow> bool" where
  "struct_keys kvs \<longleftrightarrow> list_all (\<lambda>(k, v). struct_key k) kvs"

fun wide_label :: "cbor \<Rightarrow> bool" where
  "wide_label (CUint n) = (2 ^ 63 \<le> n)"
| "wide_label _ = False"

text \<open>The integers that fit an \<open>int64\<close>.\<close>

fun int_item :: "cbor \<Rightarrow> i64 option" where
  "int_item (CUint n) = (if n < 2 ^ 63 then Some (of_nat n) else None)"
| "int_item (CNint n) = (if n < 2 ^ 63 then Some (of_int (- 1 - int n)) else None)"
| "int_item _ = None"

text \<open>A field takes a value of its type; null leaves it at its zero; anything else is an error.\<close>

definition field_of :: "field_kind \<Rightarrow> cbor \<Rightarrow> field_val option" where
  "field_of kind v =
     (case kind of
        KInt64 \<Rightarrow> map_option FInt64 (int_item v)
      | KBytes \<Rightarrow> map_option FBytes (bytes_item v))"

definition field_fits :: "field_kind \<Rightarrow> cbor \<Rightarrow> bool" where
  "field_fits kind v \<longleftrightarrow> v = CNull \<or> field_of kind v \<noteq> None"

definition struct_view ::
  "(int \<times> field_kind) list \<Rightarrow> (cbor \<times> cbor) list \<Rightarrow> (int \<rightharpoonup> field_val)" where
  "struct_view fs kvs = (\<lambda>l.
     case map_of fs l of None \<Rightarrow> None
     | Some kind \<Rightarrow> (case map_of kvs (int_key l) of None \<Rightarrow> None | Some v \<Rightarrow> field_of kind v))"

definition struct_fits :: "(int \<times> field_kind) list \<Rightarrow> (cbor \<times> cbor) list \<Rightarrow> bool" where
  "struct_fits fs kvs \<longleftrightarrow>
     list_all (\<lambda>(l, kind). case map_of kvs (int_key l) of None \<Rightarrow> True | Some v \<Rightarrow> field_fits kind v) fs"

text \<open>
  The laws.  Each speaks of input that is one item of \<open>Cbor\<close>, in any of its encodings and
  within the limits; the last of input that is no item: empty, cut short, or with bytes left over.
\<close>

definition fails :: "string + 'a \<Rightarrow> bool" where
  "fails r \<longleftrightarrow> (\<exists>e. r = Inl e)"

lemma fails_simps [simp]: "fails (Inl e)" "\<not> fails (Inr a)"
  by (simp_all add: fails_def)

definition decmode_law :: "cbor_lib \<Rightarrow> bool" where
  "decmode_law L \<longleftrightarrow> (\<forall>opts. cbor_DecMode L opts = Inr opts)"

definition raws_law :: "cbor_lib \<Rightarrow> bool" where
  "raws_law L \<longleftrightarrow> (\<forall>m s v. cbor_decode (content s) = Some v \<longrightarrow> item_ok v \<longrightarrow>
     (case v of
        CArr vs \<Rightarrow> (\<exists>h ps. content s = h @ concat ps \<and>
          list_all2 (\<lambda>p w. cbor_decode p = Some w) ps vs \<and> Unmarshal_raws L m s = Inr ps)
      | CNull \<Rightarrow> Unmarshal_raws L m s = Inr []
      | _ \<Rightarrow> fails (Unmarshal_raws L m s)))"

definition bytes_law :: "cbor_lib \<Rightarrow> bool" where
  "bytes_law L \<longleftrightarrow> (\<forall>m s v. cbor_decode (content s) = Some v \<longrightarrow> item_ok v \<longrightarrow>
     (case bytes_item v of
        Some b \<Rightarrow> Unmarshal_bytes L m s = Inr b
      | None \<Rightarrow> fails (Unmarshal_bytes L m s)))"

definition map_law :: "cbor_lib \<Rightarrow> bool" where
  "map_law L \<longleftrightarrow> (\<forall>m s v. cbor_decode (content s) = Some v \<longrightarrow> item_ok v \<longrightarrow>
     (case v of
        CMap kvs \<Rightarrow> scalar_keys kvs \<longrightarrow>
          (if unique_keys kvs
           then list_all (\<lambda>(k, w). nested_ok w) kvs \<longrightarrow> Unmarshal_map L m s = Inr (map_view kvs)
           else DupMapKey m = DupMapKeyEnforcedAPF \<longrightarrow> fails (Unmarshal_map L m s))
      | CNull \<Rightarrow> Unmarshal_map L m s = Inr Map.empty
      | _ \<Rightarrow> fails (Unmarshal_map L m s)))"

definition struct_law :: "cbor_lib \<Rightarrow> bool" where
  "struct_law L \<longleftrightarrow> (\<forall>m fs s v. cbor_decode (content s) = Some v \<longrightarrow> item_ok v \<longrightarrow>
     distinct (map fst fs) \<longrightarrow>
     (case v of
        CMap kvs \<Rightarrow> list_all (\<lambda>(k, w). \<not> wide_label k) kvs \<longrightarrow>
          (if \<not> struct_keys kvs then fails (Unmarshal_struct L m fs s)
           else if \<not> unique_keys kvs
           then DupMapKey m = DupMapKeyEnforcedAPF \<longrightarrow> fails (Unmarshal_struct L m fs s)
           else list_all (\<lambda>(k, w). nested_ok w) kvs \<longrightarrow>
             (if struct_fits fs kvs then Unmarshal_struct L m fs s = Inr (struct_view fs kvs)
              else fails (Unmarshal_struct L m fs s)))
      | CNull \<Rightarrow> Unmarshal_struct L m fs s = Inr Map.empty
      | _ \<Rightarrow> fails (Unmarshal_struct L m fs s)))"

definition syntax_law :: "cbor_lib \<Rightarrow> bool" where
  "syntax_law L \<longleftrightarrow> (\<forall>m fs s. malformed (content s) \<longrightarrow>
     fails (Unmarshal_raws L m s) \<and> fails (Unmarshal_bytes L m s) \<and>
     fails (Unmarshal_map L m s) \<and> fails (Unmarshal_struct L m fs s))"

fun item_of :: "any \<Rightarrow> cbor" where
  "item_of (ABytes (Some b)) = CBytes b"
| "item_of (AString s) = CText s"
| "item_of (ABool b) = CBool b"
| "item_of (AUint64 n) = CUint (unat n)"
| "item_of _ = CNull"

text \<open>Strings and byte slices are marshalled in shortest form, a nil slice as null.\<close>

fun plain_value :: "any \<Rightarrow> bool" where
  "plain_value (ABytes b) = True"
| "plain_value (AString s) = True"
| "plain_value _ = False"

definition marshal_law :: "cbor_lib \<Rightarrow> bool" where
  "marshal_law L \<longleftrightarrow> (\<forall>xs. list_all plain_value xs \<longrightarrow> wf_cbor (CArr (map item_of xs)) \<longrightarrow>
     Marshal_array L xs = Inr (enc (CArr (map item_of xs))))"

definition cbor_documented :: "cbor_lib \<Rightarrow> bool" where
  "cbor_documented L \<longleftrightarrow> decmode_law L \<and> raws_law L \<and> bytes_law L \<and> map_law L \<and>
     struct_law L \<and> syntax_law L \<and> marshal_law L"

section \<open>A codec that satisfies the laws\<close>

text \<open>Raw messages are cut out of the input verbatim.\<close>

fun raw_items :: "nat \<Rightarrow> nat \<Rightarrow> bytes \<Rightarrow> bytes list" where
  "raw_items f 0 bs = []"
| "raw_items f (Suc n) bs =
     (case dec f bs of
        None \<Rightarrow> []
      | Some (v, r) \<Rightarrow> take (length bs - length r) bs # raw_items f n r)"

definition ref_raws :: "DecOptions \<Rightarrow> slice \<Rightarrow> string + bytes list" where
  "ref_raws m s =
     (case cbor_decode (content s) of
        Some (CArr vs) \<Rightarrow>
          (case dec_head (content s) of
             Some (mt, n, rest) \<Rightarrow> Inr (raw_items (2 * len s) n rest)
           | None \<Rightarrow> Inl ''cbor: unexpected EOF'')
      | Some CNull \<Rightarrow> Inr []
      | _ \<Rightarrow> Inl ''cbor: cannot unmarshal into []cbor.RawMessage'')"

definition ref_bytes :: "DecOptions \<Rightarrow> slice \<Rightarrow> string + slice" where
  "ref_bytes m s =
     (case Option.bind (cbor_decode (content s)) bytes_item of
        Some b \<Rightarrow> Inr b
      | None \<Rightarrow> Inl ''cbor: cannot unmarshal into []byte'')"

definition ref_map :: "DecOptions \<Rightarrow> slice \<Rightarrow> string + (any \<rightharpoonup> any)" where
  "ref_map m s =
     (case cbor_decode (content s) of
        Some (CMap kvs) \<Rightarrow>
          if \<not> scalar_keys kvs then Inl ''cbor: invalid map key type''
          else if DupMapKey m = DupMapKeyEnforcedAPF \<and> \<not> unique_keys kvs
          then Inl ''cbor: found duplicate map key''
          else Inr (map_view kvs)
      | Some CNull \<Rightarrow> Inr Map.empty
      | _ \<Rightarrow> Inl ''cbor: cannot unmarshal into map'')"

definition ref_struct ::
  "DecOptions \<Rightarrow> (int \<times> field_kind) list \<Rightarrow> slice \<Rightarrow> string + (int \<rightharpoonup> field_val)" where
  "ref_struct m fs s =
     (case cbor_decode (content s) of
        Some (CMap kvs) \<Rightarrow>
          if \<not> struct_keys kvs then Inl ''cbor: map key cannot be used to match struct field name''
          else if DupMapKey m = DupMapKeyEnforcedAPF \<and> \<not> unique_keys kvs
          then Inl ''cbor: found duplicate map key''
          else if \<not> struct_fits fs kvs then Inl ''cbor: cannot unmarshal into struct field''
          else Inr (struct_view fs kvs)
      | Some CNull \<Rightarrow> Inr Map.empty
      | _ \<Rightarrow> Inl ''cbor: cannot unmarshal into struct'')"

definition ref_cbor :: cbor_lib where
  "ref_cbor = \<lparr>cbor_DecMode = Inr, Unmarshal_raws = ref_raws, Unmarshal_bytes = ref_bytes,
     Unmarshal_map = ref_map, Unmarshal_struct = ref_struct,
     Marshal_array = (\<lambda>xs. Inr (enc (CArr (map item_of xs))))\<rparr>"

lemma raw_items_encodes:
  "list_all2 encodes ps vs \<Longrightarrow> list_all (\<lambda>v. cost v \<le> f) vs \<Longrightarrow>
     raw_items f (length vs) (concat ps) = ps"
  by (induction rule: list_all2_induct) (simp_all add: encodes_def)

lemma cost_le_length: "list_all2 encodes ps vs \<Longrightarrow> list_all (\<lambda>v. cost v \<le> 2 * length (concat ps)) vs"
  by (induction rule: list_all2_induct) (auto simp: list_all_iff dest: cost_bound)

lemma ref_raws_array:
  assumes "cbor_decode (content s) = Some (CArr vs)"
  shows "\<exists>h ps. content s = h @ concat ps \<and> list_all2 (\<lambda>p w. cbor_decode p = Some w) ps vs \<and>
    ref_raws m s = Inr ps"
  using assms
proof (rule cbor_decode_array)
  fix h ps
  assume *: "content s = h @ concat ps" "list_all2 encodes ps vs"
    "\<And>r. dec_head (h @ r) = Some (4, length vs, r)"
  have "list_all (\<lambda>v. cost v \<le> 2 * len s) vs"
    using cost_le_length [OF *(2)] *(1) by (auto simp: list_all_iff len_def)
  then have "ref_raws m s = Inr ps"
    using assms * raw_items_encodes [OF *(2)] by (simp add: ref_raws_def)
  then show ?thesis
    using * by (auto simp: encodes_iff)
qed

lemma ref_cbor_documented: "cbor_documented ref_cbor"
proof -
  have "decmode_law ref_cbor" "marshal_law ref_cbor"
    by (simp_all add: decmode_law_def marshal_law_def ref_cbor_def)
  moreover have "raws_law ref_cbor"
    using ref_raws_array
    by (auto simp: raws_law_def ref_cbor_def split: cbor.splits) (auto simp: ref_raws_def)
  moreover have "bytes_law ref_cbor"
    by (auto simp: bytes_law_def ref_cbor_def ref_bytes_def split: option.splits)
  moreover have "map_law ref_cbor"
    by (auto simp: map_law_def ref_cbor_def ref_map_def split: cbor.splits)
  moreover have "struct_law ref_cbor"
    by (auto simp: struct_law_def ref_cbor_def ref_struct_def split: cbor.splits)
  moreover have "syntax_law ref_cbor"
    by (auto simp: syntax_law_def ref_cbor_def ref_raws_def ref_bytes_def ref_map_def ref_struct_def
        dest!: malformed_decode)
  ultimately show ?thesis
    by (simp add: cbor_documented_def)
qed

end
