(* ===== verification/Cose.thy ===== *)
theory Cose
  imports Cbor_Lib
begin

text \<open>
  Package \<^verbatim>\<open>internal/cose\<close>: decoding of the COSE_Sign1 and COSE_Key structures
  of a data signature, and the Sig_structure the signature is computed over.

  Every check and its order follow \<^verbatim>\<open>cose.go\<close>; the CBOR codec is the argument
  \<open>L\<close>.  The package's decode mode is a variable initialised once at program start by
  \<open>mustStrictDecMode\<close>; here it is the outcome \<open>strictDecMode L\<close>, consulted where the code
  uses the variable, so a failing initialisation shows as the panic it is.
\<close>

section \<open>Constants and records\<close>

definition algEdDSA :: i64 where "algEdDSA = - 8"
definition keyTypeOKP :: i64 where "keyTypeOKP = 1"
definition curveEd25519 :: i64 where "curveEd25519 = 6"

definition labelAlg :: u64 where "labelAlg = 1"
definition headerAddress :: string where "headerAddress = ''address''"
definition headerHashed :: string where "headerHashed = ''hashed''"

definition sigContextSignature1 :: string where "sigContextSignature1 = ''Signature1''"

definition ed25519KeySize :: nat where "ed25519KeySize = 32"
definition ed25519SigSize :: nat where "ed25519SigSize = 64"
definition coseSign1Len :: nat where "coseSign1Len = 4"

named_theorems cose_consts "the constants of package cose"

lemmas cose_const_defs [cose_consts] =
  algEdDSA_def keyTypeOKP_def curveEd25519_def labelAlg_def headerAddress_def headerHashed_def
  sigContextSignature1_def ed25519KeySize_def ed25519SigSize_def coseSign1Len_def

definition mustStrictDecMode :: "cbor_lib \<Rightarrow> DecOptions go" where
  "mustStrictDecMode L =
     (case cbor_DecMode L \<lparr>DupMapKey = DupMapKeyEnforcedAPF\<rparr> of
        Inl err \<Rightarrow> Panic (''cose: building strict CBOR decode mode: '' @ err)
      | Inr mode \<Rightarrow> Ok mode)"

definition strictDecMode :: "cbor_lib \<Rightarrow> DecOptions go" where
  "strictDecMode L = mustStrictDecMode L"

record Sign1 =
  s1_ProtectedRaw :: slice
  s1_Payload :: slice
  s1_Signature :: slice
  s1_Alg :: i64
  s1_Address :: slice
  s1_Hashed :: bool

record coseKey =
  Kty :: i64
  Alg :: i64
  Crv :: i64
  X :: slice

text \<open>The \<open>keyasint\<close> labels of the struct tags; a field the map lacks keeps its zero value.\<close>

definition coseKey_tags :: "(int \<times> field_kind) list" where
  "coseKey_tags = [(1, KInt64), (3, KInt64), (- 1, KInt64), (- 2, KBytes)]"

definition int64_field :: "field_val option \<Rightarrow> i64" where
  "int64_field v = (case v of Some (FInt64 n) \<Rightarrow> n | _ \<Rightarrow> 0)"

definition bytes_field :: "field_val option \<Rightarrow> slice" where
  "bytes_field v = (case v of Some (FBytes b) \<Rightarrow> b | _ \<Rightarrow> None)"

definition coseKey_of :: "(int \<rightharpoonup> field_val) \<Rightarrow> coseKey" where
  "coseKey_of m = \<lparr>Kty = int64_field (m 1), Alg = int64_field (m 3), Crv = int64_field (m (- 1)),
     X = bytes_field (m (- 2))\<rparr>"

section \<open>Decoding\<close>

text \<open>\<open>math.MaxInt64\<close> bounds what fits; the conversion keeps the bits.\<close>

definition asInt64 :: "any \<Rightarrow> i64 option" where
  "asInt64 v =
     (case v of
        AInt64 n \<Rightarrow> Some n
      | AUint64 n \<Rightarrow> if n > 9223372036854775807 then None else Some n
      | _ \<Rightarrow> None)"

definition map_index :: "(any \<rightharpoonup> any) \<Rightarrow> any \<Rightarrow> any" where
  "map_index m k = (case m k of None \<Rightarrow> ANil | Some v \<Rightarrow> v)"

definition decodeProtected :: "cbor_lib \<Rightarrow> slice \<Rightarrow> (i64 \<times> slice) go" where
  "decodeProtected L raw =
     obind (strictDecMode L) (\<lambda>mode.
     obind (of_sum (\<lambda>e. wrap (cose_error ErrInvalidProtected) (LibError e))
              (Unmarshal_map L mode raw)) (\<lambda>header.
     case asInt64 (map_index header (AUint64 labelAlg)) of
       None \<Rightarrow> Err (Errorf ''%w: missing or non-integer alg'' [ArgErr (cose_error ErrInvalidProtected)])
     | Some alg \<Rightarrow>
         (case header (AString headerAddress) of
            None \<Rightarrow> Ok (alg, None)
          | Some (ABytes b) \<Rightarrow> Ok (alg, b)
          | Some _ \<Rightarrow> Err (Errorf ''%w: address is not a byte string''
                          [ArgErr (cose_error ErrInvalidProtected)]))))"

definition decodeHashed :: "cbor_lib \<Rightarrow> slice \<Rightarrow> bool go" where
  "decodeHashed L raw =
     obind (strictDecMode L) (\<lambda>mode.
     obind (of_sum (\<lambda>e. wrap (cose_error ErrInvalidUnprotected) (LibError e))
              (Unmarshal_map L mode raw)) (\<lambda>header.
     case header (AString headerHashed) of
       None \<Rightarrow> Ok False
     | Some (ABool hashed) \<Rightarrow> Ok hashed
     | Some _ \<Rightarrow> Err (Errorf ''%w: %q is not a bool''
                     [ArgErr (cose_error ErrInvalidUnprotected), ArgStr headerHashed])))"

definition DecodeSign1 :: "cbor_lib \<Rightarrow> slice \<Rightarrow> Sign1 go" where
  "DecodeSign1 L data =
     obind (strictDecMode L) (\<lambda>mode.
     obind (of_sum (\<lambda>e. wrap (cose_error ErrInvalidSign1) (LibError e))
              (Unmarshal_raws L mode data)) (\<lambda>elements.
     if length elements \<noteq> coseSign1Len then
       Err (Errorf ''%w: got %d elements''
         [ArgErr (cose_error ErrInvalidSign1), ArgInt (int (length elements))])
     else
     obind (index elements 0) (\<lambda>element0.
     obind (of_sum (\<lambda>e. Errorf ''%w: protected header is not a byte string: %w''
                          [ArgErr (cose_error ErrInvalidProtected), ArgErr (LibError e)])
              (Unmarshal_bytes L mode (Some element0))) (\<lambda>protectedRaw.
     obind (decodeProtected L protectedRaw) (\<lambda>(alg, address).
     if alg \<noteq> algEdDSA then
       Err (Errorf ''%w: got %d'' [ArgErr (cose_error ErrUnsupportedAlg), ArgInt (sint alg)])
     else
     obind (index elements 1) (\<lambda>element1.
     obind (decodeHashed L (Some element1)) (\<lambda>hashed.
     obind (index elements 2) (\<lambda>element2.
     obind (of_sum (\<lambda>e. wrap (cose_error ErrInvalidPayload) (LibError e))
              (Unmarshal_bytes L mode (Some element2))) (\<lambda>payload.
     obind (index elements 3) (\<lambda>element3.
     obind (of_sum (\<lambda>e. wrap (cose_error ErrInvalidSignature) (LibError e))
              (Unmarshal_bytes L mode (Some element3))) (\<lambda>signature.
     if len signature \<noteq> ed25519SigSize then
       Err (Errorf ''%w: got %d bytes''
         [ArgErr (cose_error ErrInvalidSignatureLen), ArgInt (int (len signature))])
     else
       Ok \<lparr>s1_ProtectedRaw = protectedRaw, s1_Payload = payload, s1_Signature = signature,
           s1_Alg = alg, s1_Address = address, s1_Hashed = hashed\<rparr>)))))))))))"

definition DecodeKey :: "cbor_lib \<Rightarrow> slice \<Rightarrow> slice go" where
  "DecodeKey L data =
     obind (strictDecMode L) (\<lambda>mode.
     obind (of_sum (\<lambda>e. wrap (cose_error ErrInvalidKey) (LibError e))
              (Unmarshal_struct L mode coseKey_tags data)) (\<lambda>fs.
     let key = coseKey_of fs in
     if Kty key \<noteq> keyTypeOKP then
       Err (Errorf ''%w: got %d'' [ArgErr (cose_error ErrUnsupportedKeyType), ArgInt (sint (Kty key))])
     else if Alg key \<noteq> algEdDSA then
       Err (Errorf ''%w: got %d'' [ArgErr (cose_error ErrUnsupportedAlg), ArgInt (sint (Alg key))])
     else if Crv key \<noteq> curveEd25519 then
       Err (Errorf ''%w: got %d'' [ArgErr (cose_error ErrUnsupportedCurve), ArgInt (sint (Crv key))])
     else if len (X key) \<noteq> ed25519KeySize then
       Err (Errorf ''%w: got %d bytes''
         [ArgErr (cose_error ErrInvalidPublicKeyLen), ArgInt (int (len (X key)))])
     else Ok (X key)))"

definition SigStructure :: "cbor_lib \<Rightarrow> slice \<Rightarrow> slice \<Rightarrow> bytes go" where
  "SigStructure L protectedRaw payload =
     (let payload' = (if payload = None then Some [] else payload);
          structure = [AString sigContextSignature1, ABytes protectedRaw, ABytes (Some []),
                       ABytes payload']
      in of_sum (\<lambda>e. Errorf ''cose: marshalling Sig_structure: %w'' [ArgErr (LibError e)])
           (Marshal_array L structure))"

section \<open>Panic freedom and error classes\<close>

lemma strictDecMode_Ok:
  "decmode_law L \<Longrightarrow> strictDecMode L = Ok \<lparr>DupMapKey = DupMapKeyEnforcedAPF\<rparr>"
  by (simp add: strictDecMode_def mustStrictDecMode_def decmode_law_def)

lemma decodeProtected_no_panic: "decmode_law L \<Longrightarrow> no_panic (decodeProtected L raw)"
  by (auto simp: decodeProtected_def strictDecMode_Ok intro!: no_panic_obind
      split: option.splits any.splits)

lemma decodeHashed_no_panic: "decmode_law L \<Longrightarrow> no_panic (decodeHashed L raw)"
  by (auto simp: decodeHashed_def strictDecMode_Ok intro!: no_panic_obind
      split: option.splits any.splits)

lemma DecodeSign1_no_panic: "decmode_law L \<Longrightarrow> no_panic (DecodeSign1 L data)"
  by (auto simp: DecodeSign1_def strictDecMode_Ok decodeProtected_no_panic decodeHashed_no_panic
      index_def cose_consts intro!: no_panic_obind split: prod.splits)

lemma DecodeKey_no_panic: "decmode_law L \<Longrightarrow> no_panic (DecodeKey L data)"
  by (auto simp: DecodeKey_def strictDecMode_Ok Let_def intro!: no_panic_obind)

lemma SigStructure_no_panic: "no_panic (SigStructure L protectedRaw payload)"
  by (simp add: SigStructure_def Let_def)

lemma strictDecMode_not_Err: "strictDecMode L \<noteq> Err e"
  by (simp add: strictDecMode_def mustStrictDecMode_def split: sum.splits)

text \<open>The errors whose only sentinel is one of a set.\<close>

definition cose_class :: "cose_err set \<Rightarrow> goerror set" where
  "cose_class S = {e. \<exists>s \<in> S. set (sentinels e) = {CoseE s}}"

definition sign1_errors :: "cose_err set" where
  "sign1_errors = {ErrInvalidSign1, ErrInvalidProtected, ErrInvalidUnprotected, ErrUnsupportedAlg,
     ErrInvalidPayload, ErrInvalidSignature, ErrInvalidSignatureLen}"

definition key_errors :: "cose_err set" where
  "key_errors = {ErrInvalidKey, ErrUnsupportedKeyType, ErrUnsupportedAlg, ErrUnsupportedCurve,
     ErrInvalidPublicKeyLen}"

lemma strictDecMode_errs [simp]: "errs_in E (strictDecMode L)"
  by (cases "strictDecMode L") (simp_all add: strictDecMode_not_Err)

lemma decodeProtected_errs: "errs_in (cose_class {ErrInvalidProtected}) (decodeProtected L raw)"
  unfolding decodeProtected_def
  by (intro errs_intros strictDecMode_errs errs_in_of_sum)
    (auto simp: cose_class_def split: option.splits any.splits)

lemma decodeHashed_errs: "errs_in (cose_class {ErrInvalidUnprotected}) (decodeHashed L raw)"
  unfolding decodeHashed_def
  by (intro errs_intros strictDecMode_errs errs_in_of_sum)
    (auto simp: cose_class_def split: option.splits any.splits)

lemma cose_class_mono: "S \<subseteq> T \<Longrightarrow> cose_class S \<subseteq> cose_class T"
  by (auto simp: cose_class_def)

lemma DecodeSign1_errs: "errs_in (cose_class sign1_errors) (DecodeSign1 L data)"
  unfolding DecodeSign1_def
  by (intro errs_intros strictDecMode_errs errs_in_of_sum errs_in_index
      errs_in_mono [OF decodeProtected_errs cose_class_mono]
      errs_in_mono [OF decodeHashed_errs cose_class_mono])
    (simp_all add: cose_class_def sign1_errors_def)

lemma DecodeKey_errs: "errs_in (cose_class key_errors) (DecodeKey L data)"
  unfolding DecodeKey_def Let_def
  by (intro errs_intros strictDecMode_errs errs_in_of_sum)
    (simp_all add: cose_class_def key_errors_def)

lemma DecodeSign1_fails:
  "DecodeSign1 L data = Err e \<Longrightarrow> \<exists>s \<in> sign1_errors. set (sentinels e) = {CoseE s}"
  using errs_inD [OF DecodeSign1_errs] by (simp add: cose_class_def)

lemma DecodeKey_fails:
  "DecodeKey L data = Err e \<Longrightarrow> \<exists>s \<in> key_errors. set (sentinels e) = {CoseE s}"
  using errs_inD [OF DecodeKey_errs] by (simp add: cose_class_def)

text \<open>
  The interface the public package relies on: whatever is decoded, a failure carries exactly one
  of the sentinels announced for it, so wrapping it keeps the failure classified.
\<close>

locale cose_decoder =
  fixes decode :: "slice \<Rightarrow> 'a go"
    and classes :: "cose_err set"
  assumes typed: "decode d = Err e \<Longrightarrow> \<exists>c \<in> classes. set (sentinels e) = {CoseE c}"
begin

lemma total:
  "no_panic (decode d) \<Longrightarrow>
     (\<exists>x. decode d = Ok x) \<or> (\<exists>c \<in> classes. fails_with (decode d) {CoseE c})"
  using typed [of d] by (cases "decode d") auto

lemma wrapped_errs:
  "errs_in {e. \<exists>c \<in> classes. set (sentinels e) = {Cip30E s, CoseE c}}
     (map_err (wrap (cip30_error s)) (decode d))"
  using typed [of d] by (cases "decode d") auto

lemma wrapped_public:
  assumes "map_err (wrap (cip30_error s)) (decode d) = Err e"
  shows "{t. Cip30E t \<in> set (sentinels e)} = {s}"
  using typed [of d] assms by (auto simp: map_err_eq_Err)

end

interpretation sign1: cose_decoder "DecodeSign1 L" sign1_errors for L
  by unfold_locales (rule DecodeSign1_fails)

interpretation key: cose_decoder "DecodeKey L" key_errors for L
  by unfold_locales (rule DecodeKey_fails)

text \<open>C25. Every malformed structure is a typed error and never a panic: with the decode mode
  built, decoding a COSE_Sign1 or a COSE_Key either succeeds or fails with exactly one of that
  structure's own sentinels.\<close>

theorem cose_decoding_total:
  assumes "decmode_law L"
  shows "((\<exists>s. DecodeSign1 L data = Ok s) \<or>
      (\<exists>e \<in> sign1_errors. fails_with (DecodeSign1 L data) {CoseE e})) \<and>
    ((\<exists>k. DecodeKey L data = Ok k) \<or>
      (\<exists>e \<in> key_errors. fails_with (DecodeKey L data) {CoseE e}))"
  using sign1.total [OF DecodeSign1_no_panic [OF assms]] key.total [OF DecodeKey_no_panic [OF assms]]
  by simp

theorem cose_decoding_total_witness:
  "((\<exists>s. DecodeSign1 ref_cbor None = Ok s) \<or>
      (\<exists>e. e \<in> sign1_errors \<and> fails_with (DecodeSign1 ref_cbor None) {CoseE e})) \<and>
   ((\<exists>k. DecodeKey ref_cbor None = Ok k) \<or>
      (\<exists>e. e \<in> key_errors \<and> fails_with (DecodeKey ref_cbor None) {CoseE e}))"
  using cose_decoding_total [of ref_cbor None] ref_cbor_documented
  by (auto simp: cbor_documented_def)

section \<open>What a successful decode means\<close>

text \<open>C26. The integer normalisation never wraps: it accepts every signed value and exactly the
  unsigned values up to the largest \<open>int64\<close>, and the number keeps its value.\<close>

theorem asInt64_exact:
  "asInt64 v = Some n \<longleftrightarrow>
     v = AInt64 n \<or> (\<exists>u. v = AUint64 u \<and> uint u < 2 ^ 63 \<and> sint n = uint u)"
proof (cases v)
  case (AUint64 u)
  have small: "\<not> u > 9223372036854775807 \<longleftrightarrow> uint u < 2 ^ 63"
    by (simp add: word_less_def not_less) linarith
  have sint: "sint u = uint u" if "uint u < 2 ^ 63"
  proof -
    have "- (2 ^ 63) \<le> uint u"
      by (rule order_trans [OF _ uint_ge_0]) simp
    with that show ?thesis
      by (simp add: sint_uint signed_take_bit_int_eq_self_iff)
  qed
  have eq: "sint n = uint u \<longleftrightarrow> n = u" if "uint u < 2 ^ 63"
    using sint [OF that] by (metis word_eq_iff_signed)
  show ?thesis
    using AUint64 small eq by (auto simp: asInt64_def)
qed (auto simp: asInt64_def)

lemma decodeProtected_OkD:
  assumes "decodeProtected L raw = Ok (alg, address)"
  obtains mode header where
    "strictDecMode L = Ok mode" "Unmarshal_map L mode raw = Inr header"
    "asInt64 (map_index header (AUint64 labelAlg)) = Some alg"
    "header (AString headerAddress) = None \<and> address = None \<or>
     header (AString headerAddress) = Some (ABytes address)"
  using assms unfolding decodeProtected_def
  by (auto elim!: obind_OkE simp: of_sum_eq_Ok split: option.splits any.splits)

lemma DecodeSign1_eq_Ok:
  "DecodeSign1 L data = Ok s \<longleftrightarrow> (\<exists>mode e0 e1 e2 e3.
     strictDecMode L = Ok mode \<and> Unmarshal_raws L mode data = Inr [e0, e1, e2, e3] \<and>
     Unmarshal_bytes L mode (Some e0) = Inr (s1_ProtectedRaw s) \<and>
     decodeProtected L (s1_ProtectedRaw s) = Ok (s1_Alg s, s1_Address s) \<and> s1_Alg s = algEdDSA \<and>
     decodeHashed L (Some e1) = Ok (s1_Hashed s) \<and>
     Unmarshal_bytes L mode (Some e2) = Inr (s1_Payload s) \<and>
     Unmarshal_bytes L mode (Some e3) = Inr (s1_Signature s) \<and> len (s1_Signature s) = 64)"
  (is "?lhs \<longleftrightarrow> ?rhs")
proof
  assume ?lhs
  then obtain mode es where *: "strictDecMode L = Ok mode" "Unmarshal_raws L mode data = Inr es"
      "length es = 4"
    unfolding DecodeSign1_def by (auto elim!: obind_OkE simp: of_sum_eq_Ok cose_consts split: if_splits)
  then obtain e0 e1 e2 e3 where "es = [e0, e1, e2, e3]"
    by (auto simp: length_eq_4_conv)
  with * \<open>?lhs\<close> show ?rhs
    unfolding DecodeSign1_def
    by (auto elim!: obind_OkE simp: of_sum_eq_Ok cose_consts index_def split: if_splits prod.splits)
next
  assume ?rhs
  then show ?lhs
    by (cases s) (auto simp: DecodeSign1_def cose_consts index_def)
qed

lemma DecodeSign1_lens:
  assumes "DecodeSign1 L data = Ok s"
  shows "len (s1_Signature s) = 64" "s1_Alg s = algEdDSA"
  using assms by (auto simp: DecodeSign1_eq_Ok)

lemma DecodeKey_eq_Ok:
  "DecodeKey L data = Ok k \<longleftrightarrow> (\<exists>mode m.
     strictDecMode L = Ok mode \<and> Unmarshal_struct L mode coseKey_tags data = Inr m \<and>
     m 1 = Some (FInt64 1) \<and> m 3 = Some (FInt64 (- 8)) \<and> m (- 1) = Some (FInt64 6) \<and>
     m (- 2) = Some (FBytes k) \<and> len k = 32)"
proof -
  have int: "int64_field v = n \<longleftrightarrow> v = Some (FInt64 n)" if "n \<noteq> 0" for v n
    using that by (auto simp: int64_field_def split: option.splits field_val.splits)
  have bytes: "bytes_field v = k \<and> len k = 32 \<longleftrightarrow> v = Some (FBytes k) \<and> len k = 32" for v
    by (auto simp: bytes_field_def split: option.splits field_val.splits)
  have "DecodeKey L data = Ok k \<longleftrightarrow> (\<exists>mode m.
     strictDecMode L = Ok mode \<and> Unmarshal_struct L mode coseKey_tags data = Inr m \<and>
     int64_field (m 1) = 1 \<and> int64_field (m 3) = - 8 \<and> int64_field (m (- 1)) = 6 \<and>
     bytes_field (m (- 2)) = k \<and> len k = 32)"
    unfolding DecodeKey_def Let_def coseKey_of_def
    by (auto elim!: obind_OkE simp: of_sum_eq_Ok cose_consts split: if_splits)
  then show ?thesis
    by (simp add: int bytes)
qed

text \<open>C39. A COSE_Key yields a key exactly when it decodes with OKP, EdDSA and Ed25519 at the labels
  1, 3 and -1, and then the key is the 32 bytes at label -2.\<close>

theorem DecodeKey_Ok_iff:
  "DecodeKey L data = Ok k \<longleftrightarrow> (\<exists>mode m.
     strictDecMode L = Ok mode \<and> Unmarshal_struct L mode coseKey_tags data = Inr m \<and>
     m 1 = Some (FInt64 1) \<and> m 3 = Some (FInt64 (- 8)) \<and> m (- 1) = Some (FInt64 6) \<and>
     m (- 2) = Some (FBytes k) \<and> len k = 32)"
  by (rule DecodeKey_eq_Ok)

lemma DecodeKey_len: "DecodeKey L data = Ok k \<Longrightarrow> len k = 32"
  by (auto simp: DecodeKey_eq_Ok)

end
