(* ===== verification/Vectors.thy ===== *)
theory Vectors
  imports Cbor_Lib
begin

text \<open>
  The primary test vector of \<^verbatim>\<open>internal/cose/cose_test.go\<close>, a data signature made by a
  wallet: its bytes, and the items the decoder of \<open>Cbor\<close> reads in them.
\<close>

definition vector_address :: bytes where
  "vector_address =
    [0xE1, 0x18, 0x98, 0x7C, 0x16, 0x12, 0x06, 0x9D, 0x40, 0x80, 0xA0, 0xEB, 0x24, 0x78,
     0x20, 0xCB, 0x98, 0x7F, 0xEA, 0x81, 0xBD, 0xDE, 0xAA, 0xFD, 0xD4, 0x1F, 0x99, 0x62,
     0x81]"

definition vector_protected :: bytes where
  "vector_protected =
    [0xA2, 0x01, 0x27, 0x67] @ bytes_of_string ''address'' @ [0x58, 0x1D] @ vector_address"

definition vector_payload :: bytes where
  "vector_payload = bytes_of_string ''Augusta Ada King, Countess of Lovelace''"

definition vector_signature :: bytes where
  "vector_signature =
    [0x17, 0x12, 0x45, 0x8B, 0x19, 0xF6, 0x06, 0xB3, 0x22, 0x98, 0x2F, 0x62, 0x90, 0xC7,
     0x85, 0x29, 0xA2, 0x35, 0xB5, 0x6C, 0x0F, 0x1C, 0xEC, 0x4F, 0x24, 0xB1, 0x2A, 0x86,
     0x60, 0xB4, 0x0C, 0xD3, 0x7F, 0x4C, 0x54, 0x40, 0xA4, 0x65, 0x75, 0x40, 0x89, 0xC4,
     0x62, 0xED, 0x4B, 0x0D, 0x61, 0x3B, 0xFF, 0xAE, 0xE3, 0xD1, 0x83, 0x35, 0x16, 0x56,
     0x9F, 0xDA, 0x48, 0x52, 0xF4, 0x2A, 0x4A, 0x0F]"

definition vector_sign1 :: bytes where
  "vector_sign1 =
    [0x84, 0x58, 0x2A] @ vector_protected @
    [0xA1, 0x66] @ bytes_of_string ''hashed'' @ [0xF4] @
    [0x58, 0x26] @ vector_payload @ [0x58, 0x40] @ vector_signature"

definition vector_x :: bytes where
  "vector_x =
    [0xB8, 0x95, 0x26, 0xFD, 0x6B, 0xF4, 0xBA, 0x73, 0x7C, 0x55, 0xEA, 0x90, 0x67, 0x0D,
     0x16, 0xA2, 0x7F, 0x8D, 0xE6, 0xCC, 0x19, 0x82, 0x34, 0x9B, 0x3B, 0x67, 0x67, 0x05,
     0xA2, 0xF4, 0x20, 0xC6]"

definition vector_key :: bytes where
  "vector_key = [0xA4, 0x01, 0x01, 0x03, 0x27, 0x20, 0x06, 0x21, 0x58, 0x20] @ vector_x"

definition vector_header :: cbor where
  "vector_header = CMap [(CUint 1, CNint 7), (CText ''address'', CBytes vector_address)]"

definition vector_flags :: cbor where
  "vector_flags = CMap [(CText ''hashed'', CBool False)]"

lemma vector_sign1_decode:
  "cbor_decode vector_sign1 =
     Some (CArr [CBytes vector_protected, vector_flags, CBytes vector_payload, CBytes vector_signature])"
  by code_simp

lemma vector_header_decode: "cbor_decode vector_protected = Some vector_header"
  by code_simp

lemma vector_key_decode:
  "cbor_decode vector_key =
     Some (CMap [(CUint 1, CUint 1), (CUint 3, CNint 7), (CNint 0, CUint 6), (CNint 1, CBytes vector_x)])"
  by code_simp

lemma vector_lengths [simp]:
  "length vector_address = 29" "length vector_protected = 42" "length vector_payload = 38"
  "length vector_signature = 64" "length vector_x = 32"
  by code_simp+

end
