(* ===== verification/Cose_Wire.thy ===== *)
theory Cose_Wire
  imports Cose Vectors
begin

text \<open>
  Package \<^verbatim>\<open>internal/cose\<close> on the wire: what its decoders return on bytes, valid or
  not, when the codec behaves as documented, against reference readings of the bytes that mention
  neither the codec nor Go values (\<open>sign1_spec\<close>, \<open>key_spec\<close>), and the bytes
  \<open>SigStructure\<close> signs.

  The statements cover malformed bytes (empty, cut short, followed by something) and every item of
  \<open>Cbor\<close>, in shortest form or not, within the codec's limits.  Of header maps with other keys than
  numbers, text and booleans, of nested maps with such or repeated keys, and of keys with an
  unsigned label from \<open>2 ^ 63\<close> on they say nothing (\<open>sign1_wire\<close>, \<open>key_wire\<close>).
\<close>

section \<open>Reading a header map\<close>

abbreviation strict_mode :: DecOptions where
  "strict_mode \<equiv> \<lparr>DupMapKey = DupMapKeyEnforcedAPF\<rparr>"

text \<open>A map item is a finite map when no key is repeated; null reads as the empty map.\<close>

fun header_map :: "cbor \<Rightarrow> (cbor \<rightharpoonup> cbor) option" where
  "header_map (CMap kvs) = (if unique_keys kvs then Some (map_of kvs) else None)"
| "header_map CNull = Some Map.empty"
| "header_map _ = None"

text \<open>Items within the codec's limits, not maps unless with scalar keys.\<close>

definition map_ok :: "cbor \<Rightarrow> bool" where
  "map_ok v \<longleftrightarrow> item_ok v \<and>
     (case v of CMap kvs \<Rightarrow> scalar_keys kvs \<and> list_all (\<lambda>(k, w). nested_ok w) kvs | _ \<Rightarrow> True)"

lemma any_of_scalar_inj:
  assumes "scalar_key k" "scalar_key l" "wf_cbor k" "wf_cbor l" "any_of k = any_of l"
  shows "k = l"
proof -
  have nat: "(of_nat m :: u64) = of_nat n \<longleftrightarrow> m = n" if "m < 2 ^ 64" "n < 2 ^ 64" for m n
  proof -
    have "unat (of_nat m :: u64) = m" "unat (of_nat n :: u64) = n"
      using that by (simp_all add: unat_of_nat)
    then show ?thesis
      by metis
  qed
  have neg: "(of_int (- 1 - int m) :: i64) = of_int (- 1 - int n) \<longleftrightarrow> m = n"
    if "m < 2 ^ 64" "n < 2 ^ 64" for m n
    using nat [OF that] by simp
  show ?thesis
    using assms by (cases k; cases l) (simp_all add: nat neg)
qed

lemma map_view_lookup:
  assumes "scalar_keys kvs" "list_all (\<lambda>(k, w). wf_cbor k) kvs" "scalar_key k" "wf_cbor k"
  shows "map_view kvs (any_of k) = map_option any_of (map_of kvs k)"
  using assms by (induction kvs) (auto simp: map_view_def scalar_keys_def dest: any_of_scalar_inj)

lemma asInt64_any_of:
  assumes "wf_cbor v"
  shows "asInt64 (any_of v) = int_item v"
proof (cases v)
  case (CUint n)
  have "(of_nat n :: u64) > 9223372036854775807 \<longleftrightarrow> \<not> n < 2 ^ 63"
    using assms CUint by (simp add: word_less_nat_alt unat_of_nat) linarith
  then show ?thesis
    using CUint by (simp add: asInt64_def)
qed (simp_all add: asInt64_def)

lemma header_map_Unmarshal:
  assumes "map_law L" "cbor_decode (content s) = Some v" "map_ok v"
  shows "case header_map v of
      None \<Rightarrow> fails (Unmarshal_map L strict_mode s)
    | Some m \<Rightarrow> \<exists>M. Unmarshal_map L strict_mode s = Inr M \<and>
        (\<forall>k. scalar_key k \<longrightarrow> wf_cbor k \<longrightarrow> M (any_of k) = map_option any_of (m k))"
proof -
  have item: "item_ok v"
    using assms(3) by (simp add: map_ok_def)
  note law = assms(1) [unfolded map_law_def, rule_format, OF assms(2) item, of strict_mode]
  show ?thesis
  proof (cases v)
    case (CMap kvs)
    then have "list_all (\<lambda>(k, w). wf_cbor k) kvs" "scalar_keys kvs"
      using assms(3) by (auto simp: map_ok_def item_ok_def list_all_iff)
    then show ?thesis
      using law CMap assms(3) map_view_lookup [of kvs] by (auto simp: map_ok_def)
  qed (use law in simp_all)
qed

lemma header_map_wf:
  assumes "map_ok v" "header_map v = Some m" "m k = Some w"
  shows "wf_cbor w"
  using assms by (cases v) (auto simp: map_ok_def item_ok_def list_all_iff split: if_splits dest!: map_of_SomeD)

section \<open>The reference reading of a COSE_Sign1\<close>

text \<open>The bytes of a header: a header that is no item at all has no reading.\<close>

definition header_reading :: "slice \<Rightarrow> (cbor \<rightharpoonup> cbor) option" where
  "header_reading raw = Option.bind (cbor_decode (content raw)) header_map"

definition protected_spec :: "slice \<Rightarrow> cose_err + (i64 \<times> slice)" where
  "protected_spec raw =
     (case header_reading raw of
        None \<Rightarrow> Inl ErrInvalidProtected
      | Some m \<Rightarrow>
          (case Option.bind (m (CUint 1)) int_item of
             None \<Rightarrow> Inl ErrInvalidProtected
           | Some alg \<Rightarrow>
               (case m (CText ''address'') of
                  None \<Rightarrow> Inr (alg, None)
                | Some (CBytes b) \<Rightarrow> Inr (alg, Some b)
                | Some _ \<Rightarrow> Inl ErrInvalidProtected)))"

definition hashed_spec :: "cbor \<Rightarrow> cose_err + bool" where
  "hashed_spec u =
     (case header_map u of
        None \<Rightarrow> Inl ErrInvalidUnprotected
      | Some m \<Rightarrow>
          (case m (CText ''hashed'') of
             None \<Rightarrow> Inr False
           | Some (CBool b) \<Rightarrow> Inr b
           | Some _ \<Rightarrow> Inl ErrInvalidUnprotected))"

definition elements_spec :: "cbor \<Rightarrow> cbor \<Rightarrow> cbor \<Rightarrow> cbor \<Rightarrow> cose_err + Sign1" where
  "elements_spec e0 e1 e2 e3 =
     (case bytes_item e0 of
        None \<Rightarrow> Inl ErrInvalidProtected
      | Some raw \<Rightarrow>
     (case protected_spec raw of
        Inl e \<Rightarrow> Inl e
      | Inr (alg, address) \<Rightarrow>
     if alg \<noteq> - 8 then Inl ErrUnsupportedAlg
     else (case hashed_spec e1 of
        Inl e \<Rightarrow> Inl e
      | Inr hashed \<Rightarrow>
     (case bytes_item e2 of
        None \<Rightarrow> Inl ErrInvalidPayload
      | Some payload \<Rightarrow>
     (case bytes_item e3 of
        None \<Rightarrow> Inl ErrInvalidSignature
      | Some sig \<Rightarrow>
     if len sig \<noteq> 64 then Inl ErrInvalidSignatureLen
     else Inr \<lparr>s1_ProtectedRaw = raw, s1_Payload = payload, s1_Signature = sig, s1_Alg = alg,
            s1_Address = address, s1_Hashed = hashed\<rparr>)))))"

definition sign1_spec :: "bytes \<Rightarrow> cose_err + Sign1" where
  "sign1_spec b =
     (case cbor_decode b of
        Some (CArr [e0, e1, e2, e3]) \<Rightarrow> elements_spec e0 e1 e2 e3
      | _ \<Rightarrow> Inl ErrInvalidSign1)"

text \<open>\<open>agrees m r\<close>: the call \<open>m\<close> has the reference result \<open>r\<close>, errors compared by sentinel.\<close>

definition agrees :: "'a go \<Rightarrow> cose_err + 'a \<Rightarrow> bool" where
  "agrees m r = (case r of Inr a \<Rightarrow> m = Ok a | Inl e \<Rightarrow> fails_with m {CoseE e})"

lemma agrees_simps [simp]:
  "agrees m (Inr a) \<longleftrightarrow> m = Ok a" "agrees m (Inl e) \<longleftrightarrow> fails_with m {CoseE e}"
  by (simp_all add: agrees_def)

text \<open>A refused unmarshal is the caller's error.\<close>

lemma fails_of_sum:
  assumes "fails r" "\<And>e. set (sentinels (g e)) = {s}"
  shows "fails_with (obind (of_sum g r) f) {s}"
  using assms by (auto simp: fails_def)

definition header_bytes_ok :: "bytes \<Rightarrow> bool" where
  "header_bytes_ok b \<longleftrightarrow> malformed b \<or> (\<exists>h. cbor_decode b = Some h \<and> map_ok h)"

lemma decodeProtected_wire:
  assumes "decmode_law L" "map_law L" "syntax_law L" "header_bytes_ok (content raw)"
  shows "agrees (decodeProtected L raw) (protected_spec raw)"
proof (cases "header_reading raw")
  case None
  have "fails (Unmarshal_map L strict_mode raw)"
    using assms(4) unfolding header_bytes_ok_def
  proof
    assume "malformed (content raw)"
    then show ?thesis
      using assms(3) by (simp add: syntax_law_def)
  next
    assume "\<exists>h. cbor_decode (content raw) = Some h \<and> map_ok h"
    then show ?thesis
      using header_map_Unmarshal [OF assms(2)] None by (fastforce simp: header_reading_def)
  qed
  then show ?thesis
    using None
    by (auto simp: decodeProtected_def strictDecMode_Ok [OF assms(1)] protected_spec_def
        intro!: fails_of_sum)
next
  case (Some m)
  then obtain h where h: "cbor_decode (content raw) = Some h" "map_ok h" "header_map h = Some m"
    using assms(4) malformed_decode
    by (fastforce simp: header_bytes_ok_def header_reading_def bind_eq_Some_conv)
  then obtain M where M: "Unmarshal_map L strict_mode raw = Inr M"
      "\<And>k. scalar_key k \<Longrightarrow> wf_cbor k \<Longrightarrow> M (any_of k) = map_option any_of (m k)"
    using header_map_Unmarshal [OF assms(2) h(1,2)] by auto
  have alg: "asInt64 (map_index M (AUint64 labelAlg)) = Option.bind (m (CUint 1)) int_item"
    using M(2) [of "CUint 1"] header_map_wf [OF h(2,3), of "CUint 1"]
    by (cases "m (CUint 1)") (auto simp: map_index_def labelAlg_def asInt64_any_of, simp add: asInt64_def)
  have address: "M (AString headerAddress) = map_option any_of (m (CText ''address''))"
    using M(2) [of "CText ''address''"] by (simp add: headerAddress_def)
  show ?thesis
    by (auto simp: decodeProtected_def strictDecMode_Ok [OF assms(1)] protected_spec_def M(1) Some alg
        address split: option.split cbor.split if_split)
qed

lemma decodeHashed_wire:
  assumes "decmode_law L" "map_law L" "cbor_decode (content s) = Some u" "map_ok u"
  shows "agrees (decodeHashed L s) (hashed_spec u)"
proof (cases "header_map u")
  case None
  then show ?thesis
    using header_map_Unmarshal [OF assms(2-4)]
    by (auto simp: decodeHashed_def strictDecMode_Ok [OF assms(1)] hashed_spec_def intro!: fails_of_sum)
next
  case (Some m)
  then obtain M where M: "Unmarshal_map L strict_mode s = Inr M"
      "\<And>k. scalar_key k \<Longrightarrow> wf_cbor k \<Longrightarrow> M (any_of k) = map_option any_of (m k)"
    using header_map_Unmarshal [OF assms(2-4)] by auto
  have hashed: "M (AString headerHashed) = map_option any_of (m (CText ''hashed''))"
    using M(2) [of "CText ''hashed''"] by (simp add: headerHashed_def)
  show ?thesis
    by (auto simp: decodeHashed_def strictDecMode_Ok [OF assms(1)] hashed_spec_def M(1) Some
        hashed split: option.split cbor.split if_split)
qed

lemma bytes_item_Unmarshal:
  assumes "bytes_law L" "cbor_decode p = Some v" "item_ok v"
  shows "case bytes_item v of
      None \<Rightarrow> fails (Unmarshal_bytes L strict_mode (Some p))
    | Some b \<Rightarrow> Unmarshal_bytes L strict_mode (Some p) = Inr b"
  using assms by (auto simp: bytes_law_def)

lemma index4 [simp]:
  "index [a, b, c, d] 0 = Ok a" "index [a, b, c, d] 1 = Ok b"
  "index [a, b, c, d] 2 = Ok c" "index [a, b, c, d] 3 = Ok d"
  by (simp_all add: index_def)

text \<open>The bytes the statement is about.\<close>

definition elements_ok :: "cbor \<Rightarrow> cbor \<Rightarrow> bool" where
  "elements_ok e0 e1 \<longleftrightarrow> map_ok e1 \<and>
     (case bytes_item e0 of None \<Rightarrow> True | Some raw \<Rightarrow> header_bytes_ok (content raw))"

definition sign1_wire :: "bytes \<Rightarrow> bool" where
  "sign1_wire b \<longleftrightarrow> malformed b \<or>
     (\<exists>v. cbor_decode b = Some v \<and> item_ok v \<and>
        (case v of CArr [e0, e1, e2, e3] \<Rightarrow> elements_ok e0 e1 | _ \<Rightarrow> True))"

lemma within_mono: "within d v \<Longrightarrow> d \<le> e \<Longrightarrow> within e v"
proof (induction d v arbitrary: e rule: within.induct)
  case (1 d vs)
  then show ?case
    by (auto simp: list_all_iff intro!: "1.IH")
next
  case (2 d kvs)
  then show ?case
    by (fastforce simp: list_all_iff)
qed simp_all

lemma item_ok_element: "item_ok (CArr vs) \<Longrightarrow> v \<in> set vs \<Longrightarrow> item_ok v"
  using within_mono [of 31 v 32] by (auto simp: item_ok_def list_all_iff)

lemma DecodeSign1_elements:
  assumes "decmode_law L" "raws_law L" "cbor_decode (content data) = Some (CArr [e0, e1, e2, e3])"
    and "item_ok (CArr [e0, e1, e2, e3])"
  obtains p0 p1 p2 p3 where
    "cbor_decode p0 = Some e0" "cbor_decode p1 = Some e1" "cbor_decode p2 = Some e2"
    "cbor_decode p3 = Some e3"
    "DecodeSign1 L data =
      obind (of_sum (\<lambda>e. Errorf ''%w: protected header is not a byte string: %w''
                           [ArgErr (cose_error ErrInvalidProtected), ArgErr (LibError e)])
               (Unmarshal_bytes L strict_mode (Some p0))) (\<lambda>raw.
      obind (decodeProtected L raw) (\<lambda>(alg, address).
      if alg \<noteq> algEdDSA then
        Err (Errorf ''%w: got %d'' [ArgErr (cose_error ErrUnsupportedAlg), ArgInt (sint alg)])
      else obind (decodeHashed L (Some p1)) (\<lambda>hashed.
      obind (of_sum (\<lambda>e. wrap (cose_error ErrInvalidPayload) (LibError e))
               (Unmarshal_bytes L strict_mode (Some p2))) (\<lambda>payload.
      obind (of_sum (\<lambda>e. wrap (cose_error ErrInvalidSignature) (LibError e))
               (Unmarshal_bytes L strict_mode (Some p3))) (\<lambda>signature.
      if len signature \<noteq> ed25519SigSize then
        Err (Errorf ''%w: got %d bytes''
          [ArgErr (cose_error ErrInvalidSignatureLen), ArgInt (int (len signature))])
      else Ok \<lparr>s1_ProtectedRaw = raw, s1_Payload = payload, s1_Signature = signature,
            s1_Alg = alg, s1_Address = address, s1_Hashed = hashed\<rparr>)))))"
proof -
  obtain ps where ps: "list_all2 (\<lambda>p w. cbor_decode p = Some w) ps [e0, e1, e2, e3]"
      "Unmarshal_raws L strict_mode data = Inr ps"
    using assms(2) [unfolded raws_law_def, rule_format, OF assms(3,4), of strict_mode] by auto
  then obtain p0 p1 p2 p3 where p: "ps = [p0, p1, p2, p3]" "cbor_decode p0 = Some e0"
      "cbor_decode p1 = Some e1" "cbor_decode p2 = Some e2" "cbor_decode p3 = Some e3"
    by (auto simp: list_all2_Cons2)
  show ?thesis
    by (rule that [OF p(2-5)])
      (simp add: DecodeSign1_def strictDecMode_Ok [OF assms(1)] ps(2) p(1) coseSign1Len_def
        index4 [simplified] cong: if_cong)
qed

lemma DecodeSign1_not_four:
  assumes "decmode_law L" "raws_law L" "cbor_decode (content data) = Some v" "item_ok v"
    and "\<And>e0 e1 e2 e3. v \<noteq> CArr [e0, e1, e2, e3]"
  shows "fails_with (DecodeSign1 L data) {CoseE ErrInvalidSign1}"
proof -
  note raws = assms(2) [unfolded raws_law_def, rule_format, OF assms(3,4), of strict_mode]
  have "fails (Unmarshal_raws L strict_mode data) \<or>
      (\<exists>ps. Unmarshal_raws L strict_mode data = Inr ps \<and> length ps \<noteq> 4)"
  proof (cases v)
    case (CArr vs)
    then have "length vs \<noteq> 4"
      using assms(5) by (auto simp: length_eq_4_conv)
    then show ?thesis
      using raws CArr by (auto dest: list_all2_lengthD)
  qed (use raws in auto)
  then show ?thesis
    by (auto simp: DecodeSign1_def strictDecMode_Ok [OF assms(1)] coseSign1Len_def fails_def)
qed

lemma agrees_bind:
  assumes "agrees m r" "\<And>a. r = Inr a \<Longrightarrow> agrees (f a) (g a)"
  shows "agrees (obind m f) (case r of Inl e \<Rightarrow> Inl e | Inr a \<Rightarrow> g a)"
  using assms by (cases r) (simp_all add: fails_with_obind)

lemma agrees_bytes:
  assumes "bytes_law L" "cbor_decode p = Some v" "item_ok v"
    and "\<And>e. set (sentinels (w e)) = {CoseE s}" "\<And>b. bytes_item v = Some b \<Longrightarrow> agrees (f b) (g b)"
  shows "agrees (obind (of_sum w (Unmarshal_bytes L strict_mode (Some p))) f)
    (case bytes_item v of None \<Rightarrow> Inl s | Some b \<Rightarrow> g b)"
  using bytes_item_Unmarshal [OF assms(1-3)] assms(4,5)
  by (cases "bytes_item v") (auto intro!: fails_of_sum)

lemma DecodeSign1_agrees:
  assumes "cbor_documented L" "sign1_wire (content data)"
  shows "agrees (DecodeSign1 L data) (sign1_spec (content data))"
proof -
  have laws: "decmode_law L" "raws_law L" "bytes_law L" "map_law L" "syntax_law L"
    using assms(1) by (simp_all add: cbor_documented_def)
  consider (malformed) "malformed (content data)"
    | (four) e0 e1 e2 e3 where "cbor_decode (content data) = Some (CArr [e0, e1, e2, e3])"
        "item_ok (CArr [e0, e1, e2, e3])" "elements_ok e0 e1"
    | (other) v where "cbor_decode (content data) = Some v" "item_ok v"
        "\<And>e0 e1 e2 e3. v \<noteq> CArr [e0, e1, e2, e3]"
    using assms(2) unfolding sign1_wire_def by fastforce
  then show ?thesis
  proof cases
    case malformed
    then have "fails (Unmarshal_raws L strict_mode data)"
      using laws(5) by (simp add: syntax_law_def)
    then show ?thesis
      using malformed_decode [OF malformed]
      by (auto simp: sign1_spec_def DecodeSign1_def strictDecMode_Ok [OF laws(1)] intro!: fails_of_sum)
  next
    case other
    then have "sign1_spec (content data) = Inl ErrInvalidSign1"
      by (auto simp: sign1_spec_def split: cbor.split list.split)
    then show ?thesis
      using DecodeSign1_not_four [OF laws(1,2) other] by simp
  next
    case four
    have items: "item_ok e0" "item_ok e2" "item_ok e3"
      using item_ok_element [OF four(2)] by simp_all
    have ok: "map_ok e1" "\<And>raw. bytes_item e0 = Some raw \<Longrightarrow> header_bytes_ok (content raw)"
      using four(3) by (simp_all add: elements_ok_def)
    have spec: "sign1_spec (content data) = elements_spec e0 e1 e2 e3"
      using four(1) by (simp add: sign1_spec_def)
    show ?thesis
    proof (rule DecodeSign1_elements [OF laws(1,2) four(1,2)], goal_cases)
      case (1 p0 p1 p2 p3)
      have u: "agrees (decodeHashed L (Some p1)) (hashed_spec e1)"
        using 1(2) ok(1) laws by (intro decodeHashed_wire) simp_all
      show ?case
        unfolding 1(5) spec elements_spec_def
        by (intro agrees_bytes [OF laws(3) 1(1) items(1)]
            agrees_bind [OF decodeProtected_wire [OF laws(1,4,5) ok(2)]])
          (auto simp: cose_consts intro!: agrees_bind [OF u] agrees_bytes [OF laws(3) 1(3) items(2)]
            agrees_bytes [OF laws(3) 1(4) items(3)])
    qed
  qed
qed


lemma sign1_wire_vector: "sign1_wire vector_sign1"
proof -
  have "map_ok vector_header"
    by (simp add: map_ok_def item_ok_def vector_header_def scalar_keys_def)
  then have "header_bytes_ok vector_protected"
    by (auto simp: header_bytes_ok_def vector_header_decode)
  moreover have "map_ok vector_flags"
    by (simp add: map_ok_def item_ok_def vector_flags_def scalar_keys_def)
  moreover have "item_ok (CArr [CBytes vector_protected, vector_flags, CBytes vector_payload,
      CBytes vector_signature])"
    by (simp add: item_ok_def vector_flags_def)
  ultimately show ?thesis
    by (simp add: sign1_wire_def vector_sign1_decode elements_ok_def)
qed

lemma sign1_spec_vector:
  "sign1_spec vector_sign1 = Inr
     \<lparr>s1_ProtectedRaw = Some vector_protected, s1_Payload = Some vector_payload,
      s1_Signature = Some vector_signature, s1_Alg = - 8, s1_Address = Some vector_address,
      s1_Hashed = False\<rparr>"
  by (simp add: sign1_spec_def vector_sign1_decode elements_spec_def protected_spec_def
      header_reading_def vector_header_decode vector_header_def vector_flags_def hashed_spec_def
      unique_keys_def)


text \<open>A wallet's data signature: the header of CIP-8 with an address, the \<open>hashed\<close> flag, a payload.\<close>

definition wallet_header :: "bytes \<Rightarrow> cbor" where
  "wallet_header address = CMap [(CUint 1, CNint 7), (CText ''address'', CBytes address)]"

definition wallet_flags :: "bool \<Rightarrow> cbor" where
  "wallet_flags hashed = CMap [(CText ''hashed'', CBool hashed)]"

definition sign1_item :: "cbor \<Rightarrow> cbor \<Rightarrow> cbor \<Rightarrow> cbor \<Rightarrow> cbor" where
  "sign1_item h u pl sg = CArr [CBytes (enc h), u, pl, sg]"

lemma head_lengths: "length (head mt n) \<le> 9"
  by (simp add: head_def)

lemma enc_wallet_header: "length (enc (wallet_header address)) \<le> length address + 30"
  using head_lengths [of 2 "length address"] by (simp add: wallet_header_def) (simp add: head_def)

text \<open>An absent payload is null on the wire.\<close>

fun payload_item :: "slice \<Rightarrow> cbor" where
  "payload_item None = CNull"
| "payload_item (Some b) = CBytes b"

definition wallet_item :: "bytes \<Rightarrow> bool \<Rightarrow> slice \<Rightarrow> bytes \<Rightarrow> cbor" where
  "wallet_item address hashed payload sg =
     sign1_item (wallet_header address) (wallet_flags hashed) (payload_item payload) (CBytes sg)"

lemma wallet_header_ok: "length address < 2 ^ 32 \<Longrightarrow> map_ok (wallet_header address)"
  by (simp add: map_ok_def item_ok_def wallet_header_def scalar_keys_def)

lemma wallet_header_decode:
  "length address < 2 ^ 32 \<Longrightarrow> cbor_decode (enc (wallet_header address)) = Some (wallet_header address)"
  using wallet_header_ok [of address] by (intro cbor_decode_enc) (simp add: map_ok_def item_ok_def)

lemma wallet_item_ok:
  assumes "length address < 2 ^ 32" "len payload < 2 ^ 64" "length sg = 64"
  shows "item_ok (wallet_item address hashed payload sg)"
  using assms enc_wallet_header [of address]
  by (cases payload)
    (simp_all add: wallet_item_def sign1_item_def item_ok_def wallet_flags_def del: enc.simps)

lemma wallet_item_decode:
  assumes "length address < 2 ^ 32" "len payload < 2 ^ 64" "length sg = 64"
  shows "cbor_decode (enc (wallet_item address hashed payload sg)) =
    Some (CArr [CBytes (enc (wallet_header address)), wallet_flags hashed, payload_item payload, CBytes sg])"
  using wallet_item_ok [OF assms] cbor_decode_enc
  by (simp add: item_ok_def wallet_item_def sign1_item_def del: enc.simps)

lemma sign1_wire_wallet:
  assumes "length address < 2 ^ 32" "len payload < 2 ^ 64" "length sg = 64"
  shows "sign1_wire (enc (wallet_item address hashed payload sg))"
proof -
  have "header_bytes_ok (enc (wallet_header address))"
    using wallet_header_decode [OF assms(1)] wallet_header_ok [OF assms(1)]
    by (auto simp: header_bytes_ok_def simp del: enc.simps)
  moreover have "map_ok (wallet_flags hashed)"
    by (simp add: map_ok_def item_ok_def wallet_flags_def scalar_keys_def)
  ultimately show ?thesis
    using wallet_item_ok [OF assms] wallet_item_decode [OF assms]
    by (simp add: sign1_wire_def elements_ok_def wallet_item_def sign1_item_def del: enc.simps)
qed

lemma bytes_payload_item [simp]: "bytes_item (payload_item payload) = Some payload"
  by (cases payload) simp_all

lemma protected_spec_wallet:
  "length address < 2 ^ 32 \<Longrightarrow>
    protected_spec (Some (enc (wallet_header address))) = Inr (- 8, Some address)"
  by (simp add: protected_spec_def header_reading_def wallet_header_decode del: enc.simps)
    (simp add: wallet_header_def unique_keys_def)

lemma hashed_spec_wallet: "hashed_spec (wallet_flags hashed) = Inr hashed"
  by (simp add: hashed_spec_def wallet_flags_def unique_keys_def)

lemma sign1_spec_wallet:
  assumes "length address < 2 ^ 32" "len payload < 2 ^ 64" "length sg = 64"
  shows "sign1_spec (enc (wallet_item address hashed payload sg)) =
    Inr \<lparr>s1_ProtectedRaw = Some (enc (wallet_header address)), s1_Payload = payload,
      s1_Signature = Some sg, s1_Alg = - 8, s1_Address = Some address, s1_Hashed = hashed\<rparr>"
  using assms(3)
  by (simp add: sign1_spec_def wallet_item_decode [OF assms] elements_spec_def
      protected_spec_wallet [OF assms(1)] hashed_spec_wallet del: enc.simps)



section \<open>The reference reading of a COSE_Key\<close>

text \<open>The value at a label, absent or null being the zero of the field.\<close>

definition label_int :: "(cbor \<times> cbor) list \<Rightarrow> int \<Rightarrow> i64 option" where
  "label_int kvs l =
     (case map_of kvs (int_key l) of None \<Rightarrow> Some 0 | Some CNull \<Rightarrow> Some 0 | Some v \<Rightarrow> int_item v)"

definition label_bytes :: "(cbor \<times> cbor) list \<Rightarrow> int \<Rightarrow> slice option" where
  "label_bytes kvs l = (case map_of kvs (int_key l) of None \<Rightarrow> Some None | Some v \<Rightarrow> bytes_item v)"

fun key_item_spec :: "cbor \<Rightarrow> cose_err + slice" where
  "key_item_spec (CMap kvs) =
     (if \<not> struct_keys kvs \<or> \<not> unique_keys kvs then Inl ErrInvalidKey
      else case (label_int kvs 1, label_int kvs 3, label_int kvs (- 1), label_bytes kvs (- 2)) of
        (Some kty, Some alg, Some crv, Some x) \<Rightarrow>
          if kty \<noteq> 1 then Inl ErrUnsupportedKeyType
          else if alg \<noteq> - 8 then Inl ErrUnsupportedAlg
          else if crv \<noteq> 6 then Inl ErrUnsupportedCurve
          else if len x \<noteq> 32 then Inl ErrInvalidPublicKeyLen
          else Inr x
      | _ \<Rightarrow> Inl ErrInvalidKey)"
| "key_item_spec CNull = Inl ErrUnsupportedKeyType"
| "key_item_spec _ = Inl ErrInvalidKey"

definition key_spec :: "bytes \<Rightarrow> cose_err + slice" where
  "key_spec b = (case cbor_decode b of None \<Rightarrow> Inl ErrInvalidKey | Some v \<Rightarrow> key_item_spec v)"

definition key_wire :: "bytes \<Rightarrow> bool" where
  "key_wire b \<longleftrightarrow> malformed b \<or>
     (\<exists>v. cbor_decode b = Some v \<and> item_ok v \<and>
        (case v of
           CMap kvs \<Rightarrow> list_all (\<lambda>(k, w). \<not> wide_label k) kvs \<and> list_all (\<lambda>(k, w). nested_ok w) kvs
         | _ \<Rightarrow> True))"

lemma int_field_label:
  "int64_field (case map_of kvs (int_key l) of None \<Rightarrow> None | Some v \<Rightarrow> field_of KInt64 v) =
     (case label_int kvs l of None \<Rightarrow> 0 | Some n \<Rightarrow> n)"
  "(case map_of kvs (int_key l) of None \<Rightarrow> True | Some v \<Rightarrow> field_fits KInt64 v) \<longleftrightarrow> label_int kvs l \<noteq> None"
  by (auto simp: int64_field_def label_int_def field_of_def field_fits_def split: option.split cbor.split)

lemma bytes_field_label:
  "bytes_field (case map_of kvs (int_key l) of None \<Rightarrow> None | Some v \<Rightarrow> field_of KBytes v) =
     (case label_bytes kvs l of None \<Rightarrow> None | Some x \<Rightarrow> x)"
  "(case map_of kvs (int_key l) of None \<Rightarrow> True | Some v \<Rightarrow> field_fits KBytes v) \<longleftrightarrow> label_bytes kvs l \<noteq> None"
  by (auto simp: bytes_field_def label_bytes_def field_of_def field_fits_def split: option.split)

lemma DecodeKey_map:
  assumes "strictDecMode L = Ok strict_mode" "struct_law L" "cbor_decode (content data) = Some (CMap kvs)"
    and "item_ok (CMap kvs)" "list_all (\<lambda>(k, w). \<not> wide_label k) kvs" "list_all (\<lambda>(k, w). nested_ok w) kvs"
  shows "agrees (DecodeKey L data) (key_item_spec (CMap kvs))"
proof -
  have "distinct (map fst coseKey_tags)"
    by (simp add: coseKey_tags_def)
  note law = assms(2) [unfolded struct_law_def, rule_format, OF assms(3,4) this, of strict_mode]
  show ?thesis
  proof (cases "struct_keys kvs \<and> unique_keys kvs \<and> struct_fits coseKey_tags kvs")
    case True
    then have "Unmarshal_struct L strict_mode coseKey_tags data = Inr (struct_view coseKey_tags kvs)"
      using law assms(5,6) by simp
    moreover obtain kty alg crv x where "label_int kvs 1 = Some kty" "label_int kvs 3 = Some alg"
        "label_int kvs (- 1) = Some crv" "label_bytes kvs (- 2) = Some x"
      using True by (auto simp: struct_fits_def coseKey_tags_def int_field_label(2) bytes_field_label(2))
    ultimately show ?thesis
      using True
      by (auto simp: DecodeKey_def assms(1) Let_def cose_consts coseKey_of_def struct_view_def
          coseKey_tags_def int_field_label(1) bytes_field_label(1))
  next
    case False
    then have "fails (Unmarshal_struct L strict_mode coseKey_tags data)"
      using law assms(5,6) by (auto split: if_splits)
    moreover have "key_item_spec (CMap kvs) = Inl ErrInvalidKey"
      using False by (auto simp: struct_fits_def coseKey_tags_def int_field_label(2) bytes_field_label(2)
          split: option.split)
    ultimately show ?thesis
      by (auto simp: DecodeKey_def assms(1) intro!: fails_of_sum)
  qed
qed

lemma DecodeKey_agrees:
  assumes "cbor_documented L" "key_wire (content data)"
  shows "agrees (DecodeKey L data) (key_spec (content data))"
proof -
  have mode: "strictDecMode L = Ok strict_mode" and laws: "struct_law L" "syntax_law L"
    using assms(1) by (simp_all add: cbor_documented_def strictDecMode_Ok)
  have refused: "fails_with (DecodeKey L data) {CoseE ErrInvalidKey}"
    if "fails (Unmarshal_struct L strict_mode coseKey_tags data)"
    using that by (auto simp: DecodeKey_def mode intro!: fails_of_sum)
  show ?thesis
    using assms(2) unfolding key_wire_def
  proof
    assume malformed: "malformed (content data)"
    then have "fails (Unmarshal_struct L strict_mode coseKey_tags data)"
      using laws(2) by (simp add: syntax_law_def)
    then show ?thesis
      using refused malformed_decode [OF malformed] by (simp add: key_spec_def)
  next
    assume "\<exists>v. cbor_decode (content data) = Some v \<and> item_ok v \<and>
        (case v of
           CMap kvs \<Rightarrow> list_all (\<lambda>(k, w). \<not> wide_label k) kvs \<and> list_all (\<lambda>(k, w). nested_ok w) kvs
         | _ \<Rightarrow> True)"
    then obtain v where v: "cbor_decode (content data) = Some v" "item_ok v"
        "case v of
           CMap kvs \<Rightarrow> list_all (\<lambda>(k, w). \<not> wide_label k) kvs \<and> list_all (\<lambda>(k, w). nested_ok w) kvs
         | _ \<Rightarrow> True"
      by blast
    have "distinct (map fst coseKey_tags)"
      by (simp add: coseKey_tags_def)
    note law = laws(1) [unfolded struct_law_def, rule_format, OF v(1,2) this, of strict_mode]
    have "agrees (DecodeKey L data) (key_item_spec v)"
    proof (cases v)
      case (CMap kvs)
      then show ?thesis
        using DecodeKey_map [OF mode laws(1)] v by simp
    next
      case CNull
      then show ?thesis
        using law by (simp add: DecodeKey_def mode coseKey_of_def int64_field_def Let_def cose_consts)
    qed (use law refused in simp_all)
    then show ?thesis
      using v(1) by (simp add: key_spec_def)
  qed
qed


definition wallet_key :: "bytes \<Rightarrow> cbor" where
  "wallet_key pk = CMap [(CUint 1, CUint 1), (CUint 3, CNint 7), (CNint 0, CUint 6), (CNint 1, CBytes pk)]"

lemma key_item_spec_wallet: "length pk = 32 \<Longrightarrow> key_item_spec (wallet_key pk) = Inr (Some pk)"
  by (simp add: wallet_key_def unique_keys_def struct_keys_def label_int_def label_bytes_def int_key_def)

lemma wallet_key_decode: "length pk = 32 \<Longrightarrow> cbor_decode (enc (wallet_key pk)) = Some (wallet_key pk)"
  by (rule cbor_decode_enc) (simp add: wallet_key_def)

lemma wallet_key_ok: "length pk = 32 \<Longrightarrow> cbor_decode b = Some (wallet_key pk) \<Longrightarrow> key_wire b"
  by (simp add: key_wire_def wallet_key_def item_ok_def)


section \<open>The bytes that are signed\<close>

definition sig_structure :: "slice \<Rightarrow> bytes \<Rightarrow> cbor" where
  "sig_structure protectedRaw payload =
     CArr [CText ''Signature1'', (case protectedRaw of None \<Rightarrow> CNull | Some p \<Rightarrow> CBytes p),
           CBytes [], CBytes payload]"

lemma item_of_ABytes: "item_of (ABytes s) = (case s of None \<Rightarrow> CNull | Some b \<Rightarrow> CBytes b)"
  by (cases s) simp_all

lemma SigStructure_enc:
  assumes "marshal_law L" "len p < 2 ^ 64" "len m < 2 ^ 64"
  shows "SigStructure L p m = Ok (enc (sig_structure p (content m)))"
proof -
  let ?xs = "[AString sigContextSignature1, ABytes p, ABytes (Some []), ABytes (Some (content m))]"
  have items: "CArr (map item_of ?xs) = sig_structure p (content m)"
    by (simp add: sig_structure_def item_of_ABytes sigContextSignature1_def)
  have "Marshal_array L ?xs = Inr (enc (CArr (map item_of ?xs)))"
    using assms by (intro assms(1) [unfolded marshal_law_def, rule_format])
      (cases p; simp add: sigContextSignature1_def len_content)+
  moreover have "(if m = None then Some [] else m) = Some (content m)"
    by (cases m) simp_all
  ultimately show ?thesis
    by (simp only: SigStructure_def Let_def items of_sum_simps)
qed

text \<open>C24. The signed bytes are those of RFC 8152: an array of four with the context
  \<open>Signature1\<close>, the protected header as received, the empty byte string 0x40 as external data,
  and the payload as a byte string; a nil payload is signed as 0x40 and never as null.\<close>

theorem SigStructure_bytes:
  assumes "marshal_law L" "length p < 2 ^ 64" "len m < 2 ^ 64"
  shows "SigStructure L (Some p) m =
    Ok ([0x84, 0x6A] @ bytes_of_string ''Signature1'' @ head 2 (length p) @ p @ [0x40] @
        head 2 (len m) @ content m)"
  using SigStructure_enc [of L "Some p" m] assms
  by (simp add: sig_structure_def len_def) (simp add: head_def)

theorem SigStructure_bytes_witness:
  "SigStructure ref_cbor (Some [0xA0]) None =
    Ok ([0x84, 0x6A] @ bytes_of_string ''Signature1'' @ [0x41, 0xA0, 0x40, 0x40])"
  using SigStructure_bytes [of ref_cbor "[0xA0]" None] ref_cbor_documented
  by (simp add: cbor_documented_def head_def)

lemma SigStructure_eq_iff:
  assumes "marshal_law L" "len p < 2 ^ 64" "len m < 2 ^ 64" "len q < 2 ^ 64" "len n < 2 ^ 64"
  shows "SigStructure L p m = SigStructure L q n \<longleftrightarrow> p = q \<and> content m = content n"
proof -
  have wf: "wf_cbor (sig_structure p (content m))" "wf_cbor (sig_structure q (content n))"
    using assms by (auto simp: sig_structure_def len_content split: option.split)
  show ?thesis
    unfolding SigStructure_enc [OF assms(1-3)] SigStructure_enc [OF assms(1,4,5)]
    using cbor_enc_inj [OF wf] by (auto simp: sig_structure_def split: option.splits)
qed

text \<open>C10. The signed bytes bind the protected header and the payload: two structures are equal
  only for the same header bytes and the same payload, so a signature for one message under one
  address is a signature for no other, whatever bytes an attacker puts in either part.\<close>

theorem SigStructure_binds:
  assumes "marshal_law L" "len p < 2 ^ 64" "len m < 2 ^ 64" "len q < 2 ^ 64" "len n < 2 ^ 64"
  shows "SigStructure L p m = SigStructure L q n \<longleftrightarrow> p = q \<and> content m = content n"
  using assms by (rule SigStructure_eq_iff)

theorem SigStructure_binds_witness:
  "SigStructure ref_cbor (Some [0xA0]) (Some [1]) \<noteq> SigStructure ref_cbor (Some [0xA0, 1]) None"
  using SigStructure_binds [of ref_cbor "Some [0xA0]" "Some [1]" "Some [0xA0, 1]" None]
    ref_cbor_documented
  by (simp add: cbor_documented_def)

end
