(* ===== verification/Verify.thy ===== *)
theory Verify
  imports Match Message Cose_Wire
begin

text \<open>
  The public operations of \<^verbatim>\<open>cip30.go\<close>: \<open>Parse\<close>, the methods of a decoded
  signature, and \<open>Verify\<close> with its options.

  A \<open>VerifyOption\<close> is a function on the configuration, as in the code.  The third-party
  libraries are the fields of \<open>libs\<close>.  A method that can reach a library panic returns an
  outcome; that none does, when the libraries keep their documentation, is proved below.  The
  meaning of the overall verdict is the specification \<open>authentic\<close>, over the decoded
  structures and the abstract addresses of \<open>Cip19\<close>.
\<close>

section \<open>Data\<close>

record libs =
  lib_cbor :: cbor_lib
  lib_bech32 :: bech32_lib
  lib_crypto :: crypto_lib

record DataSignature =
  ds_Signature :: string
  ds_Key :: string

record Signature =
  sig_PublicKey :: slice
  sig_Payload :: slice
  sig_Hashed :: bool
  sig_Address :: slice
  sig_protectedRaw :: slice
  sig_signature :: slice

record Result =
  res_SignatureValid :: bool
  res_Message :: "MessageCheck option"
  res_Address :: "AddressCheck option"
  res_PublicKey :: slice
  res_KeyHash :: slice

record verifyConfig =
  cfg_message :: slice
  cfg_hasMessage :: bool
  cfg_address :: string
  cfg_hasAddress :: bool
  cfg_useEmbedded :: bool
  cfg_strict :: bool

type_synonym VerifyOption = "verifyConfig \<Rightarrow> verifyConfig"

section \<open>Options\<close>

definition WithMessage :: "slice \<Rightarrow> VerifyOption" where
  "WithMessage message = (\<lambda>c. c\<lparr>cfg_message := message, cfg_hasMessage := True\<rparr>)"

definition WithAddress :: "string \<Rightarrow> VerifyOption" where
  "WithAddress addr = (\<lambda>c. c\<lparr>cfg_address := addr, cfg_hasAddress := True\<rparr>)"

definition WithEmbeddedAddress :: VerifyOption where
  "WithEmbeddedAddress = (\<lambda>c. c\<lparr>cfg_useEmbedded := True\<rparr>)"

definition StrictAddress :: VerifyOption where
  "StrictAddress = (\<lambda>c. c\<lparr>cfg_strict := True\<rparr>)"

text \<open>The zero value \<open>var cfg verifyConfig\<close>.\<close>

definition zero_config :: verifyConfig where
  "zero_config = \<lparr>cfg_message = None, cfg_hasMessage = False, cfg_address = '''',
     cfg_hasAddress = False, cfg_useEmbedded = False, cfg_strict = False\<rparr>"

definition applyOptions :: "VerifyOption list \<Rightarrow> verifyConfig go" where
  "applyOptions opts =
     (let cfg = fold (\<lambda>opt c. opt c) opts zero_config in
      if cfg_hasAddress cfg \<and> cfg_useEmbedded cfg then Err (cip30_error ErrConflictingAddress)
      else Ok cfg)"

section \<open>Parsing\<close>

definition cip30_Parse :: "libs \<Rightarrow> DataSignature \<Rightarrow> Signature go" where
  "cip30_Parse E sig =
     obind (map_err (\<lambda>err. wrap (cip30_error ErrInvalidSignatureHex) (HexError err))
              (hex_DecodeString (ds_Signature sig))) (\<lambda>sigBytes.
     obind (map_err (\<lambda>err. wrap (cip30_error ErrInvalidKeyHex) (HexError err))
              (hex_DecodeString (ds_Key sig))) (\<lambda>keyBytes.
     obind (map_err (wrap (cip30_error ErrDecodeSignature))
              (DecodeSign1 (lib_cbor E) sigBytes)) (\<lambda>sign1.
     obind (map_err (wrap (cip30_error ErrDecodeKey))
              (DecodeKey (lib_cbor E) keyBytes)) (\<lambda>publicKey.
     Ok \<lparr>sig_PublicKey = publicKey, sig_Payload = s1_Payload sign1, sig_Hashed = s1_Hashed sign1,
         sig_Address = s1_Address sign1, sig_protectedRaw = s1_ProtectedRaw sign1,
         sig_signature = s1_Signature sign1\<rparr>))))"

section \<open>Methods of a decoded signature\<close>

definition verifyPayload :: "libs \<Rightarrow> Signature \<Rightarrow> slice \<Rightarrow> bool go" where
  "verifyPayload E s payload =
     (if len (sig_PublicKey s) \<noteq> ed25519_PublicKeySize \<or>
         len (sig_signature s) \<noteq> ed25519_SignatureSize
      then Ok False
      else case SigStructure (lib_cbor E) (sig_protectedRaw s) payload of
        Err err \<Rightarrow> Ok False
      | Ok sigStructure \<Rightarrow>
          ed25519_Verify (ed25519_equation (lib_crypto E)) (sig_PublicKey s) sigStructure
            (sig_signature s)
      | Panic p \<Rightarrow> Panic p)"

definition Signature_Verify :: "libs \<Rightarrow> Signature \<Rightarrow> bool go" where
  "Signature_Verify E s = verifyPayload E s (sig_Payload s)"

definition detached :: "Signature \<Rightarrow> bool" where
  "detached s = (len (sig_Payload s) = 0)"

definition VerifyMessage :: "libs \<Rightarrow> Signature \<Rightarrow> slice \<Rightarrow> MessageCheck go" where
  "VerifyMessage E s message =
     (if detached s then
        obind (digest (lib_crypto E) message (sig_Hashed s)) (\<lambda>payload.
        obind (verifyPayload E s payload) (\<lambda>matched.
        Ok \<lparr>mc_Matched = matched, mc_Hashed = sig_Hashed s\<rparr>))
      else
        obind (digest (lib_crypto E) message (sig_Hashed s)) (\<lambda>expected.
        Ok \<lparr>mc_Matched = bytesEqual (sig_Payload s) expected, mc_Hashed = sig_Hashed s\<rparr>))"

definition Signature_KeyHash :: "libs \<Rightarrow> Signature \<Rightarrow> slice go" where
  "Signature_KeyHash E s = keyHash224 (lib_crypto E) (sig_PublicKey s)"

definition MatchesAddress ::
  "libs \<Rightarrow> Signature \<Rightarrow> string \<Rightarrow> VerifyOption list \<Rightarrow> AddressCheck go" where
  "MatchesAddress E s addr opts =
     obind (applyOptions opts) (\<lambda>cfg.
     obind (map_err (wrap (cip30_error ErrDecodeAddress)) (Decode (lib_bech32 E) addr)) (\<lambda>decoded.
     obind (Signature_KeyHash E s) (\<lambda>keyHash.
     let check = matchAddress decoded keyHash (cfg_strict cfg)
     in Ok (check\<lparr>ac_Source := AddressSupplied\<rparr>))))"

definition matchEmbeddedAddress :: "libs \<Rightarrow> Signature \<Rightarrow> bool \<Rightarrow> AddressCheck go" where
  "matchEmbeddedAddress E s strict =
     (if len (sig_Address s) = 0 then Err (cip30_error ErrNoEmbeddedAddress)
      else
        obind (map_err (wrap (cip30_error ErrDecodeAddress)) (address_Parse (sig_Address s)))
          (\<lambda>decoded.
        obind (Signature_KeyHash E s) (\<lambda>keyHash.
        let check = matchAddress decoded keyHash strict
        in Ok (check\<lparr>ac_Source := AddressEmbedded\<rparr>))))"

section \<open>Verify\<close>

definition signatureValid :: "libs \<Rightarrow> Signature \<Rightarrow> verifyConfig \<Rightarrow> bool go" where
  "signatureValid E s cfg =
     (if cfg_hasMessage cfg \<and> detached s then
        obind (digest (lib_crypto E) (cfg_message cfg) (sig_Hashed s)) (verifyPayload E s)
      else Signature_Verify E s)"

definition addressCheck :: "libs \<Rightarrow> Signature \<Rightarrow> verifyConfig \<Rightarrow> AddressCheck go" where
  "addressCheck E s cfg =
     (if cfg_useEmbedded cfg then matchEmbeddedAddress E s (cfg_strict cfg)
      else
        obind (map_err (wrap (cip30_error ErrDecodeAddress))
                 (Decode (lib_bech32 E) (cfg_address cfg))) (\<lambda>decoded.
        obind (Signature_KeyHash E s) (\<lambda>keyHash.
        let check = matchAddress decoded keyHash (cfg_strict cfg)
        in Ok (check\<lparr>ac_Source := AddressSupplied\<rparr>))))"

definition Verify :: "libs \<Rightarrow> DataSignature \<Rightarrow> VerifyOption list \<Rightarrow> Result go" where
  "Verify E sig opts =
     obind (applyOptions opts) (\<lambda>cfg.
     obind (cip30_Parse E sig) (\<lambda>signature.
     obind (signatureValid E signature cfg) (\<lambda>valid.
     obind (Signature_KeyHash E signature) (\<lambda>keyHash.
     let result = \<lparr>res_SignatureValid = valid, res_Message = None, res_Address = None,
                   res_PublicKey = sig_PublicKey signature, res_KeyHash = keyHash\<rparr> in
     obind (if cfg_hasMessage cfg then
              obind (VerifyMessage E signature (cfg_message cfg)) (\<lambda>check.
              Ok (result\<lparr>res_Message := Some check\<rparr>))
            else Ok result) (\<lambda>result.
     if cfg_hasAddress cfg \<or> cfg_useEmbedded cfg then
       obind (addressCheck E signature cfg) (\<lambda>check.
       Ok (result\<lparr>res_Address := Some check\<rparr>))
     else Ok result)))))"

definition Valid :: "Result \<Rightarrow> bool" where
  "Valid r =
     (if \<not> res_SignatureValid r then False
      else if (case res_Message r of None \<Rightarrow> False | Some c \<Rightarrow> \<not> mc_Matched c) then False
      else if (case res_Address r of None \<Rightarrow> False | Some c \<Rightarrow> \<not> ac_Matched c) then False
      else True)"

section \<open>Panic freedom\<close>

text \<open>What panic freedom needs of the libraries: the two constructors accept the arguments the
  program passes, which are constants.\<close>

definition libs_start :: "libs \<Rightarrow> bool" where
  "libs_start E \<longleftrightarrow> decmode_law (lib_cbor E) \<and> blake2b_documented (lib_crypto E)"

named_theorems verify_ok "results of the methods under working libraries"

lemma applyOptions_no_panic [no_panic_intros]: "no_panic (applyOptions opts)"
  by (simp add: applyOptions_def Let_def)

lemma cip30_Parse_no_panic [no_panic_intros]: "libs_start E \<Longrightarrow> no_panic (cip30_Parse E sig)"
  by (auto simp: cip30_Parse_def libs_start_def DecodeSign1_no_panic DecodeKey_no_panic
      intro!: no_panic_obind)

lemma verifyPayload_Ok [verify_ok]:
  "verifyPayload E s payload = Ok
     (len (sig_PublicKey s) = 32 \<and> len (sig_signature s) = 64 \<and>
      (\<exists>b. SigStructure (lib_cbor E) (sig_protectedRaw s) payload = Ok b \<and>
         ed25519_equation (lib_crypto E) (content (sig_PublicKey s)) b (content (sig_signature s))))"
  using SigStructure_no_panic [of "lib_cbor E" "sig_protectedRaw s" payload]
  by (cases "SigStructure (lib_cbor E) (sig_protectedRaw s) payload")
    (auto simp: verifyPayload_def ed25519_PublicKeySize_def ed25519_SignatureSize_def)

lemma KeyHash_Ok:
  assumes "libs_start E"
  obtains k where "Signature_KeyHash E s = Ok (Some k)" "length k = 28"
proof -
  have "blake2b_documented (lib_crypto E)"
    using assms by (simp add: libs_start_def)
  then show ?thesis
    by (rule keyHash224_Ok) (use that in \<open>simp add: Signature_KeyHash_def\<close>)
qed

lemma KeyHash_no_panic [no_panic_intros]: "libs_start E \<Longrightarrow> no_panic (Signature_KeyHash E s)"
  by (erule KeyHash_Ok [of E s]) simp

lemma digest_libs [no_panic_intros]: "libs_start E \<Longrightarrow> no_panic (digest (lib_crypto E) m h)"
  by (simp add: libs_start_def digest_no_panic)

lemma verifyPayload_no_panic [no_panic_intros]: "no_panic (verifyPayload E s payload)"
  by (simp add: verify_ok)

lemma Signature_Verify_no_panic [no_panic_intros]: "no_panic (Signature_Verify E s)"
  by (simp add: Signature_Verify_def verifyPayload_no_panic)

lemma VerifyMessage_no_panic [no_panic_intros]: "libs_start E \<Longrightarrow> no_panic (VerifyMessage E s m)"
  unfolding VerifyMessage_def by (intro no_panic_intros) simp_all

lemma MatchesAddress_no_panic [no_panic_intros]:
  "libs_start E \<Longrightarrow> no_panic (MatchesAddress E s addr opts)"
  unfolding MatchesAddress_def Let_def
  by (intro no_panic_intros) (simp_all add: textual.parse_no_panic)

lemma matchEmbeddedAddress_no_panic [no_panic_intros]:
  "libs_start E \<Longrightarrow> no_panic (matchEmbeddedAddress E s strict)"
  unfolding matchEmbeddedAddress_def Let_def
  by (intro no_panic_intros) (simp_all add: raw.parse_no_panic)

lemma addressCheck_no_panic [no_panic_intros]: "libs_start E \<Longrightarrow> no_panic (addressCheck E s cfg)"
  unfolding addressCheck_def Let_def
  by (intro no_panic_intros) (simp_all add: textual.parse_no_panic)

lemma signatureValid_no_panic [no_panic_intros]:
  "libs_start E \<Longrightarrow> no_panic (signatureValid E s cfg)"
  unfolding signatureValid_def by (intro no_panic_intros)

lemma Verify_no_panic: "libs_start E \<Longrightarrow> no_panic (Verify E sig opts)"
  unfolding Verify_def Let_def by (intro no_panic_intros) simp_all

section \<open>The shared address check\<close>

text \<open>The three operations that check an address differ only in where it comes from.\<close>

definition check_with ::
  "Address go \<Rightarrow> slice go \<Rightarrow> bool \<Rightarrow> AddressSource \<Rightarrow> AddressCheck go" where
  "check_with decoded keyHash strict source =
     obind (map_err (wrap (cip30_error ErrDecodeAddress)) decoded) (\<lambda>x.
     obind keyHash (\<lambda>k. Ok ((matchAddress x k strict)\<lparr>ac_Source := source\<rparr>)))"

lemma check_with_intros:
  "MatchesAddress E s addr opts = obind (applyOptions opts) (\<lambda>cfg.
     check_with (Decode (lib_bech32 E) addr) (Signature_KeyHash E s) (cfg_strict cfg) AddressSupplied)"
  "matchEmbeddedAddress E s strict =
     (if len (sig_Address s) = 0 then Err (cip30_error ErrNoEmbeddedAddress)
      else check_with (address_Parse (sig_Address s)) (Signature_KeyHash E s) strict AddressEmbedded)"
  "addressCheck E s cfg =
     (if cfg_useEmbedded cfg then matchEmbeddedAddress E s (cfg_strict cfg)
      else check_with (Decode (lib_bech32 E) (cfg_address cfg)) (Signature_KeyHash E s)
        (cfg_strict cfg) AddressSupplied)"
  by (simp_all add: MatchesAddress_def matchEmbeddedAddress_def addressCheck_def check_with_def)

context address_source
begin

lemma check_Ok_iff:
  "check_with (parse r) (Ok (Some k)) strict source = Ok c \<longleftrightarrow>
     (\<exists>a. wf_cip19 a \<and> parse r = Ok (of_cip19 a) \<and>
        c = \<lparr>ac_Matched = accepts a k strict, ac_MatchedVia = controls a k, ac_Strict = strict,
             ac_Source = source, ac_Type = category a, ac_Network = network (cip19_network a)\<rparr>)"
  (is "?l \<longleftrightarrow> ?r")
proof
  assume ?l
  then obtain x where "parse r = Ok x" "c = (matchAddress x (Some k) strict)\<lparr>ac_Source := source\<rparr>"
    by (auto simp: check_with_def outcome_simps)
  with canonical [of r x] show ?r
    by (auto simp: matchAddress_of_cip19)
qed (auto simp: check_with_def matchAddress_of_cip19)

lemma check_fails:
  "errs_in {e. \<exists>a. set (sentinels e) = {Cip30E ErrDecodeAddress, AddressE a}}
     (check_with (parse r) (Ok kh) strict source)"
  using typed_error [of r] by (cases "parse r") (auto simp: check_with_def)

lemma check_is_Ok:
  "(\<exists>c. check_with (parse r) (Ok kh) strict source = Ok c) \<longleftrightarrow> (\<exists>x. parse r = Ok x)"
  by (cases "parse r") (simp_all add: check_with_def)

lemma check_matched:
  "(\<exists>c. check_with (parse r) (Ok (Some k)) strict source = Ok c \<and> ac_Matched c) \<longleftrightarrow>
     (\<exists>a. wf_cip19 a \<and> parse r = Ok (of_cip19 a) \<and> accepts a k strict)"
  unfolding check_Ok_iff by fastforce

end

section \<open>Failures\<close>

text \<open>Every failure of \<open>Verify\<close>, by the sentinels \<open>errors.Is\<close> finds in it.\<close>

definition verify_failures :: "sentinel set set" where
  "verify_failures =
     {{Cip30E ErrConflictingAddress}, {Cip30E ErrInvalidSignatureHex}, {Cip30E ErrInvalidKeyHex},
      {Cip30E ErrNoEmbeddedAddress}} \<union>
     {{Cip30E ErrDecodeSignature, CoseE c} |c. c \<in> sign1_errors} \<union>
     {{Cip30E ErrDecodeKey, CoseE c} |c. c \<in> key_errors} \<union>
     {{Cip30E ErrDecodeAddress, AddressE a} |a. True}"

definition failure_errors :: "goerror set" where
  "failure_errors = {e. set (sentinels e) \<in> verify_failures}"

lemma errs_in_map_err: "(\<And>e. m = Err e \<Longrightarrow> g e \<in> E) \<Longrightarrow> errs_in E (map_err g m)"
  by (cases m) simp_all

lemma errs_not_Err: "(\<And>e. m \<noteq> Err e) \<Longrightarrow> errs_in E m"
  by (cases m) auto

lemma applyOptions_errs [errs_intros]: "errs_in failure_errors (applyOptions opts)"
  by (simp add: applyOptions_def Let_def failure_errors_def verify_failures_def)

lemma cip30_Parse_errs [errs_intros]: "errs_in failure_errors (cip30_Parse E sig)"
  unfolding cip30_Parse_def
  by (intro errs_in_obind errs_in_mono [OF sign1.wrapped_errs] errs_in_mono [OF key.wrapped_errs]
      errs_in_map_err errs_in_simps(1))
    (auto simp: failure_errors_def verify_failures_def)

lemma KeyHash_not_Err: "Signature_KeyHash E s \<noteq> Err e"
  by (simp add: Signature_KeyHash_def keyHash224_not_Err)

lemma verifyPayload_not_Err: "verifyPayload E s p \<noteq> Err e"
  by (simp add: verify_ok)

lemma signatureValid_not_Err: "signatureValid E s cfg \<noteq> Err e"
  by (auto simp: signatureValid_def Signature_Verify_def verifyPayload_not_Err outcome_simps digest_not_Err)

lemma VerifyMessage_not_Err: "VerifyMessage E s m \<noteq> Err e"
  by (auto simp: VerifyMessage_def verifyPayload_not_Err outcome_simps digest_not_Err)

lemma check_errs:
  assumes "\<And>kh. errs_in {e. \<exists>a. set (sentinels e) = {Cip30E ErrDecodeAddress, AddressE a}}
    (check_with m (Ok kh) strict source)"
  shows "errs_in failure_errors (check_with m (Signature_KeyHash E s) strict source)"
proof (cases m)
  case (Err e)
  with assms [of None] show ?thesis
    by (auto simp: check_with_def failure_errors_def verify_failures_def)
qed (auto simp: check_with_def KeyHash_not_Err intro!: errs_not_Err simp: outcome_simps)

lemma addressCheck_errs [errs_intros]: "errs_in failure_errors (addressCheck E s cfg)"
  unfolding check_with_intros
  by (intro errs_in_if check_errs raw.check_fails textual.check_fails)
    (simp add: failure_errors_def verify_failures_def)

lemma Verify_errs: "errs_in failure_errors (Verify E sig opts)"
  unfolding Verify_def Let_def
  by (intro errs_intros)
    (simp_all add: errs_not_Err signatureValid_not_Err KeyHash_not_Err VerifyMessage_not_Err)

text \<open>C3. \<open>Verify\<close> never panics, whatever the input, and classifies every failure: it returns a
  result, or an error with exactly one of the public sentinels, together with the COSE sentinel
  under a decoding failure and the address sentinel under an address failure.\<close>

theorem Verify_total:
  assumes "libs_start E"
  shows "(\<exists>r. Verify E sig opts = Ok r) \<or>
    (\<exists>S \<in> verify_failures. fails_with (Verify E sig opts) S \<and> (\<exists>!s. Cip30E s \<in> S))"
proof (cases "Verify E sig opts")
  case (Err e)
  then have "set (sentinels e) \<in> verify_failures"
    using errs_inD [OF Verify_errs] by (simp add: failure_errors_def)
  moreover have "\<exists>!s. Cip30E s \<in> S" if "S \<in> verify_failures" for S
    using that by (auto simp: verify_failures_def)
  ultimately show ?thesis
    using Err by auto
next
  case (Panic p)
  then show ?thesis
    using Verify_no_panic [OF assms, of sig opts] by simp
qed simp

definition sample_libs :: libs where
  "sample_libs = \<lparr>lib_cbor = ref_cbor, lib_bech32 = no_bech32, lib_crypto = sample_crypto\<rparr>"

lemma sample_libs_simps [simp]:
  "lib_cbor sample_libs = ref_cbor" "lib_bech32 sample_libs = no_bech32"
  "lib_crypto sample_libs = sample_crypto"
  by (simp_all add: sample_libs_def)

lemma sample_libs_start [simp]: "libs_start sample_libs"
  using ref_cbor_documented by (simp add: libs_start_def cbor_documented_def)

theorem Verify_total_witness:
  "(\<exists>r. Verify sample_libs \<lparr>ds_Signature = ''84'', ds_Key = ''zz''\<rparr> [StrictAddress] = Ok r) \<or>
   (\<exists>S. S \<in> verify_failures \<and>
      fails_with (Verify sample_libs \<lparr>ds_Signature = ''84'', ds_Key = ''zz''\<rparr> [StrictAddress]) S)"
  using Verify_total [OF sample_libs_start, of "\<lparr>ds_Signature = ''84'', ds_Key = ''zz''\<rparr>" "[StrictAddress]"]
  by blast

text \<open>The first defect of an input, in the order the code looks for them.\<close>

definition is_ok :: "('e, 'a) outcome \<Rightarrow> bool" where
  "is_ok m = (case m of Ok _ \<Rightarrow> True | _ \<Rightarrow> False)"

lemma is_ok_iff: "is_ok m \<longleftrightarrow> (\<exists>a. m = Ok a)"
  by (cases m) (simp_all add: is_ok_def)

definition parse_defect :: "libs \<Rightarrow> DataSignature \<Rightarrow> cip30_err option" where
  "parse_defect E sig =
     (case (hex_DecodeString (ds_Signature sig), hex_DecodeString (ds_Key sig)) of
        (Ok sb, Ok kb) \<Rightarrow>
          if \<not> is_ok (DecodeSign1 (lib_cbor E) sb) then Some ErrDecodeSignature
          else if \<not> is_ok (DecodeKey (lib_cbor E) kb) then Some ErrDecodeKey else None
      | (Ok _, _) \<Rightarrow> Some ErrInvalidKeyHex
      | _ \<Rightarrow> Some ErrInvalidSignatureHex)"

definition address_defect :: "libs \<Rightarrow> slice \<Rightarrow> verifyConfig \<Rightarrow> cip30_err option" where
  "address_defect E embedded cfg =
     (if cfg_useEmbedded cfg then
        (if content embedded = [] then Some ErrNoEmbeddedAddress
         else if parse_class (content embedded) \<noteq> None then Some ErrDecodeAddress else None)
      else if cfg_hasAddress cfg \<and> \<not> is_ok (Decode (lib_bech32 E) (cfg_address cfg))
      then Some ErrDecodeAddress else None)"

definition first_defect :: "libs \<Rightarrow> DataSignature \<Rightarrow> VerifyOption list \<Rightarrow> cip30_err option" where
  "first_defect E sig opts =
     (case applyOptions opts of
        Ok cfg \<Rightarrow>
          (case cip30_Parse E sig of
             Ok s \<Rightarrow> address_defect E (sig_Address s) cfg
           | _ \<Rightarrow> parse_defect E sig)
      | _ \<Rightarrow> Some ErrConflictingAddress)"

definition public_sentinels :: "'a go \<Rightarrow> cip30_err set" where
  "public_sentinels m = (case m of Err e \<Rightarrow> {s. errors_Is e (Cip30E s)} | _ \<Rightarrow> {})"

text \<open>\<open>reports m d\<close>: \<open>m\<close> succeeds if there is no defect, and else fails with its sentinel.\<close>

definition reports :: "'a go \<Rightarrow> cip30_err option \<Rightarrow> bool" where
  "reports m d = (case d of None \<Rightarrow> is_ok m | Some s \<Rightarrow> (\<exists>e. m = Err e) \<and> public_sentinels m = {s})"

lemma reports_simps [simp]:
  "reports (Ok a) d \<longleftrightarrow> d = None"
  "reports (Err e) d \<longleftrightarrow> (\<exists>s. d = Some s \<and> {t. Cip30E t \<in> set (sentinels e)} = {s})"
  "\<not> reports (Panic p) d"
  by (auto simp: reports_def is_ok_def public_sentinels_def errors_Is_sentinels split: option.splits)

lemma reports_obind:
  "reports m (Some s) \<Longrightarrow> reports (obind m f) (Some s)"
  by (cases m) simp_all

lemma cip30_Parse_reports:
  assumes "libs_start E"
  shows "reports (cip30_Parse E sig) (parse_defect E sig)"
proof (cases "hex_DecodeString (ds_Signature sig)")
  case sb: (Ok sb)
  show ?thesis
  proof (cases "hex_DecodeString (ds_Key sig)")
    case kb: (Ok kb)
    have "no_panic (DecodeSign1 (lib_cbor E) sb)" "no_panic (DecodeKey (lib_cbor E) kb)"
      using assms by (simp_all add: libs_start_def DecodeSign1_no_panic DecodeKey_no_panic)
    then show ?thesis
      using sb kb DecodeSign1_fails [of "lib_cbor E" sb] DecodeKey_fails [of "lib_cbor E" kb]
      by (cases "DecodeSign1 (lib_cbor E) sb"; cases "DecodeKey (lib_cbor E) kb")
        (auto simp: cip30_Parse_def parse_defect_def is_ok_def)
  next
    case (Panic p)
    then show ?thesis
      using hex_DecodeString_no_panic [of "ds_Key sig"] by simp
  qed (auto simp: sb cip30_Parse_def parse_defect_def)
next
  case (Panic p)
  then show ?thesis
    using hex_DecodeString_no_panic [of "ds_Signature sig"] by simp
qed (auto simp: cip30_Parse_def parse_defect_def)

section \<open>Verify in closed form\<close>

text \<open>
  With working libraries only the options, the parse and the address can fail.  The total
  functions below name the other intermediate values.
\<close>

definition key_hash :: "libs \<Rightarrow> Signature \<Rightarrow> bytes" where
  "key_hash E s = (case Signature_KeyHash E s of Ok k \<Rightarrow> content k | _ \<Rightarrow> [])"

definition expected :: "libs \<Rightarrow> Signature \<Rightarrow> slice \<Rightarrow> bytes" where
  "expected E s m = (case digest (lib_crypto E) m (sig_Hashed s) of Ok d \<Rightarrow> content d | _ \<Rightarrow> [])"

definition signs :: "libs \<Rightarrow> Signature \<Rightarrow> bytes \<Rightarrow> bool" where
  "signs E s payload \<longleftrightarrow> len (sig_PublicKey s) = 32 \<and> len (sig_signature s) = 64 \<and>
     (case SigStructure (lib_cbor E) (sig_protectedRaw s) (Some payload) of
        Ok b \<Rightarrow> ed25519_equation (lib_crypto E) (content (sig_PublicKey s)) b (content (sig_signature s))
      | _ \<Rightarrow> False)"

definition chosen_payload :: "libs \<Rightarrow> Signature \<Rightarrow> verifyConfig \<Rightarrow> bytes" where
  "chosen_payload E s cfg =
     (if cfg_hasMessage cfg \<and> detached s then expected E s (cfg_message cfg)
      else content (sig_Payload s))"

definition base_result :: "libs \<Rightarrow> Signature \<Rightarrow> verifyConfig \<Rightarrow> Result" where
  "base_result E s cfg = \<lparr>res_SignatureValid = signs E s (chosen_payload E s cfg),
     res_Message = (if cfg_hasMessage cfg then Some \<lparr>
         mc_Matched = (if detached s then signs E s (expected E s (cfg_message cfg))
           else content (sig_Payload s) = expected E s (cfg_message cfg)),
         mc_Hashed = sig_Hashed s\<rparr> else None),
     res_Address = None, res_PublicKey = sig_PublicKey s, res_KeyHash = Some (key_hash E s)\<rparr>"

lemma SigStructure_content: "SigStructure L p m = SigStructure L p (Some (content m))"
  by (cases m) (simp_all add: SigStructure_def)

lemma verifyPayload_signs [verify_ok]: "verifyPayload E s m = Ok (signs E s (content m))"
  using SigStructure_content [of "lib_cbor E" "sig_protectedRaw s" m]
  by (auto simp: verifyPayload_Ok signs_def split: outcome.split)

lemma Signature_Verify_signs [verify_ok]:
  "Signature_Verify E s = Ok (signs E s (content (sig_Payload s)))"
  by (simp add: Signature_Verify_def verifyPayload_signs)

lemma KeyHash_key_hash [verify_ok]:
  "libs_start E \<Longrightarrow> Signature_KeyHash E s = Ok (Some (key_hash E s)) \<and> length (key_hash E s) = 28"
  by (erule KeyHash_Ok [of E s]) (simp add: key_hash_def)

lemma digest_expected:
  assumes "libs_start E"
  obtains d where "digest (lib_crypto E) m (sig_Hashed s) = Ok d" "content d = expected E s m"
  using digest_Ok [of "lib_crypto E" m "sig_Hashed s"] assms
  by (auto simp: libs_start_def expected_def)

lemma VerifyMessage_closed [verify_ok]:
  assumes "libs_start E"
  shows "VerifyMessage E s m = Ok \<lparr>
    mc_Matched = (if detached s then signs E s (expected E s m)
      else content (sig_Payload s) = expected E s m), mc_Hashed = sig_Hashed s\<rparr>"
  using assms by (rule digest_expected [of E m s]) (simp add: VerifyMessage_def verifyPayload_signs)

lemma signatureValid_closed [verify_ok]:
  assumes "libs_start E"
  shows "signatureValid E s cfg = Ok (signs E s (chosen_payload E s cfg))"
  using assms
  by (rule digest_expected [of E "cfg_message cfg" s])
    (simp add: signatureValid_def verifyPayload_signs Signature_Verify_signs chosen_payload_def)

lemma Verify_closed:
  assumes "libs_start E"
  shows "Verify E sig opts =
    obind (applyOptions opts) (\<lambda>cfg. obind (cip30_Parse E sig) (\<lambda>s.
      if cfg_hasAddress cfg \<or> cfg_useEmbedded cfg
      then obind (addressCheck E s cfg) (\<lambda>c. Ok ((base_result E s cfg)\<lparr>res_Address := Some c\<rparr>))
      else Ok (base_result E s cfg)))"
proof -
  have body: "obind (signatureValid E s cfg) (\<lambda>valid. obind (Signature_KeyHash E s) (\<lambda>keyHash.
      let result = \<lparr>res_SignatureValid = valid, res_Message = None, res_Address = None,
                   res_PublicKey = sig_PublicKey s, res_KeyHash = keyHash\<rparr> in
      obind (if cfg_hasMessage cfg then
               obind (VerifyMessage E s (cfg_message cfg)) (\<lambda>check.
               Ok (result\<lparr>res_Message := Some check\<rparr>))
             else Ok result) f)) = f (base_result E s cfg)" for s cfg f
    using assms
    by (simp add: signatureValid_closed KeyHash_key_hash VerifyMessage_closed base_result_def Let_def)
  show ?thesis
    by (simp only: Verify_def body)
qed

text \<open>C9. Failures are precise: with working libraries \<open>Verify\<close> succeeds exactly when the input
  has no defect, and otherwise reports the public sentinel of the first one: conflicting options,
  then hex, then the two COSE structures, then the address.\<close>

theorem Verify_first_defect:
  assumes "libs_start E"
  shows "reports (Verify E sig opts) (first_defect E sig opts)"
proof (cases "applyOptions opts")
  case (Ok cfg)
  show ?thesis
  proof (cases "cip30_Parse E sig")
    case parsed: (Ok s)
    obtain k where k: "Signature_KeyHash E s = Ok k"
      using assms by (rule KeyHash_Ok [of E s]) simp
    have raw: "reports (check_with (address_Parse r) (Ok k) st src)
        (if parse_class (content r) \<noteq> None then Some ErrDecodeAddress else None)" for r st src
      using address_Parse_classified [of r]
      by (cases "address_Parse r") (auto simp: check_with_def split: option.splits)
    have textual: "reports (check_with (Decode B t) (Ok k) st src)
        (if \<not> is_ok (Decode B t) then Some ErrDecodeAddress else None)" for B t st src
      using Decode_result [of B t]
      by (cases "Decode B t") (auto simp: check_with_def is_ok_def)
    have fin: "reports (obind m (\<lambda>c. Ok (g c))) d" if "reports m d"
      for m :: "AddressCheck go" and g :: "AddressCheck \<Rightarrow> Result" and d
      using that by (cases m) simp_all
    show ?thesis
      using raw [of "sig_Address s" "cfg_strict cfg" AddressEmbedded]
        textual [of "lib_bech32 E" "cfg_address cfg" "cfg_strict cfg" AddressSupplied]
      by (auto simp: Verify_closed [OF assms] Ok parsed first_defect_def address_defect_def
          check_with_intros k len_eq_0 intro!: fin split: if_splits)
  next
    case (Err e)
    then show ?thesis
      using cip30_Parse_reports [OF assms, of sig] by (simp add: Verify_closed [OF assms] Ok first_defect_def)
  next
    case (Panic p)
    then show ?thesis
      using cip30_Parse_no_panic [OF assms, of sig] by simp
  qed
next
  case (Err e)
  then show ?thesis
    by (auto simp: Verify_closed [OF assms] first_defect_def applyOptions_def Let_def split: if_splits)
next
  case (Panic p)
  then show ?thesis
    using applyOptions_no_panic [of opts] by simp
qed

theorem Verify_first_defect_witness:
  "reports (Verify sample_libs \<lparr>ds_Signature = ''84a'', ds_Key = ''zz''\<rparr> [WithEmbeddedAddress])
     (Some ErrInvalidSignatureHex)"
proof -
  have "first_defect sample_libs \<lparr>ds_Signature = ''84a'', ds_Key = ''zz''\<rparr> [WithEmbeddedAddress] =
      Some ErrInvalidSignatureHex"
    by code_simp
  then show ?thesis
    using Verify_first_defect
      [OF sample_libs_start, of "\<lparr>ds_Signature = ''84a'', ds_Key = ''zz''\<rparr>" "[WithEmbeddedAddress]"]
    by simp
qed

section \<open>What the overall verdict means\<close>

text \<open>
  The specification: the signature equation holds for the key over the Sig_structure of the
  received header and a payload, that payload is the embedded one, or the one reconstructed
  from the message when there is none; if a message is expected, the payload is its
  representation; if an address is to be checked, the key hash is acceptable for it.
\<close>

definition authentic :: "libs \<Rightarrow> Signature \<Rightarrow> verifyConfig \<Rightarrow> bool" where
  "authentic E s cfg \<longleftrightarrow>
     (\<exists>k d payload b.
        Signature_KeyHash E s = Ok (Some k) \<and>
        digest (lib_crypto E) (cfg_message cfg) (sig_Hashed s) = Ok d \<and>
        (content (sig_Payload s) = payload \<or> content (sig_Payload s) = [] \<and> cfg_hasMessage cfg) \<and>
        (cfg_hasMessage cfg \<longrightarrow> payload = content d) \<and>
        SigStructure (lib_cbor E) (sig_protectedRaw s) (Some payload) = Ok b \<and>
        ed25519_equation (lib_crypto E) (content (sig_PublicKey s)) b (content (sig_signature s)) \<and>
        (cfg_useEmbedded cfg \<longrightarrow>
          (\<exists>a. wf_cip19 a \<and> sig_Address s = Some (cip19_encode a) \<and> accepts a k (cfg_strict cfg))) \<and>
        (cfg_hasAddress cfg \<longrightarrow>
          (\<exists>a. wf_cip19 a \<and> Decode (lib_bech32 E) (cfg_address cfg) = Ok (of_cip19 a) \<and>
             accepts a k (cfg_strict cfg))))"

lemma cip30_Parse_lens:
  assumes "cip30_Parse E sig = Ok s"
  shows "len (sig_PublicKey s) = 32" "len (sig_signature s) = 64"
  using assms by (auto simp: cip30_Parse_def outcome_simps dest: DecodeSign1_lens DecodeKey_len)

lemma applyOptions_exclusive:
  "applyOptions opts = Ok cfg \<Longrightarrow> \<not> (cfg_hasAddress cfg \<and> cfg_useEmbedded cfg)"
  by (auto simp: applyOptions_def Let_def split: if_splits)

lemma Valid_simps [simp]:
  "Valid (r\<lparr>res_Address := Some c\<rparr>) \<longleftrightarrow> Valid (r\<lparr>res_Address := None\<rparr>) \<and> ac_Matched c"
  by (simp add: Valid_def)

lemma Valid_base_result:
  "Valid (base_result E s cfg) \<longleftrightarrow> signs E s (chosen_payload E s cfg) \<and>
     (cfg_hasMessage cfg \<longrightarrow> chosen_payload E s cfg = expected E s (cfg_message cfg))"
  by (auto simp: Valid_def base_result_def chosen_payload_def)

lemma base_result_Address [simp]: "(base_result E s cfg)\<lparr>res_Address := None\<rparr> = base_result E s cfg"
  by (simp add: base_result_def)

lemma addressCheck_matched:
  assumes "libs_start E" "cfg_hasAddress cfg \<or> cfg_useEmbedded cfg"
    and "\<not> (cfg_hasAddress cfg \<and> cfg_useEmbedded cfg)"
  shows "(\<exists>c. addressCheck E s cfg = Ok c \<and> ac_Matched c) \<longleftrightarrow>
    (cfg_useEmbedded cfg \<longrightarrow>
      (\<exists>a. wf_cip19 a \<and> sig_Address s = Some (cip19_encode a) \<and>
         accepts a (key_hash E s) (cfg_strict cfg))) \<and>
    (cfg_hasAddress cfg \<longrightarrow>
      (\<exists>a. wf_cip19 a \<and> Decode (lib_bech32 E) (cfg_address cfg) = Ok (of_cip19 a) \<and>
         accepts a (key_hash E s) (cfg_strict cfg)))"
proof -
  have kh: "Signature_KeyHash E s = Ok (Some (key_hash E s))"
    using assms(1) by (simp add: KeyHash_key_hash)
  show ?thesis
  proof (cases "cfg_useEmbedded cfg")
    case True
    then have "\<not> cfg_hasAddress cfg"
      using assms(3) by simp
    have embedded: "(\<exists>c. check_with (address_Parse (sig_Address s)) (Ok (Some (key_hash E s)))
          (cfg_strict cfg) AddressEmbedded = Ok c \<and> ac_Matched c) \<longleftrightarrow>
        (\<exists>a. wf_cip19 a \<and> sig_Address s = Some (cip19_encode a) \<and>
           accepts a (key_hash E s) (cfg_strict cfg))"
      unfolding raw.check_matched using address_Parse_of_cip19 by metis
    show ?thesis
    proof (cases "len (sig_Address s) = 0")
      case True
      then have "sig_Address s \<noteq> Some (cip19_encode a)" for a
        by (auto simp: cip19_encode_def)
      then show ?thesis
        using True \<open>cfg_useEmbedded cfg\<close> by (simp add: check_with_intros)
    next
      case False
      then show ?thesis
        using \<open>cfg_useEmbedded cfg\<close> \<open>\<not> cfg_hasAddress cfg\<close> embedded
        by (simp add: check_with_intros kh)
    qed
  next
    case False
    then show ?thesis
      using assms(2) textual.check_matched [of "lib_bech32 E" "cfg_address cfg"]
      by (simp add: check_with_intros kh)
  qed
qed

lemma signs_iff:
  assumes "cip30_Parse E sig = Ok s"
  shows "signs E s payload \<longleftrightarrow>
    (\<exists>b. SigStructure (lib_cbor E) (sig_protectedRaw s) (Some payload) = Ok b \<and>
       ed25519_equation (lib_crypto E) (content (sig_PublicKey s)) b (content (sig_signature s)))"
  using cip30_Parse_lens [OF assms] by (auto simp: signs_def split: outcome.split)

text \<open>The specification with its intermediate values named.\<close>

lemma authentic_iff:
  assumes "libs_start E" "cip30_Parse E sig = Ok s"
  shows "authentic E s cfg \<longleftrightarrow> Valid (base_result E s cfg) \<and>
    (cfg_useEmbedded cfg \<longrightarrow>
      (\<exists>a. wf_cip19 a \<and> sig_Address s = Some (cip19_encode a) \<and>
         accepts a (key_hash E s) (cfg_strict cfg))) \<and>
    (cfg_hasAddress cfg \<longrightarrow>
      (\<exists>a. wf_cip19 a \<and> Decode (lib_bech32 E) (cfg_address cfg) = Ok (of_cip19 a) \<and>
         accepts a (key_hash E s) (cfg_strict cfg)))"
proof -
  have kh: "Signature_KeyHash E s = Ok (Some (key_hash E s))"
    using assms(1) by (simp add: KeyHash_key_hash)
  obtain d where d: "digest (lib_crypto E) (cfg_message cfg) (sig_Hashed s) = Ok d"
      "content d = expected E s (cfg_message cfg)"
    using assms(1) by (rule digest_expected)
  show ?thesis
    unfolding authentic_def Valid_base_result signs_iff [OF assms(2)]
    by (auto simp: kh d chosen_payload_def detached_def len_eq_0)
qed

lemma obind2_holds:
  "(\<exists>r. obind m (\<lambda>c. obind n (f c)) = Ok r \<and> P r) \<longleftrightarrow>
     (\<exists>c s. m = Ok c \<and> n = Ok s \<and> (\<exists>r. f c s = Ok r \<and> P r))"
  by (cases m; cases n) simp_all

lemma Verify_valid:
  assumes "libs_start E"
  shows "(\<exists>r. Verify E sig opts = Ok r \<and> Valid r) \<longleftrightarrow>
    (\<exists>cfg s. applyOptions opts = Ok cfg \<and> cip30_Parse E sig = Ok s \<and> authentic E s cfg)"
proof -
  have step: "(\<exists>r. (if cfg_hasAddress cfg \<or> cfg_useEmbedded cfg
      then obind (addressCheck E s cfg) (\<lambda>c. Ok ((base_result E s cfg)\<lparr>res_Address := Some c\<rparr>))
      else Ok (base_result E s cfg)) = Ok r \<and> Valid r) \<longleftrightarrow> authentic E s cfg"
    if "applyOptions opts = Ok cfg" "cip30_Parse E sig = Ok s" for cfg s
  proof (cases "cfg_hasAddress cfg \<or> cfg_useEmbedded cfg")
    case True
    note matched = addressCheck_matched [OF assms True applyOptions_exclusive [OF that(1)], of s]
    show ?thesis
      unfolding authentic_iff [OF assms that(2)] matched [symmetric]
      using True by (auto simp: outcome_simps)
  qed (simp add: authentic_iff [OF assms that(2)])
  show ?thesis
    unfolding Verify_closed [OF assms] obind2_holds using step by (simp cong: conj_cong)
qed

end
