(* ===== verification/Wallet.thy ===== *)
theory Wallet
  imports Verify
begin

text \<open>
  \<open>Parse\<close> on wire bytes, the primary test vector included; then an honest wallet: the data
  signature it produces for an address, a payload and a key, in the shape CIP-8 and CIP-30
  prescribe, and the proof that \<open>Parse\<close> gives back exactly what was put in.  A sample signature
  serves the closed instances of the properties.
\<close>

section \<open>Parsing on the wire\<close>

lemma Parse_agrees:
  assumes "cbor_documented (lib_cbor E)"
    and "hex_DecodeString (ds_Signature g) = Ok sb" "hex_DecodeString (ds_Key g) = Ok kb"
    and "sign1_wire (content sb)" "key_wire (content kb)"
  shows "case (sign1_spec (content sb), key_spec (content kb)) of
      (Inl e, _) \<Rightarrow> fails_with (cip30_Parse E g) {Cip30E ErrDecodeSignature, CoseE e}
    | (Inr s, Inl e) \<Rightarrow> fails_with (cip30_Parse E g) {Cip30E ErrDecodeKey, CoseE e}
    | (Inr s, Inr k) \<Rightarrow> cip30_Parse E g = Ok
        \<lparr>sig_PublicKey = k, sig_Payload = s1_Payload s, sig_Hashed = s1_Hashed s,
         sig_Address = s1_Address s, sig_protectedRaw = s1_ProtectedRaw s,
         sig_signature = s1_Signature s\<rparr>"
  using DecodeSign1_agrees [OF assms(1,4)] DecodeKey_agrees [OF assms(1,5)] assms(2,3)
  by (auto simp: cip30_Parse_def fails_with_iff split: sum.split)

text \<open>C38. \<open>Parse\<close> is functionally correct on the wire: of hex strings whose bytes the statements on
  the two decoders cover, it returns the key of the COSE_Key and the fields of the COSE_Sign1 as
  the reference readings of the bytes have them, or, the signature before the key, the public
  sentinel of the malformed structure over the sentinel of its first defect.\<close>

theorem Parse_wire:
  assumes "cbor_documented (lib_cbor E)"
    and "hex_DecodeString (ds_Signature g) = Ok sb" "hex_DecodeString (ds_Key g) = Ok kb"
    and "sign1_wire (content sb)" "key_wire (content kb)"
  shows "case (sign1_spec (content sb), key_spec (content kb)) of
      (Inl e, _) \<Rightarrow> fails_with (cip30_Parse E g) {Cip30E ErrDecodeSignature, CoseE e}
    | (Inr s, Inl e) \<Rightarrow> fails_with (cip30_Parse E g) {Cip30E ErrDecodeKey, CoseE e}
    | (Inr s, Inr k) \<Rightarrow> cip30_Parse E g = Ok
        \<lparr>sig_PublicKey = k, sig_Payload = s1_Payload s, sig_Hashed = s1_Hashed s,
         sig_Address = s1_Address s, sig_protectedRaw = s1_ProtectedRaw s,
         sig_signature = s1_Signature s\<rparr>"
  using assms by (rule Parse_agrees)

definition vector_data :: DataSignature where
  "vector_data = \<lparr>ds_Signature = hex_EncodeToString vector_sign1, ds_Key = hex_EncodeToString vector_key\<rparr>"

lemma vector_key_wire: "key_wire vector_key"
  by (rule wallet_key_ok [of vector_x]) (simp_all add: vector_key_decode wallet_key_def)

lemma vector_key_spec: "key_spec vector_key = Inr (Some vector_x)"
  using key_item_spec_wallet [of vector_x] by (simp add: key_spec_def vector_key_decode wallet_key_def)

lemma vector_data_hex:
  "hex_DecodeString (ds_Signature vector_data) = Ok (Some vector_sign1)"
  "hex_DecodeString (ds_Key vector_data) = Ok (Some vector_key)"
  by (simp_all add: vector_data_def)

theorem Parse_wire_witness:
  "cip30_Parse sample_libs vector_data = Ok
     \<lparr>sig_PublicKey = Some vector_x, sig_Payload = Some vector_payload, sig_Hashed = False,
      sig_Address = Some vector_address, sig_protectedRaw = Some vector_protected,
      sig_signature = Some vector_signature\<rparr>"
  using Parse_wire [OF _ vector_data_hex, of sample_libs] ref_cbor_documented sign1_wire_vector
    vector_key_wire
  by (simp add: sign1_spec_vector vector_key_spec)

section \<open>Data signatures on the wire\<close>

definition wallet_data :: "bytes \<Rightarrow> bool \<Rightarrow> slice \<Rightarrow> bytes \<Rightarrow> bytes \<Rightarrow> DataSignature" where
  "wallet_data address hashed payload sg pk =
     \<lparr>ds_Signature = hex_EncodeToString (enc (wallet_item address hashed payload sg)),
      ds_Key = hex_EncodeToString (enc (wallet_key pk))\<rparr>"

definition wallet_parsed :: "bytes \<Rightarrow> bool \<Rightarrow> slice \<Rightarrow> bytes \<Rightarrow> bytes \<Rightarrow> Signature" where
  "wallet_parsed address hashed payload sg pk =
     \<lparr>sig_PublicKey = Some pk, sig_Payload = payload, sig_Hashed = hashed,
      sig_Address = Some address, sig_protectedRaw = Some (enc (wallet_header address)),
      sig_signature = Some sg\<rparr>"

lemma Parse_wallet_data:
  assumes "cbor_documented (lib_cbor E)" "length address < 2 ^ 32" "len payload < 2 ^ 64"
    and "length sg = 64" "length pk = 32"
  shows "cip30_Parse E (wallet_data address hashed payload sg pk) =
    Ok (wallet_parsed address hashed payload sg pk)"
proof -
  have "DecodeSign1 (lib_cbor E) (Some (enc (wallet_item address hashed payload sg))) =
      Ok \<lparr>s1_ProtectedRaw = Some (enc (wallet_header address)), s1_Payload = payload,
         s1_Signature = Some sg, s1_Alg = - 8, s1_Address = Some address, s1_Hashed = hashed\<rparr>"
    using DecodeSign1_agrees [OF assms(1), of "Some (enc (wallet_item address hashed payload sg))"]
      sign1_wire_wallet [OF assms(2-4)] sign1_spec_wallet [OF assms(2-4)]
    by (simp del: enc.simps)
  moreover have "DecodeKey (lib_cbor E) (Some (enc (wallet_key pk))) = Ok (Some pk)"
    using DecodeKey_agrees [OF assms(1), of "Some (enc (wallet_key pk))"] wallet_key_decode [OF assms(5)]
      wallet_key_ok [OF assms(5)] key_item_spec_wallet [OF assms(5)]
    by (simp add: key_spec_def del: enc.simps)
  ultimately show ?thesis
    by (simp add: cip30_Parse_def wallet_data_def wallet_parsed_def del: enc.simps)
qed

text \<open>A concrete one: the key of 32 sevens, whose hash under the sample library is \<open>key_a\<close>.\<close>

definition sample_key :: bytes where "sample_key = replicate 32 7"
definition sample_sig :: bytes where "sample_sig = replicate 64 7"

definition sample_data :: DataSignature where
  "sample_data = wallet_data (cip19_encode enterprise_a) False (Some [104, 105]) sample_sig sample_key"

definition sample_parsed :: Signature where
  "sample_parsed = wallet_parsed (cip19_encode enterprise_a) False (Some [104, 105]) sample_sig sample_key"

lemma sample_lengths [simp]: "length sample_key = 32" "length sample_sig = 64"
  by (simp_all add: sample_key_def sample_sig_def)

lemma length_enterprise_a: "length (cip19_encode enterprise_a) = 29"
  by (simp add: cip19_encode_def enterprise_a_def key_a_def)

lemma sample_cbor_documented: "cbor_documented (lib_cbor sample_libs)"
  using ref_cbor_documented by simp

lemma Parse_sample_data: "cip30_Parse sample_libs sample_data = Ok sample_parsed"
  unfolding sample_data_def sample_parsed_def
  by (rule Parse_wallet_data [OF sample_cbor_documented]) (simp_all add: length_enterprise_a)

lemma KeyHash_sample: "Signature_KeyHash sample_libs sample_parsed = Ok (Some key_a)"
  by (simp add: Signature_KeyHash_def keyHash224_def keyHashSize_def sample_crypto_def
      sample_parsed_def wallet_parsed_def sample_key_def key_a_def)

text \<open>The sample is authentic for its own message and the address in its header.\<close>

lemma SigStructure_sample:
  "SigStructure ref_cbor (sig_protectedRaw sample_parsed) (Some [104, 105]) =
     Ok (enc (sig_structure (sig_protectedRaw sample_parsed) [104, 105]))"
proof -
  have "length (enc (wallet_header (cip19_encode enterprise_a))) \<le> 59"
    using enc_wallet_header [of "cip19_encode enterprise_a"] by (simp add: length_enterprise_a)
  then show ?thesis
    using SigStructure_enc [of ref_cbor "sig_protectedRaw sample_parsed" "Some [104, 105]"]
      ref_cbor_documented
    by (simp add: cbor_documented_def sample_parsed_def wallet_parsed_def del: enc.simps)
qed

lemma sample_authentic:
  assumes "\<not> cfg_hasAddress cfg" "cfg_hasMessage cfg \<longrightarrow> content (cfg_message cfg) = [104, 105]"
  shows "authentic sample_libs sample_parsed cfg"
proof -
  have fs: "sig_Payload sample_parsed = Some [104, 105]" "\<not> sig_Hashed sample_parsed"
      "sig_Address sample_parsed = Some (cip19_encode enterprise_a)"
      "sig_PublicKey sample_parsed = Some sample_key" "sig_signature sample_parsed = Some sample_sig"
    by (simp_all add: sample_parsed_def wallet_parsed_def)
  have eqn: "ed25519_equation sample_crypto sample_key b sample_sig" for b
    by (simp add: sample_crypto_def sample_key_def sample_sig_def)
  have "accepts enterprise_a key_a strict" for strict
    by (simp add: enterprise_a_def)
  then have "\<exists>a. wf_cip19 a \<and> Some (cip19_encode enterprise_a) = Some (cip19_encode a) \<and>
      accepts a key_a (cfg_strict cfg)"
    using wf_samples(2) by blast
  then show ?thesis
    unfolding authentic_def
    by (rule_tac x = key_a in exI, rule_tac x = "cfg_message cfg" in exI,
        rule_tac x = "[104, 105]" in exI, rule_tac x = "enc (sig_structure (sig_protectedRaw sample_parsed) [104, 105])" in exI)
      (use assms in \<open>simp add: KeyHash_sample SigStructure_sample fs eqn del: enc.simps\<close>)
qed

lemma sample_valid:
  assumes "applyOptions opts = Ok cfg" "\<not> cfg_hasAddress cfg"
    and "cfg_hasMessage cfg \<longrightarrow> content (cfg_message cfg) = [104, 105]"
  shows "\<exists>r. Verify sample_libs sample_data opts = Ok r \<and> Valid r"
  using Verify_valid [OF sample_libs_start] sample_authentic [OF assms(2,3)] assms(1) Parse_sample_data
  by blast

lemma wallet_authentic:
  assumes "cbor_documented (lib_cbor E)" "length address < 2 ^ 32" "length p < 2 ^ 64"
    and "payload = Some p \<or> payload = None" "keyHash224 (lib_crypto E) (Some pk) = Ok (Some k)"
    and "cfg_hasMessage cfg" "\<not> cfg_hasAddress cfg"
    and "digest (lib_crypto E) (cfg_message cfg) hashed = Ok d" "content d = p"
    and "ed25519_equation (lib_crypto E) pk (enc (sig_structure (Some (enc (wallet_header address))) p)) sg"
    and "cfg_useEmbedded cfg \<longrightarrow>
      (\<exists>a. wf_cip19 a \<and> address = cip19_encode a \<and> accepts a k (cfg_strict cfg))"
  shows "authentic E (wallet_parsed address hashed payload sg pk) cfg"
proof -
  have "length (enc (wallet_header address)) < 2 ^ 64"
    using enc_wallet_header [of address] assms(2) by simp
  then have signed: "SigStructure (lib_cbor E) (Some (enc (wallet_header address))) (Some p) =
      Ok (enc (sig_structure (Some (enc (wallet_header address))) p))"
    using SigStructure_enc [of "lib_cbor E" "Some (enc (wallet_header address))" "Some p"] assms(1,3)
    by (simp add: cbor_documented_def del: enc.simps)
  show ?thesis
    unfolding authentic_def
    by (rule exI [of _ k], rule exI [of _ d], rule exI [of _ p], rule exI)
      (use assms signed in \<open>auto simp: wallet_parsed_def Signature_KeyHash_def simp del: enc.simps\<close>)
qed

lemma wallet_valid:
  assumes "libs_start E" "cbor_documented (lib_cbor E)" "applyOptions opts = Ok cfg"
    and "length address < 2 ^ 32" "len payload < 2 ^ 64" "length sg = 64" "length pk = 32"
    and "authentic E (wallet_parsed address hashed payload sg pk) cfg"
  shows "\<exists>r. Verify E (wallet_data address hashed payload sg pk) opts = Ok r \<and> Valid r"
  using Verify_valid [OF assms(1)] Parse_wallet_data [OF assms(2,4-7)] assms(3,8) by blast

text \<open>C12. Round trip: \<open>Parse\<close> returns exactly the key, payload, flag, address and signature a
  CIP-30 wallet encodes, a null payload as nil, and the protected header as it was encoded.\<close>

theorem Parse_inverts_wallet:
  assumes "cbor_documented (lib_cbor E)" "length address < 2 ^ 32" "len payload < 2 ^ 64"
    and "length sg = 64" "length pk = 32"
  shows "cip30_Parse E (wallet_data address hashed payload sg pk) =
    Ok \<lparr>sig_PublicKey = Some pk, sig_Payload = payload, sig_Hashed = hashed,
        sig_Address = Some address, sig_protectedRaw = Some (enc (wallet_header address)),
        sig_signature = Some sg\<rparr>"
  using Parse_wallet_data [OF assms] by (simp add: wallet_parsed_def)

theorem Parse_inverts_wallet_witness:
  "cip30_Parse sample_libs (wallet_data [0x61] True None sample_sig sample_key) =
    Ok \<lparr>sig_PublicKey = Some sample_key, sig_Payload = None, sig_Hashed = True,
        sig_Address = Some [0x61], sig_protectedRaw = Some (enc (wallet_header [0x61])),
        sig_signature = Some sample_sig\<rparr>"
  by (rule Parse_inverts_wallet [OF sample_cbor_documented]) simp_all

text \<open>C11. Completeness for honest wallets: if the key signs the Sig_structure of the payload that
  represents the message, and the key hash is acceptable for the address in the header, then
  checking message and embedded address succeeds with a valid result, payload attached or
  detached.\<close>

theorem honest_wallet_accepted:
  assumes "libs_start E" "cbor_documented (lib_cbor E)"
    and "length sg = 64" "length pk = 32" "length p < 2 ^ 64" "payload = Some p \<or> payload = None"
    and "keyHash224 (lib_crypto E) (Some pk) = Ok (Some k)"
    and "wf_cip19 a" "accepts a k strict"
    and "digest (lib_crypto E) m hashed = Ok d" "content d = p"
    and "ed25519_equation (lib_crypto E) pk
      (enc (sig_structure (Some (enc (wallet_header (cip19_encode a)))) p)) sg"
  shows "\<exists>r. Verify E (wallet_data (cip19_encode a) hashed payload sg pk)
      ([WithMessage m, WithEmbeddedAddress] @ (if strict then [StrictAddress] else [])) = Ok r \<and> Valid r"
proof (rule wallet_valid [OF assms(1,2)])
  let ?cfg = "\<lparr>cfg_message = m, cfg_hasMessage = True, cfg_address = '''', cfg_hasAddress = False,
    cfg_useEmbedded = True, cfg_strict = strict\<rparr>"
  show "applyOptions ([WithMessage m, WithEmbeddedAddress] @ (if strict then [StrictAddress] else [])) = Ok ?cfg"
    by (simp add: applyOptions_def Let_def WithMessage_def WithEmbeddedAddress_def StrictAddress_def
        zero_config_def)
  show address: "length (cip19_encode a) < 2 ^ 32"
    using assms(8) by (cases a) (auto simp: cip19_encode_def wf_cred_def)
  show "authentic E (wallet_parsed (cip19_encode a) hashed payload sg pk) ?cfg"
    by (rule wallet_authentic [OF assms(2) address assms(5-7)]) (use assms in auto)
qed (use assms in auto)

theorem honest_wallet_accepted_witness:
  "\<exists>r. Verify sample_libs sample_data [WithMessage (Some [104, 105]), WithEmbeddedAddress, StrictAddress] =
    Ok r \<and> Valid r"
proof -
  have kh: "keyHash224 sample_crypto (Some sample_key) = Ok (Some key_a)"
    by (simp add: keyHash224_def keyHashSize_def sample_crypto_def sample_key_def key_a_def)
  have eqn: "ed25519_equation sample_crypto sample_key b sample_sig" for b
    by (simp add: sample_crypto_def sample_key_def sample_sig_def)
  show ?thesis
    using honest_wallet_accepted [of sample_libs sample_sig sample_key "[104, 105]" "Some [104, 105]"
        key_a enterprise_a True "Some [104, 105]" False "Some [104, 105]"]
    by (simp add: kh eqn ref_cbor_documented sample_data_def)
      (simp add: enterprise_a_def)
qed

text \<open>C36. An empty payload stays an empty byte string: \<open>Parse\<close> does not turn it into nil, and it
  counts as detached all the same, with the same signed bytes as a null one.\<close>

theorem empty_payload_detached:
  assumes "cbor_documented (lib_cbor E)" "length address < 2 ^ 32" "length sg = 64" "length pk = 32"
  shows "\<exists>s t. cip30_Parse E (wallet_data address hashed (Some []) sg pk) = Ok s \<and>
    cip30_Parse E (wallet_data address hashed None sg pk) = Ok t \<and>
    sig_Payload s = Some [] \<and> sig_Payload t = None \<and> detached s \<and> detached t \<and>
    Signature_Verify E s = Signature_Verify E t"
  using assms Parse_wallet_data [of E address "Some []" sg pk hashed]
    Parse_wallet_data [of E address None sg pk hashed]
  by (simp add: wallet_parsed_def detached_def Signature_Verify_def verifyPayload_signs signs_def
      cong: outcome.case_cong)

theorem empty_payload_detached_witness:
  "\<exists>s. cip30_Parse sample_libs (wallet_data [0x61] False (Some []) sample_sig sample_key) = Ok s \<and>
    sig_Payload s = Some [] \<and> detached s"
  using empty_payload_detached [OF sample_cbor_documented, of "[0x61]" sample_sig sample_key False]
  by auto

end
