(* ===== verification/Verdict.thy ===== *)
theory Verdict
  imports Wallet
begin

text \<open>
  The properties of \<open>Verify\<close> a caller relies on, over all its components: what a valid
  result proves, how options combine, how the result relates to the public methods, and what is
  and is not covered by the signature.
\<close>

section \<open>Options\<close>

text \<open>The calls a client can build an option from.\<close>

datatype option_call = CallMessage slice | CallAddress string | CallEmbedded | CallStrict

primrec run_call :: "option_call \<Rightarrow> VerifyOption" where
  "run_call (CallMessage m) = WithMessage m"
| "run_call (CallAddress a) = WithAddress a"
| "run_call CallEmbedded = WithEmbeddedAddress"
| "run_call CallStrict = StrictAddress"

fun last_message :: "option_call list \<Rightarrow> slice option" where
  "last_message [] = None"
| "last_message (CallMessage m # os) = (case last_message os of None \<Rightarrow> Some m | Some n \<Rightarrow> Some n)"
| "last_message (_ # os) = last_message os"

fun last_address :: "option_call list \<Rightarrow> string option" where
  "last_address [] = None"
| "last_address (CallAddress a # os) = (case last_address os of None \<Rightarrow> Some a | Some b \<Rightarrow> Some b)"
| "last_address (_ # os) = last_address os"

definition config_of :: "option_call list \<Rightarrow> verifyConfig" where
  "config_of os = \<lparr>
     cfg_message = (case last_message os of None \<Rightarrow> None | Some m \<Rightarrow> m),
     cfg_hasMessage = (last_message os \<noteq> None),
     cfg_address = (case last_address os of None \<Rightarrow> '''' | Some a \<Rightarrow> a),
     cfg_hasAddress = (last_address os \<noteq> None),
     cfg_useEmbedded = (CallEmbedded \<in> set os),
     cfg_strict = (CallStrict \<in> set os)\<rparr>"

lemma last_message_snoc:
  "last_message (os @ [x]) = (case x of CallMessage m \<Rightarrow> Some m | _ \<Rightarrow> last_message os)"
  by (induction os rule: last_message.induct) (auto split: option_call.split option.split)

lemma last_address_snoc:
  "last_address (os @ [x]) = (case x of CallAddress a \<Rightarrow> Some a | _ \<Rightarrow> last_address os)"
  by (induction os rule: last_address.induct) (auto split: option_call.split option.split)

lemma fold_run_call: "fold (\<lambda>opt c. opt c) (map run_call os) zero_config = config_of os"
proof (induction os rule: rev_induct)
  case Nil
  then show ?case
    by (simp add: zero_config_def config_of_def)
next
  case (snoc x os)
  then show ?case
    by (cases x) (simp_all add: config_of_def last_message_snoc last_address_snoc WithMessage_def
        WithAddress_def WithEmbeddedAddress_def StrictAddress_def)
qed

text \<open>C30. Options: whatever their order and number, the last \<open>WithMessage\<close> and the last
  \<open>WithAddress\<close> count, the two flags count once given, and a supplied address together with the
  embedded one is refused as a conflict.\<close>

theorem applyOptions_last_wins:
  "applyOptions (map run_call os) =
     (if last_address os \<noteq> None \<and> CallEmbedded \<in> set os then Err (cip30_error ErrConflictingAddress)
      else Ok (config_of os))"
  unfolding applyOptions_def fold_run_call by (simp add: config_of_def)

section \<open>What a valid result proves\<close>

lemmas option_defs =
  WithMessage_def WithAddress_def WithEmbeddedAddress_def StrictAddress_def zero_config_def

lemma sample_valid_message:
  "\<exists>r. Verify sample_libs sample_data [WithMessage (Some [104, 105])] = Ok r \<and> Valid r"
  by (rule sample_valid [where cfg = "config_of [CallMessage (Some [104, 105])]"])
    (simp_all add: applyOptions_def option_defs config_of_def)

text \<open>C1. Soundness and completeness of the verdict: \<open>Verify\<close> returns a result whose
  \<open>Valid\<close> is true exactly when the options do not conflict, the input parses, and the
  signature is authentic in the sense of the specification: nothing else is accepted, and nothing
  authentic is refused.\<close>

theorem Verify_Valid_iff_authentic:
  assumes "libs_start E"
  shows "(\<exists>r. Verify E sig opts = Ok r \<and> Valid r) \<longleftrightarrow>
    (\<exists>cfg s. applyOptions opts = Ok cfg \<and> cip30_Parse E sig = Ok s \<and> authentic E s cfg)"
  using assms by (rule Verify_valid)

theorem Verify_Valid_iff_authentic_witness:
  "\<exists>cfg s. applyOptions [WithMessage (Some [104, 105])] = Ok cfg \<and>
    cip30_Parse sample_libs sample_data = Ok s \<and> authentic sample_libs s cfg"
  using Verify_Valid_iff_authentic [OF sample_libs_start] sample_valid_message by blast

text \<open>C2. Verified identity: a valid result under \<open>WithEmbeddedAddress\<close> and
  \<open>StrictAddress\<close> proves that the address in the signed header is the canonical encoding of
  one paid to the hash of the signing key, or the reward address of that key.\<close>

theorem embedded_strict_identity:
  assumes "libs_start E" "Verify E sig [WithEmbeddedAddress, StrictAddress] = Ok r" "Valid r"
  shows "\<exists>s k n. cip30_Parse E sig = Ok s \<and> Signature_KeyHash E s = Ok (Some k) \<and> n \<le> 15 \<and>
    ((\<exists>c. sig_Address s = Some (cip19_encode (Base n (KeyHash k) c))) \<or>
     sig_Address s = Some (cip19_encode (Enterprise n (KeyHash k))) \<or>
     sig_Address s = Some (cip19_encode (Reward n (KeyHash k))))"
proof -
  obtain cfg s where cfg: "applyOptions [WithEmbeddedAddress, StrictAddress] = Ok cfg"
      and s: "cip30_Parse E sig = Ok s" "authentic E s cfg"
    using Verify_valid [OF assms(1)] assms(2,3) by blast
  have "cfg_useEmbedded cfg" "cfg_strict cfg"
    using cfg by (auto simp: applyOptions_def WithEmbeddedAddress_def StrictAddress_def zero_config_def)
  then obtain k a where a: "Signature_KeyHash E s = Ok (Some k)" "wf_cip19 a"
      "sig_Address s = Some (cip19_encode a)" "accepts a k True"
    using s(2) unfolding authentic_def by auto
  from a(2) show ?thesis
    using a(1,3,4) s(1) by (cases rule: wf_cip19_cases) auto
qed

lemma sample_valid_embedded:
  "\<exists>r. Verify sample_libs sample_data [WithEmbeddedAddress, StrictAddress] = Ok r \<and> Valid r"
  by (rule sample_valid [where cfg = "config_of [CallEmbedded, CallStrict]"])
    (simp_all add: applyOptions_def option_defs config_of_def)

theorem embedded_strict_identity_witness:
  "\<exists>s k n. cip30_Parse sample_libs sample_data = Ok s \<and>
    Signature_KeyHash sample_libs s = Ok (Some k) \<and> n \<le> 15 \<and>
    ((\<exists>c. sig_Address s = Some (cip19_encode (Base n (KeyHash k) c))) \<or>
     sig_Address s = Some (cip19_encode (Enterprise n (KeyHash k))) \<or>
     sig_Address s = Some (cip19_encode (Reward n (KeyHash k))))"
proof -
  obtain r where "Verify sample_libs sample_data [WithEmbeddedAddress, StrictAddress] = Ok r" "Valid r"
    using sample_valid_embedded by blast
  then show ?thesis
    by (rule embedded_strict_identity [OF sample_libs_start])
qed

text \<open>C19. Strict mode only narrows: whatever the other options, a signature that is valid with
  \<open>StrictAddress\<close> added is valid without it.\<close>

theorem strict_only_narrows:
  assumes "libs_start E" "Verify E sig (StrictAddress # map run_call os) = Ok r" "Valid r"
  shows "\<exists>r'. Verify E sig (map run_call os) = Ok r' \<and> Valid r'"
proof -
  have strict: "StrictAddress # map run_call os = map run_call (CallStrict # os)"
    by simp
  obtain s where s: "cip30_Parse E sig = Ok s" "authentic E s (config_of (CallStrict # os))"
      and free: "\<not> (last_address os \<noteq> None \<and> CallEmbedded \<in> set os)"
    using Verify_valid [OF assms(1), of sig "map run_call (CallStrict # os)"] assms(2,3)
    unfolding strict applyOptions_def fold_run_call
    by (auto simp: config_of_def Let_def split: if_splits)
  from s(2) have "authentic E s (config_of os)"
    unfolding authentic_def config_of_def
    by simp (blast intro: accepts_strict_imp)
  moreover have "applyOptions (map run_call os) = Ok (config_of os)"
    using free unfolding applyOptions_def fold_run_call by (auto simp: config_of_def)
  ultimately show ?thesis
    using Verify_valid [OF assms(1)] s(1) by blast
qed

theorem strict_only_narrows_witness:
  "\<exists>r'. Verify sample_libs sample_data (map run_call [CallEmbedded]) = Ok r' \<and> Valid r'"
proof -
  have "\<exists>r. Verify sample_libs sample_data (StrictAddress # map run_call [CallEmbedded]) = Ok r \<and> Valid r"
    by (rule sample_valid [where cfg = "config_of [CallStrict, CallEmbedded]"])
      (simp_all add: applyOptions_def option_defs config_of_def)
  then show ?thesis
    using strict_only_narrows [OF sample_libs_start] by blast
qed

section \<open>The message\<close>

text \<open>C14. An attached payload vouches for one message: if the same data signature is valid for two
  expected messages, both stand for its payload; and when the payload is not a digest, the two
  messages are the same bytes.\<close>

theorem attached_message_unique:
  assumes "libs_start E" "cip30_Parse E sig = Ok s" "\<not> detached s"
    and "Verify E sig [WithMessage m] = Ok r" "Valid r"
    and "Verify E sig [WithMessage n] = Ok r'" "Valid r'"
  shows "(\<exists>d e. digest (lib_crypto E) m (sig_Hashed s) = Ok d \<and>
      digest (lib_crypto E) n (sig_Hashed s) = Ok e \<and>
      content d = content (sig_Payload s) \<and> content e = content (sig_Payload s)) \<and>
    (\<not> sig_Hashed s \<longrightarrow> content m = content n)"
proof -
  have payload: "\<exists>d. digest (lib_crypto E) x (sig_Hashed s) = Ok d \<and> content d = content (sig_Payload s)"
    if valid: "Verify E sig [WithMessage x] = Ok v" "Valid v" for x v
  proof -
    obtain cfg where "applyOptions [WithMessage x] = Ok cfg" "authentic E s cfg"
      using Verify_valid [OF assms(1), of sig "[WithMessage x]"] valid assms(2) by auto
    moreover from this(1) have "cfg_hasMessage cfg" "cfg_message cfg = x"
      by (auto simp: applyOptions_def option_defs)
    ultimately show ?thesis
      using assms(3) unfolding authentic_def detached_def len_eq_0 by auto
  qed
  from payload [OF assms(4,5)] payload [OF assms(6,7)] show ?thesis
    by auto
qed

theorem attached_message_unique_witness:
  "\<exists>d e. digest sample_crypto (Some [104, 105]) (sig_Hashed sample_parsed) = Ok d \<and>
     digest sample_crypto (Some [104, 105]) (sig_Hashed sample_parsed) = Ok e \<and>
     content d = content (sig_Payload sample_parsed) \<and> content e = content (sig_Payload sample_parsed)"
proof -
  obtain r where r: "Verify sample_libs sample_data [WithMessage (Some [104, 105])] = Ok r" "Valid r"
    using sample_valid_message by blast
  have "\<not> detached sample_parsed"
    by (simp add: detached_def sample_parsed_def wallet_parsed_def)
  from attached_message_unique [OF sample_libs_start Parse_sample_data this r r] show ?thesis
    by simp
qed

section \<open>The result and the public methods\<close>

lemma Verify_result:
  assumes "libs_start E" "Verify E sig opts = Ok r"
  obtains cfg s where "applyOptions opts = Ok cfg" "cip30_Parse E sig = Ok s"
    "r = (base_result E s cfg)\<lparr>res_Address := res_Address r\<rparr>"
    "if cfg_hasAddress cfg \<or> cfg_useEmbedded cfg
     then \<exists>c. addressCheck E s cfg = Ok c \<and> res_Address r = Some c else res_Address r = None"
proof -
  obtain cfg s where *: "applyOptions opts = Ok cfg" "cip30_Parse E sig = Ok s"
      "(if cfg_hasAddress cfg \<or> cfg_useEmbedded cfg
        then obind (addressCheck E s cfg) (\<lambda>c. Ok ((base_result E s cfg)\<lparr>res_Address := Some c\<rparr>))
        else Ok (base_result E s cfg)) = Ok r"
    using assms(2) unfolding Verify_closed [OF assms(1)] by (elim obind_OkE) blast
  show ?thesis
  proof (rule that [OF *(1,2)])
    show "r = (base_result E s cfg)\<lparr>res_Address := res_Address r\<rparr>"
      "if cfg_hasAddress cfg \<or> cfg_useEmbedded cfg
       then \<exists>c. addressCheck E s cfg = Ok c \<and> res_Address r = Some c else res_Address r = None"
      using *(3) by (auto simp: outcome_simps base_result_def split: if_splits)
  qed
qed

text \<open>C20. The result is the composition of the public methods: its message check is what
  \<open>VerifyMessage\<close> reports, its key hash what \<open>KeyHash\<close> returns, its signature verdict what
  \<open>Signature.Verify\<close> says unless a message is expected of a detached payload, when it is the
  message verdict; a supplied address is checked as \<open>MatchesAddress\<close> checks it.\<close>

theorem Verify_composes_methods:
  assumes "libs_start E" "Verify E sig (map run_call os) = Ok r"
  shows "\<exists>s. cip30_Parse E sig = Ok s \<and> res_PublicKey r = sig_PublicKey s \<and>
    Signature_KeyHash E s = Ok (res_KeyHash r) \<and>
    (case last_message os of
       None \<Rightarrow> res_Message r = None \<and> Signature_Verify E s = Ok (res_SignatureValid r)
     | Some m \<Rightarrow> \<exists>c. VerifyMessage E s m = Ok c \<and> res_Message r = Some c \<and>
         (if detached s then mc_Matched c = res_SignatureValid r
          else Signature_Verify E s = Ok (res_SignatureValid r))) \<and>
    (case last_address os of
       None \<Rightarrow> CallEmbedded \<notin> set os \<longrightarrow> res_Address r = None
     | Some a \<Rightarrow> \<exists>c. res_Address r = Some c \<and>
         MatchesAddress E s a (if CallStrict \<in> set os then [StrictAddress] else []) = Ok c)"
proof -
  obtain cfg s where *: "applyOptions (map run_call os) = Ok cfg" "cip30_Parse E sig = Ok s"
      "r = (base_result E s cfg)\<lparr>res_Address := res_Address r\<rparr>"
      "if cfg_hasAddress cfg \<or> cfg_useEmbedded cfg
       then \<exists>c. addressCheck E s cfg = Ok c \<and> res_Address r = Some c else res_Address r = None"
    using assms by (rule Verify_result)
  from *(1) have cfg: "cfg = config_of os" "\<not> (cfg_hasAddress cfg \<and> cfg_useEmbedded cfg)"
    unfolding applyOptions_def fold_run_call by (auto simp: Let_def split: if_splits)
  have fs: "res_SignatureValid r = signs E s (chosen_payload E s cfg)"
      "res_Message r = res_Message (base_result E s cfg)"
      "res_PublicKey r = sig_PublicKey s" "res_KeyHash r = Some (key_hash E s)"
    by (subst *(3); simp add: base_result_def)+
  have strict: "applyOptions (if CallStrict \<in> set os then [StrictAddress] else []) =
      Ok (zero_config\<lparr>cfg_strict := cfg_strict cfg\<rparr>)"
    by (simp add: applyOptions_def option_defs cfg(1) config_of_def)
  have message: "case last_message os of
       None \<Rightarrow> res_Message r = None \<and> Signature_Verify E s = Ok (res_SignatureValid r)
     | Some m \<Rightarrow> \<exists>c. VerifyMessage E s m = Ok c \<and> res_Message r = Some c \<and>
         (if detached s then mc_Matched c = res_SignatureValid r
          else Signature_Verify E s = Ok (res_SignatureValid r))"
    using assms(1) by (cases "detached s") (auto simp: fs Signature_Verify_signs VerifyMessage_closed base_result_def
        chosen_payload_def cfg(1) config_of_def split: option.split)
  have address: "case last_address os of
       None \<Rightarrow> CallEmbedded \<notin> set os \<longrightarrow> res_Address r = None
     | Some a \<Rightarrow> \<exists>c. res_Address r = Some c \<and>
         MatchesAddress E s a (if CallStrict \<in> set os then [StrictAddress] else []) = Ok c"
    using *(4) cfg(2) unfolding check_with_intros strict
    by (auto simp: cfg(1) config_of_def split: option.split if_splits)
  show ?thesis
    using *(2) fs(3,4) KeyHash_key_hash [OF assms(1), of s] message address
    by (intro exI [of _ s]) simp
qed

theorem Verify_composes_methods_witness:
  "\<exists>r c. Verify sample_libs sample_data [WithMessage (Some [104, 105])] = Ok r \<and>
    Signature_KeyHash sample_libs sample_parsed = Ok (res_KeyHash r) \<and>
    VerifyMessage sample_libs sample_parsed (Some [104, 105]) = Ok c \<and> res_Message r = Some c \<and>
    res_Address r = None"
proof -
  obtain r where r: "Verify sample_libs sample_data [WithMessage (Some [104, 105])] = Ok r"
    using sample_valid_message by blast
  from Verify_composes_methods [OF sample_libs_start, of sample_data "[CallMessage (Some [104, 105])]" r] r
  show ?thesis
    by (auto simp: Parse_sample_data)
qed

text \<open>C15. A detached message is proved by the signature alone: its match is the signature verdict,
  and the signed payload is exactly the digest of the message, or the message itself when the
  \<open>hashed\<close> flag is off.\<close>

theorem detached_message_verdict:
  assumes "libs_start E" "Verify E sig [WithMessage m] = Ok r" "cip30_Parse E sig = Ok s" "detached s"
  shows "\<exists>c d. res_Message r = Some c \<and> mc_Matched c = res_SignatureValid r \<and>
    Valid r = res_SignatureValid r \<and> digest (lib_crypto E) m (sig_Hashed s) = Ok d \<and>
    verifyPayload E s d = Ok (res_SignatureValid r) \<and> (\<not> sig_Hashed s \<longrightarrow> d = m)"
proof -
  obtain cfg s' where *: "applyOptions [WithMessage m] = Ok cfg" "cip30_Parse E sig = Ok s'"
      "r = (base_result E s' cfg)\<lparr>res_Address := res_Address r\<rparr>"
      "if cfg_hasAddress cfg \<or> cfg_useEmbedded cfg
       then \<exists>c. addressCheck E s' cfg = Ok c \<and> res_Address r = Some c else res_Address r = None"
    using assms(1,2) by (rule Verify_result)
  have cfg: "cfg_hasMessage cfg" "cfg_message cfg = m" "\<not> cfg_hasAddress cfg" "\<not> cfg_useEmbedded cfg"
    using *(1) by (auto simp: applyOptions_def option_defs)
  have s: "s' = s"
    using *(2) assms(3) by simp
  have r: "r = base_result E s cfg"
    using *(3,4) cfg(3,4) s by simp
  obtain d where d: "digest (lib_crypto E) m (sig_Hashed s) = Ok d" "content d = expected E s m"
    using assms(1) by (rule digest_expected)
  have "d = m" if "\<not> sig_Hashed s"
    using that d(1) by simp
  then show ?thesis
    using assms(4) d cfg by (simp add: r base_result_def Valid_def verifyPayload_signs chosen_payload_def)
qed

lemma Verify_without_address:
  assumes "libs_start E" "applyOptions opts = Ok cfg" "cip30_Parse E sig = Ok s"
    and "\<not> cfg_hasAddress cfg" "\<not> cfg_useEmbedded cfg"
  shows "Verify E sig opts = Ok (base_result E s cfg)"
  using assms by (simp add: Verify_closed)

theorem detached_message_verdict_witness:
  "\<exists>r c. Verify sample_libs (wallet_data [0x61] True None sample_sig sample_key)
      [WithMessage (Some [104, 105])] = Ok r \<and>
    res_Message r = Some c \<and> mc_Matched c = res_SignatureValid r"
proof -
  let ?s = "wallet_parsed [0x61] True None sample_sig sample_key"
  have s: "cip30_Parse sample_libs (wallet_data [0x61] True None sample_sig sample_key) = Ok ?s"
    by (rule Parse_wallet_data [OF sample_cbor_documented]) simp_all
  have "detached ?s"
    by (simp add: detached_def wallet_parsed_def)
  moreover have "Verify sample_libs (wallet_data [0x61] True None sample_sig sample_key)
      [WithMessage (Some [104, 105])] = Ok (base_result sample_libs ?s (config_of [CallMessage (Some [104, 105])]))"
    by (rule Verify_without_address [OF sample_libs_start _ s])
      (simp_all add: applyOptions_def option_defs config_of_def)
  ultimately show ?thesis
    using detached_message_verdict [OF sample_libs_start _ s] by blast
qed

text \<open>C31. The signer's identity does not depend on the verdict: every result, valid or not, carries
  the 32-byte key of the COSE_Key and its 28-byte BLAKE2b hash.\<close>

theorem Verify_identity:
  assumes "libs_start E" "Verify E sig opts = Ok r"
  shows "len (res_PublicKey r) = 32 \<and> len (res_KeyHash r) = 28 \<and>
    keyHash224 (lib_crypto E) (res_PublicKey r) = Ok (res_KeyHash r) \<and>
    (\<exists>kb. hex_DecodeString (ds_Key sig) = Ok kb \<and> DecodeKey (lib_cbor E) kb = Ok (res_PublicKey r))"
proof -
  obtain cfg s where *: "cip30_Parse E sig = Ok s" "r = (base_result E s cfg)\<lparr>res_Address := res_Address r\<rparr>"
    using assms by (rule Verify_result)
  have fs: "res_PublicKey r = sig_PublicKey s" "res_KeyHash r = Some (key_hash E s)"
    by (subst *(2); simp add: base_result_def)+
  have "keyHash224 (lib_crypto E) (sig_PublicKey s) = Ok (Some (key_hash E s))" "length (key_hash E s) = 28"
    using KeyHash_key_hash [OF assms(1), of s] by (simp_all add: Signature_KeyHash_def)
  then show ?thesis
    using *(1) cip30_Parse_lens [OF *(1)] by (auto simp: fs cip30_Parse_def outcome_simps)
qed

theorem Verify_identity_witness:
  "\<exists>r. Verify sample_libs sample_data [WithMessage (Some [104, 105])] = Ok r \<and>
    len (res_PublicKey r) = 32 \<and> len (res_KeyHash r) = 28"
proof -
  obtain r where "Verify sample_libs sample_data [WithMessage (Some [104, 105])] = Ok r"
    using sample_valid_message by blast
  with Verify_identity [OF sample_libs_start this] show ?thesis
    by blast
qed

section \<open>What the signature covers\<close>

text \<open>C16. The signed bytes determine the claims: if two parsed signatures are over the same
  Sig_structure bytes, they claim the same address and carry the same payload, so a signature
  cannot be moved to another address header or another attached payload.\<close>

theorem signed_bytes_determine_claims:
  assumes "marshal_law (lib_cbor E)" "cip30_Parse E sig = Ok s" "cip30_Parse E sig' = Ok s'"
    and "len (sig_protectedRaw s) < 2 ^ 64" "len (sig_Payload s) < 2 ^ 64"
    and "len (sig_protectedRaw s') < 2 ^ 64" "len (sig_Payload s') < 2 ^ 64"
    and "SigStructure (lib_cbor E) (sig_protectedRaw s) (sig_Payload s) =
      SigStructure (lib_cbor E) (sig_protectedRaw s') (sig_Payload s')"
  shows "sig_protectedRaw s = sig_protectedRaw s' \<and> sig_Address s = sig_Address s' \<and>
    content (sig_Payload s) = content (sig_Payload s')"
proof -
  have *: "sig_protectedRaw s = sig_protectedRaw s' \<and> content (sig_Payload s) = content (sig_Payload s')"
    using SigStructure_eq_iff [OF assms(1,4-7)] assms(8) by simp
  have header: "\<exists>alg. decodeProtected (lib_cbor E) (sig_protectedRaw t) = Ok (alg, sig_Address t)"
    if "cip30_Parse E g = Ok t" for g t
    using that by (auto simp: cip30_Parse_def outcome_simps DecodeSign1_eq_Ok)
  from header [OF assms(2)] header [OF assms(3)] * show ?thesis
    by auto
qed

theorem signed_bytes_determine_claims_witness:
  "\<exists>s t. cip30_Parse sample_libs (wallet_data [0x61] True None sample_sig sample_key) = Ok s \<and>
    cip30_Parse sample_libs (wallet_data [0x61] False (Some []) sample_sig sample_key) = Ok t \<and>
    s \<noteq> t \<and> sig_Address s = sig_Address t"
proof -
  let ?s = "wallet_parsed [0x61] True None sample_sig sample_key"
  let ?t = "wallet_parsed [0x61] False (Some []) sample_sig sample_key"
  have s: "cip30_Parse sample_libs (wallet_data [0x61] True None sample_sig sample_key) = Ok ?s"
    by (rule Parse_wallet_data [OF sample_cbor_documented]) simp_all
  have t: "cip30_Parse sample_libs (wallet_data [0x61] False (Some []) sample_sig sample_key) = Ok ?t"
    by (rule Parse_wallet_data [OF sample_cbor_documented]) simp_all
  have "length (enc (wallet_header [0x61])) \<le> 31"
    using enc_wallet_header [of "[0x61]"] by simp
  then have len: "len (sig_protectedRaw ?s) < 2 ^ 64" "len (sig_Payload ?s) < 2 ^ 64"
      "len (sig_protectedRaw ?t) < 2 ^ 64" "len (sig_Payload ?t) < 2 ^ 64"
    by (simp_all add: wallet_parsed_def del: enc.simps)
  have law: "marshal_law (lib_cbor sample_libs)"
    using ref_cbor_documented by (simp add: cbor_documented_def)
  have "SigStructure (lib_cbor sample_libs) (sig_protectedRaw ?s) (sig_Payload ?s) =
      SigStructure (lib_cbor sample_libs) (sig_protectedRaw ?t) (sig_Payload ?t)"
    by (simp add: SigStructure_def wallet_parsed_def del: enc.simps)
  from signed_bytes_determine_claims [OF law s t len this] have "sig_Address ?s = sig_Address ?t"
    by simp
  moreover have "?s \<noteq> ?t"
    by (simp add: wallet_parsed_def)
  ultimately show ?thesis
    using s t by blast
qed

text \<open>C32. The \<open>hashed\<close> flag is not covered by the signature: for a wallet's signature, flipping it
  leaves the signature verdict of \<open>Verify\<close> unchanged, and only how an expected message is read
  changes.\<close>

theorem hashed_flag_unsigned:
  assumes "libs_start E" "cbor_documented (lib_cbor E)" "length address < 2 ^ 32"
    and "len payload < 2 ^ 64" "length sg = 64" "length pk = 32"
  shows "Verify E (wallet_data address True payload sg pk) [] =
      Verify E (wallet_data address False payload sg pk) [] \<and>
    (\<exists>r. Verify E (wallet_data address True payload sg pk) [] = Ok r)"
proof -
  have opts: "applyOptions [] = Ok zero_config"
    by (simp add: applyOptions_def zero_config_def)
  have result: "Verify E (wallet_data address hashed payload sg pk) [] =
      Ok (base_result E (wallet_parsed address hashed payload sg pk) zero_config)" for hashed
    by (rule Verify_without_address [OF assms(1) opts Parse_wallet_data [OF assms(2-6)]])
      (simp_all add: zero_config_def)
  have "base_result E (wallet_parsed address True payload sg pk) zero_config =
      base_result E (wallet_parsed address False payload sg pk) zero_config"
    by (simp add: base_result_def zero_config_def wallet_parsed_def chosen_payload_def signs_def
        key_hash_def Signature_KeyHash_def cong: outcome.case_cong)
  with result show ?thesis
    by simp
qed

theorem hashed_flag_unsigned_witness:
  "Verify sample_libs (wallet_data [0x61] True (Some [1]) sample_sig sample_key) [] =
     Verify sample_libs (wallet_data [0x61] False (Some [1]) sample_sig sample_key) [] \<and>
   (\<exists>r. Verify sample_libs (wallet_data [0x61] True (Some [1]) sample_sig sample_key) [] = Ok r)"
  by (rule hashed_flag_unsigned [OF sample_libs_start sample_cbor_documented]) simp_all

text \<open>C33. The consequence for messages: one signature over the 28-byte hash of a message is valid for
  that hash as a raw message and, with the flag flipped by anyone, for the message itself, so a
  caller must not let the two stand for different statements.\<close>

theorem hashed_flag_reinterprets:
  assumes "libs_start E" "cbor_documented (lib_cbor E)" "length address < 2 ^ 32"
    and "length sg = 64" "length pk = 32" "digest (lib_crypto E) m True = Ok (Some h)" "length h < 2 ^ 64"
    and "ed25519_equation (lib_crypto E) pk (enc (sig_structure (Some (enc (wallet_header address))) h)) sg"
  shows "(\<exists>r. Verify E (wallet_data address False (Some h) sg pk) [WithMessage (Some h)] = Ok r \<and> Valid r) \<and>
    (\<exists>r. Verify E (wallet_data address True (Some h) sg pk) [WithMessage m] = Ok r \<and> Valid r)"
proof -
  obtain k where k: "keyHash224 (lib_crypto E) (Some pk) = Ok (Some k)"
    using assms(1) keyHash224_Ok [of "lib_crypto E"] unfolding libs_start_def by (metis content_simps(2))
  have valid: "\<exists>r. Verify E (wallet_data address hashed (Some h) sg pk) [WithMessage x] = Ok r \<and> Valid r"
    if "digest (lib_crypto E) x hashed = Ok (Some h)" for x hashed
  proof (rule wallet_valid [OF assms(1,2)])
    show "applyOptions [WithMessage x] = Ok (config_of [CallMessage x])"
      by (simp add: applyOptions_def option_defs config_of_def)
    show "authentic E (wallet_parsed address hashed (Some h) sg pk) (config_of [CallMessage x])"
      by (rule wallet_authentic [OF assms(2,3,7) _ k]) (use that assms(8) in \<open>auto simp: config_of_def\<close>)
  qed (use assms in auto)
  from valid [of "Some h" False] valid [of m True] assms(6) show ?thesis
    by simp
qed

theorem hashed_flag_reinterprets_witness:
  "\<exists>h. length h = 28 \<and>
    (\<exists>r. Verify sample_libs (wallet_data [0x61] False (Some h) sample_sig sample_key)
      [WithMessage (Some h)] = Ok r \<and> Valid r) \<and>
    (\<exists>r. Verify sample_libs (wallet_data [0x61] True (Some h) sample_sig sample_key)
      [WithMessage (Some (bytes_of_string ''Hello world''))] = Ok r \<and> Valid r)"
proof -
  have "hex_Decode (bytes_of_string ''Hello world'') = Err (InvalidByteError 72)"
    by code_simp
  then have "digest sample_crypto (Some (bytes_of_string ''Hello world'')) True =
      keyHash224 sample_crypto (Some (bytes_of_string ''Hello world''))"
    by (simp add: digest_not_hex)
  moreover obtain h where h: "keyHash224 sample_crypto (Some (bytes_of_string ''Hello world'')) = Ok (Some h)" "length h = 28"
    using keyHash224_Ok [OF sample_crypto_documented] by (metis content_simps(2))
  ultimately have digest: "digest (lib_crypto sample_libs) (Some (bytes_of_string ''Hello world'')) True = Ok (Some h)"
    by simp
  have "ed25519_equation (lib_crypto sample_libs) sample_key b sample_sig" for b
    by (simp add: sample_crypto_def sample_key_def sample_sig_def)
  with hashed_flag_reinterprets [OF sample_libs_start sample_cbor_documented, of "[0x61]" sample_sig sample_key,
      OF _ _ _ digest] h(2)
  show ?thesis
    by auto
qed

section \<open>From wire bytes to the equation\<close>

lemma length_those: "those xs = Some ys \<Longrightarrow> length ys = length xs"
  by (induction xs arbitrary: ys) (auto split: option.splits)

lemma bytes_item_len: "wf_cbor v \<Longrightarrow> bytes_item v = Some s \<Longrightarrow> len s < 2 ^ 64"
  by (cases v) (auto simp: len_def dest: length_those)

lemma sign1_spec_lens:
  assumes "sign1_wire b" "sign1_spec b = Inr s"
  shows "len (s1_ProtectedRaw s) < 2 ^ 64" "len (s1_Payload s) < 2 ^ 64"
    "len (s1_Signature s) = 64" "content (s1_ProtectedRaw s) \<noteq> []"
proof -
  obtain e0 e1 e2 e3 where e: "cbor_decode b = Some (CArr [e0, e1, e2, e3])"
      "elements_spec e0 e1 e2 e3 = Inr s"
    using assms(2) by (auto simp: sign1_spec_def split: option.splits cbor.splits list.splits)
  then have "wf_cbor e0" "wf_cbor e2"
    using assms(1) malformed_decode [of b] by (auto simp: sign1_wire_def item_ok_def)
  moreover have "bytes_item e0 = Some (s1_ProtectedRaw s)" "bytes_item e2 = Some (s1_Payload s)"
      "len (s1_Signature s) = 64" "header_reading (s1_ProtectedRaw s) \<noteq> None"
    using e(2) by (auto simp: elements_spec_def protected_spec_def split: option.splits sum.splits
        prod.splits if_splits)
  ultimately show "len (s1_ProtectedRaw s) < 2 ^ 64" "len (s1_Payload s) < 2 ^ 64"
      "len (s1_Signature s) = 64" "content (s1_ProtectedRaw s) \<noteq> []"
    using bytes_item_len by (auto simp: header_reading_def malformed_Nil malformed_decode)
qed

lemma key_spec_len: "key_spec b = Inr k \<Longrightarrow> len k = 32"
  by (auto simp: key_spec_def split: option.splits elim!: key_item_spec.elims split: if_splits)

text \<open>C37. End to end: when the bytes behind both hex strings read as a COSE_Sign1 and a COSE_Key,
  \<open>Verify\<close> without options succeeds, and its verdict is the Ed25519 equation for the key at label
  -2, the signature in the fourth element, and the bytes RFC 8152 prescribes for the protected
  header as received and the payload, which are written out.\<close>

theorem Verify_wire:
  assumes "libs_start E" "cbor_documented (lib_cbor E)"
    and "hex_DecodeString (ds_Signature g) = Ok sb" "hex_DecodeString (ds_Key g) = Ok kb"
    and "sign1_wire (content sb)" "key_wire (content kb)"
    and "sign1_spec (content sb) = Inr s" "key_spec (content kb) = Inr k"
  shows "\<exists>r. Verify E g [] = Ok r \<and> res_PublicKey r = k \<and>
    (Valid r \<longleftrightarrow> ed25519_equation (lib_crypto E) (content k)
      ([0x84, 0x6A] @ bytes_of_string ''Signature1'' @
        head 2 (len (s1_ProtectedRaw s)) @ content (s1_ProtectedRaw s) @ [0x40] @
        head 2 (len (s1_Payload s)) @ content (s1_Payload s))
      (content (s1_Signature s)))"
proof -
  let ?t = "\<lparr>sig_PublicKey = k, sig_Payload = s1_Payload s, sig_Hashed = s1_Hashed s,
    sig_Address = s1_Address s, sig_protectedRaw = s1_ProtectedRaw s, sig_signature = s1_Signature s\<rparr>"
  note lens = sign1_spec_lens [OF assms(5,7)] key_spec_len [OF assms(8)]
  have "cip30_Parse E g = Ok ?t"
    using Parse_agrees [OF assms(2-6)] assms(7,8) by simp
  then have r: "Verify E g [] = Ok (base_result E ?t zero_config)"
    by (intro Verify_without_address [OF assms(1)]) (simp_all add: applyOptions_def zero_config_def Let_def)
  obtain raw where raw: "s1_ProtectedRaw s = Some raw"
    using lens(4) by (cases "s1_ProtectedRaw s") auto
  have "SigStructure (lib_cbor E) (s1_ProtectedRaw s) (Some (content (s1_Payload s))) =
      Ok (enc (sig_structure (s1_ProtectedRaw s) (content (s1_Payload s))))"
    using SigStructure_enc [of "lib_cbor E" "s1_ProtectedRaw s" "Some (content (s1_Payload s))"]
      assms(2) lens by (simp add: cbor_documented_def len_content del: enc.simps)
  moreover have "enc (sig_structure (s1_ProtectedRaw s) (content (s1_Payload s))) =
      [0x84, 0x6A] @ bytes_of_string ''Signature1'' @
        head 2 (len (s1_ProtectedRaw s)) @ content (s1_ProtectedRaw s) @ [0x40] @
        head 2 (len (s1_Payload s)) @ content (s1_Payload s)"
    by (simp add: sig_structure_def raw len_content) (simp add: head_def)
  ultimately show ?thesis
    using lens by (simp add: r Valid_def signs_def base_result_def chosen_payload_def zero_config_def)
qed

theorem Verify_wire_witness:
  "\<exists>r. Verify sample_libs vector_data [] = Ok r \<and> res_PublicKey r = Some vector_x \<and>
    (Valid r \<longleftrightarrow> ed25519_equation sample_crypto vector_x
      ([0x84, 0x6A] @ bytes_of_string ''Signature1'' @ [0x58, 42] @ vector_protected @ [0x40] @
        [0x58, 38] @ vector_payload) vector_signature)"
proof -
  have "head 2 42 = [0x58, 42]" "head 2 38 = [0x58, 38]"
    by code_simp+
  then show ?thesis
    using Verify_wire [OF sample_libs_start _ vector_data_hex, of "_" "Some vector_x"] ref_cbor_documented
      sign1_wire_vector vector_key_wire sign1_spec_vector vector_key_spec
    by (simp add: len_def)
qed

end
